(* ===== verification/Prelude.thy ===== *)
theory Prelude
  imports Main "HOL-Library.Char_ord" "HOL-Library.List_Lexorder"
    "HOL-Library.Product_Lexorder" "HOL-Library.Word"
begin

text \<open>
  What every other theory shares: the names of the basic types, the collections of
  rewrite rules, SQL's row updates on tables kept as lists of rows, and the byte-string
  functions of Go's \<open>strings\<close> package that the program calls.
\<close>

named_theorems op_defs
  \<open>definitions of the operations, unfolded to follow one call\<close>
named_theorems obeys_intros
  \<open>rules that show what an operation may do to the database\<close>

named_theorems atomic_intros
  \<open>rules that show that a failed operation leaves the database as it was\<close>

type_synonym bytes = string
type_synonym time = int       \<comment> \<open>nanoseconds since the epoch\<close>
type_synonym duration = int   \<comment> \<open>nanoseconds, Go's \<open>time.Duration\<close>\<close>

abbreviation second :: duration where "second \<equiv> 1000000000"
abbreviation hour :: duration where "hour \<equiv> 3600 * second"

section \<open>Rows\<close>

text \<open>\<open>UPDATE t SET f WHERE P\<close>, the number of rows it affects, and \<open>DELETE\<close>.\<close>

definition update_where :: "('a \<Rightarrow> bool) \<Rightarrow> ('a \<Rightarrow> 'a) \<Rightarrow> 'a list \<Rightarrow> 'a list" where
  "update_where P f xs = map (\<lambda>x. if P x then f x else x) xs"

definition count_where :: "('a \<Rightarrow> bool) \<Rightarrow> 'a list \<Rightarrow> nat" where
  "count_where P xs = length (filter P xs)"

definition delete_where :: "('a \<Rightarrow> bool) \<Rightarrow> 'a list \<Rightarrow> 'a list" where
  "delete_where P xs = filter (\<lambda>x. \<not> P x) xs"

lemma update_where_Nil [simp]: "update_where P f [] = []"
  by (simp add: update_where_def)

lemma update_where_Cons [simp]:
  "update_where P f (x # xs) = (if P x then f x else x) # update_where P f xs"
  by (simp add: update_where_def)

lemma length_update_where [simp]: "length (update_where P f xs) = length xs"
  by (simp add: update_where_def)

lemma set_update_where:
  "set (update_where P f xs) = {x \<in> set xs. \<not> P x} \<union> f ` {x \<in> set xs. P x}"
  by (induction xs) auto

lemma in_update_whereE:
  assumes "y \<in> set (update_where P f xs)"
  obtains "y \<in> set xs" "\<not> P y" | x where "x \<in> set xs" "P x" "y = f x"
  using assms by (auto simp: set_update_where)

lemma map_update_where [simp]:
  "(\<And>x. g (f x) = g x) \<Longrightarrow> map g (update_where P f xs) = map g xs"
  by (induction xs) auto

lemma filter_update_where:
  "(\<And>x. P x \<Longrightarrow> \<not> Q x \<and> \<not> Q (f x)) \<Longrightarrow> filter Q (update_where P f xs) = filter Q xs"
  by (induction xs) auto

lemma update_where_none: "count_where P xs = 0 \<Longrightarrow> update_where P f xs = xs"
  by (induction xs) (auto simp: count_where_def split: if_splits)

lemma count_where_0_iff: "count_where P xs = 0 \<longleftrightarrow> (\<forall>x \<in> set xs. \<not> P x)"
  by (auto simp: count_where_def filter_empty_conv)

lemma count_update_where_self:
  "(\<And>x. \<not> P (f x)) \<Longrightarrow> count_where P (update_where P f xs) = 0"
  by (auto simp: count_where_0_iff set_update_where)

lemma set_delete_where [simp]: "set (delete_where P xs) = {x \<in> set xs. \<not> P x}"
  by (auto simp: delete_where_def)

lemma distinct_map_delete_where:
  "distinct (map f xs) \<Longrightarrow> distinct (map f (delete_where P xs))"
  by (simp add: delete_where_def distinct_map_filter)

lemma find_eq_None_iff: "find P xs = None \<longleftrightarrow> (\<forall>x \<in> set xs. \<not> P x)"
  by (auto simp: find_None_iff)

lemma find_SomeD: "find P xs = Some x \<Longrightarrow> x \<in> set xs \<and> P x"
  by (auto simp: find_Some_iff)

lemma distinct_map_inj_on: "distinct (map f xs) \<Longrightarrow> inj_on f (set xs)"
  by (simp add: distinct_map)

lemma distinct_map_eqD:
  "distinct (map f xs) \<Longrightarrow> x \<in> set xs \<Longrightarrow> y \<in> set xs \<Longrightarrow> f x = f y \<Longrightarrow> x = y"
  by (meson distinct_map inj_onD)

lemma find_unique:
  assumes "distinct (map f xs)" "x \<in> set xs"
  shows "find (\<lambda>y. f y = f x) xs = Some x"
  using assms by (induction xs) force+

lemma filter_unique:
  assumes "distinct (map f xs)" "x \<in> set xs"
  shows "filter (\<lambda>y. f y = f x) xs = [x]"
  using assms
proof (induction xs)
  case (Cons a xs)
  show ?case
  proof (cases "f a = f x")
    case True
    with Cons.prems have "a = x" and "\<forall>y \<in> set xs. f y \<noteq> f x"
      by (auto simp: image_iff)
    then show ?thesis by (simp add: filter_empty_conv)
  next
    case False
    with Cons show ?thesis by auto
  qed
qed simp

section \<open>Byte strings\<close>

text \<open>
  A Go string is a sequence of bytes, so \<open>string\<close> is used byte-wise: \<open>length\<close> is Go's
  \<open>len\<close>. \<open>strings.ToLower\<close> and \<open>strings.TrimSpace\<close> first try an ASCII path, written out
  below. On a string with a byte above 127 they use Go's Unicode tables, which stay
  arguments (\<open>ulower\<close>, \<open>uspace\<close>).
\<close>

definition byte_of :: "char \<Rightarrow> nat" where
  "byte_of c = of_char c"

definition is_ascii :: "char \<Rightarrow> bool" where
  "is_ascii c \<longleftrightarrow> byte_of c < 128"

definition ascii_lower :: "char \<Rightarrow> char" where
  "ascii_lower c = (if 65 \<le> byte_of c \<and> byte_of c \<le> 90 then char_of (byte_of c + 32) else c)"

definition ascii_space :: "char \<Rightarrow> bool" where
  "ascii_space c \<longleftrightarrow> byte_of c \<in> {9, 10, 11, 12, 13, 32}"

definition ToLower :: "(string \<Rightarrow> string) \<Rightarrow> string \<Rightarrow> string" where
  "ToLower ulower s = (if list_all is_ascii s then map ascii_lower s else ulower s)"

definition trim_ends :: "(char \<Rightarrow> bool) \<Rightarrow> string \<Rightarrow> string" where
  "trim_ends P s = rev (dropWhile P (rev (dropWhile P s)))"

definition TrimSpace :: "(string \<Rightarrow> string) \<Rightarrow> string \<Rightarrow> string" where
  "TrimSpace uspace s = (if list_all is_ascii s then trim_ends ascii_space s else uspace s)"

definition HasPrefix :: "string \<Rightarrow> string \<Rightarrow> bool" where
  "HasPrefix s p \<longleftrightarrow> take (length p) s = p"

lemma byte_of_bound: "byte_of c < 256"
  by (simp add: byte_of_def)

lemma byte_of_char_of: "n < 256 \<Longrightarrow> byte_of (char_of n) = n"
  by (simp add: byte_of_def)

lemma ascii_lower_idem [simp]: "ascii_lower (ascii_lower c) = ascii_lower c"
  by (auto simp: ascii_lower_def byte_of_char_of)

lemma is_ascii_lower [simp]: "is_ascii c \<Longrightarrow> is_ascii (ascii_lower c)"
  by (auto simp: ascii_lower_def is_ascii_def byte_of_char_of)

lemma ascii_space_lower [simp]: "ascii_space (ascii_lower c) = ascii_space c"
  by (auto simp: ascii_lower_def ascii_space_def byte_of_char_of)

lemma ToLower_ascii: "list_all is_ascii s \<Longrightarrow> ToLower u s = map ascii_lower s"
  by (simp add: ToLower_def)

lemma list_all_is_ascii_lower [simp]:
  "list_all is_ascii s \<Longrightarrow> list_all is_ascii (map ascii_lower s)"
  by (induction s) auto

lemma ToLower_idem: "list_all is_ascii s \<Longrightarrow> ToLower u (ToLower u s) = ToLower u s"
  by (simp add: ToLower_ascii comp_def)

lemma list_all_dropWhile: "list_all P s \<Longrightarrow> list_all P (dropWhile Q s)"
  by (induction s) auto

lemma list_all_trim_ends: "list_all P s \<Longrightarrow> list_all P (trim_ends Q s)"
  by (simp add: trim_ends_def list_all_dropWhile)

lemma dropWhile_idem: "dropWhile P (dropWhile P s) = dropWhile P s"
  by (induction s) auto

lemma dropWhile_hd: "s = [] \<or> \<not> P (hd s) \<Longrightarrow> dropWhile P s = s"
  by (cases s) auto

lemma trim_ends_hd:
  assumes "trim_ends P s \<noteq> []" shows "\<not> P (hd (trim_ends P s))"
proof -
  obtain ys where ys: "dropWhile P s = trim_ends P s @ ys"
    unfolding trim_ends_def
    by (metis rev_append rev_rev_ident takeWhile_dropWhile_id)
  with assms have "dropWhile P s \<noteq> []" "hd (dropWhile P s) = hd (trim_ends P s)" by auto
  then show ?thesis using hd_dropWhile by metis
qed

lemma trim_ends_idem [simp]: "trim_ends P (trim_ends P s) = trim_ends P s"
proof -
  have "dropWhile P (trim_ends P s) = trim_ends P s"
    using trim_ends_hd by (intro dropWhile_hd) blast
  moreover have "rev (dropWhile P (rev (trim_ends P s))) = trim_ends P s"
    by (simp add: trim_ends_def dropWhile_idem)
  ultimately show ?thesis by (simp add: trim_ends_def)
qed

lemma TrimSpace_idem:
  "list_all is_ascii s \<Longrightarrow> TrimSpace u (TrimSpace u s) = TrimSpace u s"
  by (simp add: TrimSpace_def list_all_trim_ends)

lemma trim_ends_map_lower:
  "trim_ends ascii_space (map ascii_lower s) = map ascii_lower (trim_ends ascii_space s)"
  by (simp add: trim_ends_def dropWhile_map comp_def rev_map)

section \<open>Decimal numbers\<close>

text \<open>The verb \<open>%d\<close> of Go's \<open>fmt\<close> on a non-negative and on a signed integer.\<close>

definition digit_char :: "nat \<Rightarrow> char" where
  "digit_char d = char_of (48 + d)"

fun dec_nat :: "nat \<Rightarrow> string" where
  "dec_nat n = (if n < 10 then [digit_char n] else dec_nat (n div 10) @ [digit_char (n mod 10)])"

declare dec_nat.simps [simp del]

definition dec_int :: "int \<Rightarrow> string" where
  "dec_int i = (if i < 0 then ''-'' @ dec_nat (nat (- i)) else dec_nat (nat i))"

text \<open>
  The verb \<open>%q\<close>: printable ASCII is quoted as below, anything else goes through Go's
  Unicode tables (\<open>uquote\<close>).
\<close>

definition printable :: "char \<Rightarrow> bool" where
  "printable c \<longleftrightarrow> 32 \<le> byte_of c \<and> byte_of c < 127"

definition escape :: "char \<Rightarrow> string" where
  "escape c = (if byte_of c \<in> {34, 92} then [CHR 0x5C, c] else [c])"

definition Quote :: "(string \<Rightarrow> string) \<Rightarrow> string \<Rightarrow> string" where
  "Quote uquote s =
    (if list_all printable s then CHR 0x22 # concat (map escape s) @ [CHR 0x22] else uquote s)"

text \<open>\<open>strings.Contains\<close> and \<open>strings.Join\<close>.\<close>

fun Contains :: "string \<Rightarrow> string \<Rightarrow> bool" where
  "Contains [] p \<longleftrightarrow> p = []"
| "Contains (c # s) p \<longleftrightarrow> HasPrefix (c # s) p \<or> Contains s p"

fun Join :: "string list \<Rightarrow> string \<Rightarrow> string" where
  "Join [] sep = []"
| "Join [x] sep = x"
| "Join (x # xs) sep = x @ sep @ Join xs sep"

lemma Contains_iff: "Contains s p \<longleftrightarrow> (\<exists>a b. s = a @ p @ b)"
proof (induction s)
  case (Cons c s)
  show ?case
  proof
    assume "Contains (c # s) p"
    then consider "HasPrefix (c # s) p" | "Contains s p" by auto
    then show "\<exists>a b. c # s = a @ p @ b"
    proof cases
      case 1
      then have "c # s = [] @ p @ drop (length p) (c # s)"
        unfolding HasPrefix_def by (metis append_Nil append_take_drop_id)
      then show ?thesis by blast
    next
      case 2
      then obtain a b where "s = a @ p @ b" using Cons.IH by blast
      then have "c # s = (c # a) @ p @ b" by simp
      then show ?thesis by blast
    qed
  next
    assume "\<exists>a b. c # s = a @ p @ b"
    then obtain a b where ab: "c # s = a @ p @ b" by blast
    show "Contains (c # s) p"
    proof (cases a)
      case Nil
      with ab have "HasPrefix (c # s) p" by (simp add: HasPrefix_def)
      then show ?thesis by simp
    next
      case (Cons x a')
      with ab have "s = a' @ p @ b" by simp
      then have "\<exists>a b. s = a @ p @ b" by blast
      with Cons.IH show ?thesis by simp
    qed
  qed
qed simp

end
