(* ===== verification/Settings.thy ===== *)
theory Settings
  imports Prelude
begin

text \<open>
  \<open>internal/settings/settings.go\<close>: the configuration records and \<open>validate\<close>, which
  decides at startup whether the process may run with them; and \<open>parseLevel\<close> of
  \<open>internal/logger/logger.go\<close>. Reading the environment (the \<open>env\<close> and \<open>godotenv\<close>
  packages) is the argument of \<open>Load\<close>.
\<close>

section \<open>The configuration\<close>

record app_settings =
  Environment :: string
  Debug :: bool
  LogLevel :: string
  InstanceID :: string

record server_settings =
  Host :: string
  Port :: int
  ReadTimeout :: duration
  WriteTimeout :: duration
  IdleTimeout :: duration
  ShutdownTimeout :: duration
  TrustProxyHeaders :: bool

record postgres_settings =
  PgHost :: string
  PgPort :: int
  PgUser :: string
  PgPassword :: string
  PgDatabase :: string
  SSLMode :: string
  MaxConns :: int
  MinConns :: int
  MaxConnLifetime :: duration
  MaxConnIdleTime :: duration

record auth_settings =
  SessionTTL :: duration
  InvitationTTL :: duration
  PasswordResetTTL :: duration
  EmailVerifyTTL :: duration
  MinPasswordLength :: int
  ArgonMemoryKiB :: "32 word"
  ArgonIterations :: "32 word"
  ArgonParallelism :: "8 word"

record mail_settings =
  Backend :: string
  From :: string
  BaseURL :: string
  SMTPHost :: string
  SMTPPort :: int
  SMTPUsername :: string
  SMTPPassword :: string

record ratelimit_settings =
  Enabled :: bool
  Attempts :: int
  Window :: duration

record settings =
  App :: app_settings
  Server :: server_settings
  Postgres :: postgres_settings
  Auth :: auth_settings
  Retention :: duration
  AllowedOrigins :: "string list"
  Mail :: mail_settings
  RateLimit :: ratelimit_settings

definition Addr :: "server_settings \<Rightarrow> string" where
  "Addr s = Host s @ '':'' @ dec_int (Port s)"

definition DSN :: "postgres_settings \<Rightarrow> string" where
  "DSN p = ''host='' @ PgHost p @ '' port='' @ dec_int (PgPort p) @ '' user='' @ PgUser p
     @ '' password='' @ PgPassword p @ '' dbname='' @ PgDatabase p @ '' sslmode='' @ SSLMode p"

definition IsProduction :: "settings \<Rightarrow> bool" where
  "IsProduction s \<longleftrightarrow> Environment (App s) = ''production''"

section \<open>validate\<close>

text \<open>One constructor per complaint of the code; \<open>None\<close> is Go's nil.\<close>

datatype settings_error =
    InvalidPort int
  | MinConnsExceedsMax int int
  | SessionTTLNotPositive
  | InvitationTTLNotPositive
  | PasswordResetTTLNotPositive
  | MinPasswordLengthTooSmall
  | ArgonParallelismZero
  | DebugInProduction
  | SSLDisabledInProduction
  | UnknownMailBackend string
  | LogMailerInProduction
  | LocalhostInProduction string
  | EmailVerifyTTLNotPositive
  | WildcardOriginInProduction
  | RateLimitNotPositive
  | ParseFailed string

definition validate :: "settings \<Rightarrow> settings_error option" where
  "validate s =
    (if Port (Server s) \<le> 0 \<or> Port (Server s) > 65535 then Some (InvalidPort (Port (Server s)))
     else if MinConns (Postgres s) > MaxConns (Postgres s)
       then Some (MinConnsExceedsMax (MinConns (Postgres s)) (MaxConns (Postgres s)))
     else if SessionTTL (Auth s) \<le> 0 then Some SessionTTLNotPositive
     else if InvitationTTL (Auth s) \<le> 0 then Some InvitationTTLNotPositive
     else if PasswordResetTTL (Auth s) \<le> 0 then Some PasswordResetTTLNotPositive
     else if MinPasswordLength (Auth s) < 8 then Some MinPasswordLengthTooSmall
     else if ArgonParallelism (Auth s) = 0 then Some ArgonParallelismZero
     else if IsProduction s \<and> Debug (App s) then Some DebugInProduction
     else if IsProduction s \<and> SSLMode (Postgres s) = ''disable'' then Some SSLDisabledInProduction
     else if \<not> (Backend (Mail s) = ''log'' \<or> Backend (Mail s) = ''smtp'')
       then Some (UnknownMailBackend (Backend (Mail s)))
     else if IsProduction s \<and> Backend (Mail s) = ''log'' then Some LogMailerInProduction
     else if IsProduction s \<and> Contains (BaseURL (Mail s)) ''localhost''
       then Some (LocalhostInProduction (BaseURL (Mail s)))
     else if EmailVerifyTTL (Auth s) \<le> 0 then Some EmailVerifyTTLNotPositive
     else if list_ex (\<lambda>origin. origin = ''*'' \<and> IsProduction s) (AllowedOrigins s)
       then Some WildcardOriginInProduction
     else if Enabled (RateLimit s) \<and> (Attempts (RateLimit s) \<le> 0 \<or> Window (RateLimit s) \<le> 0)
       then Some RateLimitNotPositive
     else None)"

definition Load :: "string + settings \<Rightarrow> settings_error + settings" where
  "Load parsed =
    (case parsed of
       Inl msg \<Rightarrow> Inl (ParseFailed msg)
     | Inr s \<Rightarrow> (case validate s of Some err \<Rightarrow> Inl err | None \<Rightarrow> Inr s))"

section \<open>Log levels\<close>

datatype log_level = LevelDebug | LevelInfo | LevelWarn | LevelError

definition parseLevel :: "(string \<Rightarrow> string) \<Rightarrow> string \<Rightarrow> log_level" where
  "parseLevel ulower level =
    (let l = ToLower ulower level in
     if l = ''debug'' then LevelDebug
     else if l = ''warn'' \<or> l = ''warning'' then LevelWarn
     else if l = ''error'' then LevelError
     else LevelInfo)"

text \<open>\<open>logger.New\<close>: the level, text or JSON lines, and the attributes of every line.\<close>

record logger =
  logLevel :: log_level
  logText :: bool
  logAttrs :: "(string \<times> string) list"

definition NewLogger :: "(string \<Rightarrow> string) \<Rightarrow> settings \<Rightarrow> logger" where
  "NewLogger ulower s =
    \<lparr>logLevel = parseLevel ulower (LogLevel (App s)), logText = Debug (App s),
     logAttrs = (if InstanceID (App s) \<noteq> '''' then [(''instance_id'', InstanceID (App s))] else [])
       @ [(''env'', Environment (App s))]\<rparr>"

section \<open>What validate guarantees\<close>

text \<open>The configurations the program is meant to run with, stated field by field.\<close>

definition sound_config :: "settings \<Rightarrow> bool" where
  "sound_config s \<longleftrightarrow>
     1 \<le> Port (Server s) \<and> Port (Server s) \<le> 65535
   \<and> MinConns (Postgres s) \<le> MaxConns (Postgres s)
   \<and> (\<forall>ttl \<in> {SessionTTL, InvitationTTL, PasswordResetTTL, EmailVerifyTTL}. 0 < ttl (Auth s))
   \<and> 8 \<le> MinPasswordLength (Auth s) \<and> ArgonParallelism (Auth s) \<noteq> 0
   \<and> Backend (Mail s) \<in> {''log'', ''smtp''}
   \<and> (Enabled (RateLimit s) \<longrightarrow> 0 < Attempts (RateLimit s) \<and> 0 < Window (RateLimit s))"

definition production_safe :: "settings \<Rightarrow> bool" where
  "production_safe s \<longleftrightarrow>
     \<not> Debug (App s) \<and> SSLMode (Postgres s) \<noteq> ''disable'' \<and> Backend (Mail s) = ''smtp''
   \<and> \<not> Contains (BaseURL (Mail s)) ''localhost'' \<and> ''*'' \<notin> set (AllowedOrigins s)"

lemma validate_None_iff:
  "validate s = None \<longleftrightarrow> sound_config s \<and> (IsProduction s \<longrightarrow> production_safe s)"
proof -
  have "list_ex (\<lambda>origin. origin = ''*'' \<and> IsProduction s) (AllowedOrigins s)
      \<longleftrightarrow> IsProduction s \<and> ''*'' \<in> set (AllowedOrigins s)"
    by (auto simp: list_ex_iff)
  then show ?thesis
    unfolding validate_def sound_config_def production_safe_def
    by (cases "IsProduction s") (auto simp: linorder_not_less linorder_not_le)
qed

end
