(* ===== verification/Mail.thy ===== *)
theory Mail
  imports Settings
begin

text \<open>
  \<open>internal/mail/mail.go\<close> and \<open>messages.go\<close>: the three emails, the two mailers, and
  \<open>newMailer\<close> of \<open>cmd/server/main.go\<close>. The network (\<open>smtp.SendMail\<close>) is an argument.
\<close>

record message =
  To :: string
  Subject :: string
  Body :: string

abbreviation nl :: string where "nl \<equiv> [CHR 0x0A]"
abbreviation crlf :: string where "crlf \<equiv> [CHR 0x0D, CHR 0x0A]"

section \<open>The messages\<close>

definition Invitation :: "string \<Rightarrow> string \<Rightarrow> string \<Rightarrow> message" where
  "Invitation baseURL inviterEmail token =
    (let link = baseURL @ ''/invitations/accept?token='' @ token in
     \<lparr>To = '''', Subject = ''You have been invited to create an account'',
      Body = inviterEmail @ '' has invited you to create an account.'' @ nl @ nl
        @ ''Accept the invitation and set a password:'' @ nl @ nl
        @ ''    '' @ link @ nl @ nl
        @ ''If you were not expecting this, you can ignore it. The link expires on its own.'' @ nl\<rparr>)"

definition PasswordReset :: "string \<Rightarrow> string \<Rightarrow> int \<Rightarrow> message" where
  "PasswordReset baseURL token ttlHours =
    (let link = baseURL @ ''/auth/password/reset?token='' @ token in
     \<lparr>To = '''', Subject = ''Reset your password'',
      Body = ''Somebody asked to reset the password for this account.'' @ nl @ nl
        @ ''Set a new password:'' @ nl @ nl
        @ ''    '' @ link @ nl @ nl
        @ ''The link works once and expires in '' @ dec_int ttlHours @ '' hour(s).'' @ nl @ nl
        @ ''If this was not you, you do not need to do anything -- your password has not'' @ nl
        @ ''changed, and it will not change unless somebody uses the link above.'' @ nl\<rparr>)"

definition EmailVerification :: "string \<Rightarrow> string \<Rightarrow> int \<Rightarrow> message" where
  "EmailVerification baseURL token ttlHours =
    (let link = baseURL @ ''/auth/email/verify?token='' @ token in
     \<lparr>To = '''', Subject = ''Confirm your email address'',
      Body = ''Confirm this email address to finish setting up your account:'' @ nl @ nl
        @ ''    '' @ link @ nl @ nl
        @ ''The link works once and expires in '' @ dec_int ttlHours @ '' hour(s).'' @ nl @ nl
        @ ''You can sign in without it, but you will not be able to create anything until the'' @ nl
        @ ''address is confirmed.'' @ nl @ nl
        @ ''If you did not create an account, ignore this -- nothing will happen.'' @ nl\<rparr>)"

section \<open>The mailers\<close>

datatype mail_error = HeaderInjection | SendFailed

text \<open>\<open>SMTPMailer\<close> holds its address and sender; its credentials only reach the network.\<close>

datatype mailer = LogMailer | SMTPMailer (smtp_addr: string) (smtp_from: string)

definition newline_in :: "string \<Rightarrow> bool" where
  "newline_in s \<longleftrightarrow> list_ex (\<lambda>c. c = CHR 0x0D \<or> c = CHR 0x0A) s"

definition smtp_body :: "string \<Rightarrow> message \<Rightarrow> string" where
  "smtp_body from msg = ''From: '' @ from @ crlf @ ''To: '' @ To msg @ crlf
     @ ''Subject: '' @ Subject msg @ crlf
     @ ''Content-Type: text/plain; charset=utf-8'' @ crlf @ crlf @ Body msg"

text \<open>
  \<open>Send\<close> returns Go's error as an option. \<open>SendMail addr from to body\<close> says whether the
  network accepted the mail.
\<close>

definition mailer_Send ::
  "(string \<Rightarrow> string \<Rightarrow> string \<Rightarrow> string \<Rightarrow> bool) \<Rightarrow> mailer \<Rightarrow> message \<Rightarrow> mail_error option" where
  "mailer_Send SendMail m msg =
    (case m of
       LogMailer \<Rightarrow> None
     | SMTPMailer addr from \<Rightarrow>
         if newline_in (To msg) \<or> newline_in (Subject msg) then Some HeaderInjection
         else if SendMail addr from (To msg) (smtp_body from msg) then None
         else Some SendFailed)"

definition NewSMTPMailer :: "string \<Rightarrow> int \<Rightarrow> string \<Rightarrow> mailer" where
  "NewSMTPMailer host port from = SMTPMailer (host @ '':'' @ dec_int port) from"

definition newMailer :: "mail_settings \<Rightarrow> mailer" where
  "newMailer cfg =
    (if Backend cfg = ''smtp'' then NewSMTPMailer (SMTPHost cfg) (SMTPPort cfg) (From cfg)
     else LogMailer)"

section \<open>Header injection\<close>

lemma subject_no_newline [simp]:
  "\<not> newline_in (Subject (Invitation b i t))"
  "\<not> newline_in (Subject (PasswordReset b t h))"
  "\<not> newline_in (Subject (EmailVerification b t h))"
  by (simp_all add: Invitation_def PasswordReset_def EmailVerification_def newline_in_def Let_def)

lemma newline_in_append [simp]: "newline_in (s @ t) \<longleftrightarrow> newline_in s \<or> newline_in t"
  by (auto simp: newline_in_def)

end
