(* ===== verification/Rate_Limit.thy ===== *)
theory Rate_Limit
  imports Settings
begin

text \<open>
  The counter of \<open>internal/server/ratelimit.go\<close>: a fixed window per key, the reaper, and
  the keys a route is limited by. The mutex makes \<open>allow\<close> and \<open>reap\<close> atomic, so they are
  functions of the state. \<open>allow\<close> reads the clock twice, once to decide and once for the
  time left.
\<close>

record bucket =
  bucket_count :: int
  bucket_expiresAt :: time

record limiter =
  buckets :: "string \<rightharpoonup> bucket"
  limit_attempts :: int
  limit_window :: duration

definition newLimiter :: "ratelimit_settings \<Rightarrow> limiter" where
  "newLimiter cfg =
    \<lparr>buckets = Map.empty, limit_attempts = Attempts cfg, limit_window = Window cfg\<rparr>"

definition allow :: "time \<Rightarrow> time \<Rightarrow> string \<Rightarrow> limiter \<Rightarrow> (bool \<times> duration) \<times> limiter" where
  "allow now now2 key l =
    (case buckets l key of
       Some b \<Rightarrow>
         if now > bucket_expiresAt b then
           ((True, 0), l\<lparr>buckets := (buckets l)(key \<mapsto>
              \<lparr>bucket_count = 1, bucket_expiresAt = now + limit_window l\<rparr>)\<rparr>)
         else if bucket_count b \<ge> limit_attempts l
           then ((False, bucket_expiresAt b - now2), l)
         else ((True, 0), l\<lparr>buckets := (buckets l)(key \<mapsto>
              b\<lparr>bucket_count := bucket_count b + 1\<rparr>)\<rparr>)
     | None \<Rightarrow>
         ((True, 0), l\<lparr>buckets := (buckets l)(key \<mapsto>
            \<lparr>bucket_count = 1, bucket_expiresAt = now + limit_window l\<rparr>)\<rparr>))"

definition reap :: "time \<Rightarrow> limiter \<Rightarrow> limiter" where
  "reap now l = l\<lparr>buckets := (\<lambda>key. case buckets l key of
     None \<Rightarrow> None | Some b \<Rightarrow> if now > bucket_expiresAt b then None else Some b)\<rparr>"

text \<open>The limiter's own reaper over its ticks, until the server is done.\<close>

fun runReaper :: "time list \<Rightarrow> limiter \<Rightarrow> limiter" where
  "runReaper [] l = l"
| "runReaper (now # ticks) l = runReaper ticks (reap now l)"

text \<open>The loop of the middleware over the keys of a request: the wait when one is refused.\<close>

fun check_keys :: "time \<Rightarrow> time \<Rightarrow> string list \<Rightarrow> limiter \<Rightarrow> duration option \<times> limiter" where
  "check_keys now now2 [] l = (None, l)"
| "check_keys now now2 (key # keys) l =
    (if key = '''' then check_keys now now2 keys l
     else case allow now now2 key l of
            ((True, _), l') \<Rightarrow> check_keys now now2 keys l'
          | ((False, wait), l') \<Rightarrow> (Some wait, l'))"

definition byIP :: "string \<Rightarrow> string \<Rightarrow> string list" where
  "byIP pre ip = [pre @ ''|ip|'' @ ip]"

definition byIPAndEmail :: "string \<Rightarrow> string \<Rightarrow> string \<Rightarrow> string list" where
  "byIPAndEmail pre ip email =
    byIP pre ip @ (if email \<noteq> '''' then [pre @ ''|email|'' @ email] else [])"

section \<open>The counter over a run\<close>

text \<open>Attempts on one key at the given times; the answers, and how many were allowed.\<close>

fun attempts_at :: "string \<Rightarrow> time list \<Rightarrow> limiter \<Rightarrow> bool list \<times> limiter" where
  "attempts_at key [] l = ([], l)"
| "attempts_at key (t # ts) l =
    (case allow t t key l of ((ok, _), l') \<Rightarrow>
     case attempts_at key ts l' of (oks, l'') \<Rightarrow> (ok # oks, l''))"

definition allowed_count :: "string \<Rightarrow> time list \<Rightarrow> limiter \<Rightarrow> nat" where
  "allowed_count key ts l = length (filter id (fst (attempts_at key ts l)))"

lemma allow_cfg [simp]:
  "limit_attempts (snd (allow now now2 key l)) = limit_attempts l"
  "limit_window (snd (allow now now2 key l)) = limit_window l"
  by (simp_all add: allow_def split: option.split)

lemma allow_other [simp]: "k \<noteq> key \<Longrightarrow> buckets (snd (allow now now2 key l)) k = buckets l k"
  by (simp add: allow_def split: option.split)

lemma allow_value_bound:
  assumes "fst (fst (allow now now2 key l))" "limit_attempts l \<ge> 1"
  shows "\<exists>b. buckets (snd (allow now now2 key l)) key = Some b \<and> bucket_count b \<le> limit_attempts l"
  using assms by (auto simp: allow_def split: option.splits if_splits)

lemma allowed_count_Cons:
  "allowed_count key (t # ts) l =
     (if fst (fst (allow t t key l)) then 1 else 0)
   + allowed_count key ts (snd (allow t t key l))"
  by (auto simp: allowed_count_def split: prod.split)

lemma allowed_count_Nil [simp]: "allowed_count key [] l = 0"
  by (simp add: allowed_count_def)

text \<open>Before the window of a bucket ends, what it has counted and will allow stays in the limit.\<close>

lemma allowed_in_window:
  assumes "buckets l key = Some b" "bucket_count b \<le> limit_attempts l"
    and "\<forall>t \<in> set ts. t \<le> bucket_expiresAt b"
  shows "int (allowed_count key ts l) + bucket_count b \<le> limit_attempts l"
  using assms
proof (induction ts arbitrary: l b)
  case (Cons t ts)
  show ?case
  proof (cases "bucket_count b \<ge> limit_attempts l")
    case True
    with Cons.prems have "allow t t key l = ((False, bucket_expiresAt b - t), l)"
      by (simp add: allow_def)
    with Cons.IH [OF Cons.prems(1,2)] Cons.prems(3) show ?thesis
      by (simp add: allowed_count_Cons)
  next
    case False
    let ?b = "b\<lparr>bucket_count := bucket_count b + 1\<rparr>"
    let ?l = "l\<lparr>buckets := (buckets l)(key \<mapsto> ?b)\<rparr>"
    from False Cons.prems have "allow t t key l = ((True, 0), ?l)" by (simp add: allow_def)
    moreover have "int (allowed_count key ts ?l) + bucket_count ?b \<le> limit_attempts ?l"
      using False Cons.prems by (intro Cons.IH) simp_all
    ultimately show ?thesis by (simp add: allowed_count_Cons)
  qed
qed simp

text \<open>A window that starts with the first attempt allows at most the limit.\<close>

lemma allowed_fresh:
  assumes "case buckets l key of None \<Rightarrow> True | Some b \<Rightarrow> t > bucket_expiresAt b"
    and "limit_attempts l \<ge> 1" "\<forall>t' \<in> set ts. t' \<le> t + limit_window l"
  shows "int (allowed_count key (t # ts) l) \<le> limit_attempts l"
proof -
  let ?b = "\<lparr>bucket_count = 1, bucket_expiresAt = t + limit_window l\<rparr>"
  let ?l = "l\<lparr>buckets := (buckets l)(key \<mapsto> ?b)\<rparr>"
  have "allow t t key l = ((True, 0), ?l)"
    using assms(1) by (auto simp: allow_def split: option.splits)
  moreover have "int (allowed_count key ts ?l) + bucket_count ?b \<le> limit_attempts ?l"
    using assms(2,3) by (intro allowed_in_window) simp_all
  ultimately show ?thesis by (simp add: allowed_count_Cons)
qed

definition within_limit :: "limiter \<Rightarrow> string \<Rightarrow> bool" where
  "within_limit l key \<longleftrightarrow>
     (case buckets l key of
        None \<Rightarrow> True | Some b \<Rightarrow> 0 \<le> bucket_count b \<and> bucket_count b \<le> limit_attempts l)"

lemma allowed_span:
  assumes "within_limit l key" "limit_attempts l \<ge> 1" "sorted ts"
    and "\<forall>t \<in> set ts. s \<le> t \<and> t \<le> s + limit_window l"
  shows "int (allowed_count key ts l) \<le> 2 * limit_attempts l
      - (case buckets l key of Some b \<Rightarrow> bucket_count b | None \<Rightarrow> limit_attempts l)
      \<or> int (allowed_count key ts l) \<le> limit_attempts l"
  using assms
proof (induction ts arbitrary: l)
  case (Cons t ts)
  show ?case
  proof (cases "case buckets l key of None \<Rightarrow> True | Some b \<Rightarrow> t > bucket_expiresAt b")
    case True
    then have "int (allowed_count key (t # ts) l) \<le> limit_attempts l"
      using Cons.prems by (intro allowed_fresh) force+
    then show ?thesis by simp
  next
    case False
    then obtain b where b: "buckets l key = Some b" "t \<le> bucket_expiresAt b"
      by (auto split: option.splits)
    show ?thesis
    proof (cases "bucket_count b \<ge> limit_attempts l")
      case True
      with b have "allow t t key l = ((False, bucket_expiresAt b - t), l)"
        by (simp add: allow_def)
      with Cons.IH [of l] Cons.prems show ?thesis by (simp add: allowed_count_Cons)
    next
      case False
      let ?b = "b\<lparr>bucket_count := bucket_count b + 1\<rparr>"
      let ?l = "l\<lparr>buckets := (buckets l)(key \<mapsto> ?b)\<rparr>"
      from False b have step: "allow t t key l = ((True, 0), ?l)" by (simp add: allow_def)
      have "int (allowed_count key ts ?l) \<le> 2 * limit_attempts ?l
          - (case buckets ?l key of Some b \<Rightarrow> bucket_count b | None \<Rightarrow> limit_attempts ?l)
          \<or> int (allowed_count key ts ?l) \<le> limit_attempts ?l"
        using Cons.prems False b by (intro Cons.IH) (simp_all add: within_limit_def)
      then show ?thesis
      proof
        assume "int (allowed_count key ts ?l) \<le> 2 * limit_attempts ?l
          - (case buckets ?l key of Some b \<Rightarrow> bucket_count b | None \<Rightarrow> limit_attempts ?l)"
        with b step show ?thesis by (simp add: allowed_count_Cons)
      next
        assume "int (allowed_count key ts ?l) \<le> limit_attempts ?l"
        with False b step show ?thesis by (simp add: allowed_count_Cons)
      qed
    qed
  qed
qed simp

lemma allowed_span_twice:
  assumes "within_limit l key" "limit_attempts l \<ge> 1" "sorted ts"
    and "\<forall>t \<in> set ts. s \<le> t \<and> t \<le> s + limit_window l"
  shows "int (allowed_count key ts l) \<le> 2 * limit_attempts l"
  using allowed_span [OF assms] assms(1,2) by (auto simp: within_limit_def split: option.splits)

text \<open>Reaping forgets only what \<open>allow\<close> would forget itself.\<close>

lemma allow_reap:
  assumes "now0 \<le> now"
  shows "fst (allow now now2 key (reap now0 l)) = fst (allow now now2 key l)"
    and "buckets (snd (allow now now2 key (reap now0 l))) key
       = buckets (snd (allow now now2 key l)) key"
  using assms by (auto simp: allow_def reap_def split: option.splits)

text \<open>The states of the limiter: from \<open>newLimiter\<close> by calls of \<open>allow\<close> and of the reaper.\<close>

inductive limiter_reach :: "ratelimit_settings \<Rightarrow> limiter \<Rightarrow> bool" for cfg where
  start: "limiter_reach cfg (newLimiter cfg)"
| allowed: "limiter_reach cfg l \<Longrightarrow> limiter_reach cfg (snd (allow now now2 key l))"
| reaped: "limiter_reach cfg l \<Longrightarrow> limiter_reach cfg (reap now l)"

lemma limiter_reach_runReaper: "limiter_reach cfg l \<Longrightarrow> limiter_reach cfg (runReaper ticks l)"
  by (induction ticks arbitrary: l) (simp_all add: limiter_reach.reaped)

lemma within_limit_allow:
  "within_limit l k \<Longrightarrow> limit_attempts l \<ge> 1 \<Longrightarrow> within_limit (snd (allow now now2 key l)) k"
  by (cases "k = key") (auto simp: within_limit_def allow_def split: option.splits)

lemma limiter_reach_cfg:
  "limiter_reach cfg l \<Longrightarrow> limit_attempts l = Attempts cfg \<and> limit_window l = Window cfg"
  by (induction rule: limiter_reach.induct) (simp_all add: newLimiter_def reap_def)

lemma limiter_reach_within:
  assumes "limiter_reach cfg l" "Attempts cfg \<ge> 1"
  shows "within_limit l key"
  using assms
proof (induction rule: limiter_reach.induct)
  case (allowed l)
  then show ?case by (intro within_limit_allow) (simp_all add: limiter_reach_cfg)
qed (auto simp: newLimiter_def within_limit_def reap_def split: option.splits)

end
