(* ===== verification/Models.thy ===== *)
theory Models
  imports Prelude
begin

text \<open>
  The data of the program: the structs of \<open>internal/identity/models.go\<close> and of
  \<open>internal/audit/audit.go\<close>, the errors of \<open>internal/identity/errors.go\<close>, and the rows of
  \<open>migrations/00001_init.sql\<close>. A row keeps what the column keeps (a nullable column is an
  option); the struct is what the repository's scan functions make of it.
\<close>

section \<open>Identifiers\<close>

text \<open>A UUID is 128 bits and compares byte-wise, that is, as an unsigned number.\<close>

datatype uuid = UUID (uuid_bits: "128 word")

instantiation uuid :: linorder
begin

definition less_eq_uuid :: "uuid \<Rightarrow> uuid \<Rightarrow> bool" where
  "less_eq_uuid u v \<longleftrightarrow> uuid_bits u \<le> uuid_bits v"

definition less_uuid :: "uuid \<Rightarrow> uuid \<Rightarrow> bool" where
  "less_uuid u v \<longleftrightarrow> uuid_bits u < uuid_bits v"

instance
  by standard (auto simp: less_eq_uuid_def less_uuid_def uuid.expand)

end

definition uuid_Nil :: uuid where
  "uuid_Nil = UUID 0"

type_synonym permission = string

text \<open>\<open>PermissionSet\<close> is Go's \<open>map[Permission]struct{}\<close>: a set of permissions.\<close>

type_synonym permission_set = "permission set"

section \<open>Structs\<close>

record user =
  userID :: uuid
  Email :: string
  FirstName :: string
  LastName :: string
  IsSuperuser :: bool
  IsActive :: bool
  EmailVerifiedAt :: "time option"
  userCreatedAt :: time
  userUpdatedAt :: time
  PasswordHash :: string    \<comment> \<open>empty when the column is NULL\<close>

record role =
  roleID :: uuid
  Key :: string
  roleName :: string
  IsSystem :: bool
  rolePermissions :: permission_set
  roleCreatedAt :: time
  roleUpdatedAt :: time

record access =
  Roles :: "role list"
  Permissions :: permission_set
  ViaSuperuser :: bool
  ViaAPIKey :: bool

record user_summary =
  summaryUser :: user
  summaryRoles :: "role list"
  summaryPermissions :: permission_set

record session =
  sessionID :: uuid
  sessionUserID :: uuid
  sessionExpiresAt :: time
  sessionRevokedAt :: "time option"
  sessionUserAgent :: string
  sessionIPAddress :: string    \<comment> \<open>empty when the column is NULL\<close>
  sessionLastUsedAt :: "time option"
  sessionCreatedAt :: time
  sessionTokenHash :: bytes

record invitation =
  invID :: uuid
  invEmail :: string
  invRole :: role
  InvitedBy :: "uuid option"
  invExpiresAt :: time
  AcceptedAt :: "time option"
  invRevokedAt :: "time option"
  invCreatedAt :: time
  invTokenHash :: bytes

record api_key =
  keyID :: uuid
  keyUserID :: uuid
  keyName :: string
  TokenPrefix :: string
  keyPermissions :: permission_set
  keyExpiresAt :: "time option"
  keyLastUsedAt :: "time option"
  keyRevokedAt :: "time option"
  keyCreatedAt :: time

definition IsVerified :: "user \<Rightarrow> bool" where
  "IsVerified u \<longleftrightarrow> EmailVerifiedAt u \<noteq> None"

definition Pending :: "invitation \<Rightarrow> time \<Rightarrow> bool" where
  "Pending i now \<longleftrightarrow> AcceptedAt i = None \<and> invRevokedAt i = None \<and> invExpiresAt i > now"

text \<open>The zero values Go returns beside an error, and \<open>Session{}\<close>.\<close>

definition zero_session :: session where
  "zero_session = \<lparr>sessionID = uuid_Nil, sessionUserID = uuid_Nil, sessionExpiresAt = 0,
     sessionRevokedAt = None, sessionUserAgent = '''', sessionIPAddress = '''',
     sessionLastUsedAt = None, sessionCreatedAt = 0, sessionTokenHash = ''''\<rparr>"

text \<open>The keys of the two system roles.\<close>

definition RoleKeyAdmin :: string where "RoleKeyAdmin = ''admin''"
definition RoleKeyMember :: string where "RoleKeyMember = ''member''"

section \<open>Errors\<close>

text \<open>
  The sentinel errors of the service, and two kinds it does not name: an error of the
  database that no call site translates, and a failing read of the random source.
  \<open>ErrEscalation\<close> carries the permissions the message names, \<open>ErrValidation\<close> its message.
\<close>

datatype pg_error =
    ConnFailure
  | InvalidText                     \<comment> \<open>text that Postgres refuses: bad UTF-8 or a NUL byte\<close>
  | UniqueViolation string          \<comment> \<open>with the name of the constraint\<close>
  | ForeignKeyViolation string
  | AppendOnly                      \<comment> \<open>raised by the trigger on \<open>audit_log\<close>\<close>

datatype error =
    ErrNotFound
  | ErrInvalidCredentials
  | ErrUnauthenticated
  | ErrForbidden
  | ErrEmailTaken
  | ErrInvitationInvalid
  | ErrLastAdmin
  | ErrEscalation "permission list"
  | ErrSystemRole
  | ErrRoleInUse
  | ErrRoleKeyTaken
  | ErrInvalidToken
  | ErrRateLimited
  | ErrMailFailed
  | ErrValidation string
  | ErrSQL pg_error
  | ErrRandom

definition isNotFound :: "error \<Rightarrow> bool" where
  "isNotFound err \<longleftrightarrow> err = ErrNotFound"

abbreviation invalid :: "string \<Rightarrow> error" where
  "invalid msg \<equiv> ErrValidation msg"

text \<open>
  \<open>isUniqueViolation\<close> and \<open>isForeignKeyViolation\<close>. A foreign-key error carries its
  constraint whichever of the two SQLSTATEs (23503 on insert, 23001 on a restricted
  delete) reported it, as the code accepts both.
\<close>

definition isUniqueViolation :: "pg_error \<Rightarrow> string \<Rightarrow> bool" where
  "isUniqueViolation pe constr \<longleftrightarrow> pe = UniqueViolation constr"

definition isForeignKeyViolation :: "pg_error \<Rightarrow> string \<Rightarrow> bool" where
  "isForeignKeyViolation pe constr \<longleftrightarrow> pe = ForeignKeyViolation constr"

section \<open>Rows\<close>

record user_row =
  u_id :: uuid
  u_email :: string
  u_password_hash :: "string option"
  u_first_name :: string
  u_last_name :: string
  u_is_superuser :: bool
  u_is_active :: bool
  u_created_at :: time
  u_updated_at :: time
  u_email_verified_at :: "time option"

record role_row =
  r_id :: uuid
  r_key :: string
  r_name :: string
  r_is_system :: bool
  r_created_at :: time
  r_updated_at :: time

record session_row =
  s_id :: uuid
  s_user_id :: uuid
  s_token_hash :: bytes
  s_expires_at :: time
  s_revoked_at :: "time option"
  s_user_agent :: string
  s_ip_address :: "string option"
  s_last_used_at :: "time option"
  s_created_at :: time

record invitation_row =
  i_id :: uuid
  i_email :: string
  i_token_hash :: bytes
  i_invited_by :: "uuid option"
  i_expires_at :: time
  i_accepted_at :: "time option"
  i_revoked_at :: "time option"
  i_created_at :: time
  i_role_id :: uuid

text \<open>\<open>password_resets\<close> and \<open>email_verifications\<close>.\<close>

record reset_row =
  pr_id :: uuid
  pr_user_id :: uuid
  pr_token_hash :: bytes
  pr_expires_at :: time
  pr_used_at :: "time option"
  pr_created_at :: time
  pr_ip_address :: "string option"
  pr_user_agent :: string

record verification_row =
  ev_id :: uuid
  ev_user_id :: uuid
  ev_email :: string
  ev_token_hash :: bytes
  ev_expires_at :: time
  ev_used_at :: "time option"
  ev_created_at :: time

record api_key_row =
  k_id :: uuid
  k_user_id :: uuid
  k_name :: string
  k_token_hash :: bytes
  k_token_prefix :: string
  k_expires_at :: "time option"
  k_last_used_at :: "time option"
  k_revoked_at :: "time option"
  k_created_at :: time

text \<open>The values of an audit entry's metadata, Go's \<open>map[string]any\<close>.\<close>

datatype json = JStr string | JInt int | JStrs "string list"

type_synonym metadata = "(string \<times> json) list"

record audit_row =
  a_id :: uuid
  a_actor_user_id :: "uuid option"
  a_action :: string
  a_target_type :: string
  a_target_id :: string
  a_metadata :: metadata
  a_created_at :: time
  a_request_id :: string
  a_ip_address :: "string option"
  a_user_agent :: string

record database =
  users :: "user_row list"
  sessions :: "session_row list"
  password_resets :: "reset_row list"
  email_verifications :: "verification_row list"
  invitations :: "invitation_row list"
  permissions :: "(permission \<times> string) list"
  roles :: "role_row list"
  role_permissions :: "(uuid \<times> permission) list"
  user_roles :: "(uuid \<times> uuid) list"
  api_keys :: "api_key_row list"
  api_key_permissions :: "(uuid \<times> permission) list"
  audit_log :: "audit_row list"

text \<open>The primary keys and unique constraints of the schema that later proofs use.\<close>

definition keys_ok :: "database \<Rightarrow> bool" where
  "keys_ok d \<longleftrightarrow>
     distinct (map u_id (users d)) \<and> distinct (map r_id (roles d))
   \<and> distinct (map r_key (roles d)) \<and> distinct (user_roles d)
   \<and> distinct (role_permissions d)
   \<and> distinct (map s_token_hash (sessions d))
   \<and> distinct (map i_id (invitations d)) \<and> distinct (map k_id (api_keys d))
   \<and> distinct (map k_token_hash (api_keys d))"

text \<open>The foreign keys between users, roles and what refers to them.\<close>

definition refs_ok :: "database \<Rightarrow> bool" where
  "refs_ok d \<longleftrightarrow>
     (\<forall>(u, r) \<in> set (user_roles d). u \<in> u_id ` set (users d) \<and> r \<in> r_id ` set (roles d))
   \<and> (\<forall>(r, p) \<in> set (role_permissions d). r \<in> r_id ` set (roles d) \<and> p \<in> fst ` set (permissions d))
   \<and> (\<forall>s \<in> set (sessions d). s_user_id s \<in> u_id ` set (users d))
   \<and> (\<forall>i \<in> set (invitations d). i_role_id i \<in> r_id ` set (roles d))
   \<and> (\<forall>k \<in> set (api_keys d). k_user_id k \<in> u_id ` set (users d))"

end
