(* ===== verification/Database.thy ===== *)
theory Database
  imports Mail Rate_Limit Models
begin

text \<open>
  The world the operations run in, and \<open>internal/database/postgres.go\<close>.

  An operation is a function from the world to a result and the next world: an error on
  the left, Go's value on the right. The world is the database, the emails handed to the
  mailer, the rate limiter of the server (absent when disabled), and three counters that number the SQL statements, the random reads and the
  sends made so far. Everything outside \<open>src/\<close> is a field of the environment, read
  through those counters: the clocks, \<open>uuidv7()\<close>, the random source, SHA-256, argon2,
  the parsers of \<open>net/mail\<close> and \<open>net/netip\<close>, Postgres' text and collation rules, and
  \<open>fault\<close>, which says which statements fail for want of a connection.
\<close>

section \<open>The environment\<close>

text \<open>\<open>audit.RequestMeta\<close>, which the Go code carries in the request's context.\<close>

record request_meta =
  RequestID :: string
  metaIPAddress :: string
  metaUserAgent :: string
  APIKeyID :: "uuid option"

record env =
  go_now :: time                              \<comment> \<open>\<open>time.Now()\<close>\<close>
  sql_now :: time                             \<comment> \<open>\<open>now()\<close> of the database\<close>
  fault :: "nat \<Rightarrow> bool"                       \<comment> \<open>the n-th statement fails\<close>
  uuidv7 :: "nat \<Rightarrow> uuid"                      \<comment> \<open>\<open>uuidv7()\<close> drawn by the n-th statement\<close>
  rand_read :: "nat \<Rightarrow> nat \<Rightarrow> bytes option"     \<comment> \<open>the n-th \<open>rand.Read\<close>, of so many bytes\<close>
  sha256 :: "bytes \<Rightarrow> bytes"
  argon2_IDKey :: "bytes \<Rightarrow> bytes \<Rightarrow> 32 word \<Rightarrow> 32 word \<Rightarrow> 8 word \<Rightarrow> nat \<Rightarrow> bytes"
  ParseAddress :: "string \<Rightarrow> string option"    \<comment> \<open>the \<open>Address\<close> that \<open>net/mail\<close> finds\<close>
  ParseAddr :: "string \<Rightarrow> string option"       \<comment> \<open>\<open>net/netip\<close>, as text\<close>
  uuid_String :: "uuid \<Rightarrow> string"
  ulower :: "string \<Rightarrow> string"                 \<comment> \<open>Unicode \<open>ToLower\<close> and \<open>TrimSpace\<close>\<close>
  uspace :: "string \<Rightarrow> string"
  uquote :: "string \<Rightarrow> string"                 \<comment> \<open>\<open>strconv.Quote\<close> outside printable ASCII\<close>
  uuid_Parse :: "string \<Rightarrow> uuid option"        \<comment> \<open>the \<open>google/uuid\<close> package\<close>
  time_Parse :: "string \<Rightarrow> time option"        \<comment> \<open>\<open>time.Parse\<close> of RFC 3339\<close>
  pg_text_ok :: "string \<Rightarrow> bool"               \<comment> \<open>Postgres takes it as text\<close>
  pg_json_ok :: "metadata \<Rightarrow> bool"             \<comment> \<open>\<open>json.Marshal\<close> and jsonb take it\<close>
  pg_lower :: "string \<Rightarrow> string"               \<comment> \<open>citext compares these\<close>
  pg_collate :: "string \<Rightarrow> string"             \<comment> \<open>the sort key of a text column\<close>
  SendMail :: "nat \<Rightarrow> string \<Rightarrow> string \<Rightarrow> string \<Rightarrow> string \<Rightarrow> bool"
  req_meta :: request_meta
  auth_cfg :: auth_settings
  mail_cfg :: mail_settings
  the_mailer :: mailer

definition citext_eq :: "env \<Rightarrow> string \<Rightarrow> string \<Rightarrow> bool" where
  "citext_eq e s t \<longleftrightarrow> pg_lower e s = pg_lower e t"

record world =
  db :: database
  outbox :: "message list"    \<comment> \<open>mails printed or delivered, newest first\<close>
  limits :: "limiter option"
  steps :: nat
  reads :: nat
  sends :: nat

section \<open>Operations\<close>

type_synonym 'a op = "world \<Rightarrow> (error + 'a) \<times> world"

definition return_op :: "'a \<Rightarrow> 'a op" where
  "return_op a = (\<lambda>w. (Inr a, w))"

definition fail_op :: "error \<Rightarrow> 'a op" where
  "fail_op err = (\<lambda>w. (Inl err, w))"

text \<open>\<open>x, err := m; if err != nil { return err }; k x\<close>.\<close>

definition bind_op :: "'a op \<Rightarrow> ('a \<Rightarrow> 'b op) \<Rightarrow> 'b op" where
  "bind_op m k = (\<lambda>w. case m w of (Inl err, w') \<Rightarrow> (Inl err, w') | (Inr a, w') \<Rightarrow> k a w')"

abbreviation then_op :: "'a op \<Rightarrow> 'b op \<Rightarrow> 'b op" where
  "then_op m k \<equiv> bind_op m (\<lambda>_. k)"

text \<open>A call whose error the caller inspects instead of returning it.\<close>

definition attempt :: "'a op \<Rightarrow> (error + 'a) op" where
  "attempt m = (\<lambda>w. case m w of (r, w') \<Rightarrow> (Inr r, w'))"

definition lift_op :: "error + 'a \<Rightarrow> 'a op" where
  "lift_op r = (\<lambda>w. (r, w))"

text \<open>\<open>if cond { return err }\<close>.\<close>

definition refuse_if :: "bool \<Rightarrow> error \<Rightarrow> unit op" where
  "refuse_if b err = (if b then fail_op err else return_op ())"

fun for_each :: "('a \<Rightarrow> unit op) \<Rightarrow> 'a list \<Rightarrow> unit op" where
  "for_each f [] = return_op ()"
| "for_each f (x # xs) = then_op (f x) (for_each f xs)"

section \<open>SQL statements\<close>

text \<open>
  A statement reads and writes the whole database or violates a constraint; it draws a
  fresh id for the row it may insert. \<open>query e texts st onerr\<close> runs it: a lost connection
  or a text argument that Postgres refuses is an error as well, and \<open>onerr\<close> is what the
  call site makes of an error.
\<close>

type_synonym 'a stmt = "uuid \<Rightarrow> database \<Rightarrow> pg_error + ('a \<times> database)"

definition query :: "env \<Rightarrow> string list \<Rightarrow> 'a stmt \<Rightarrow> (pg_error \<Rightarrow> error) \<Rightarrow> 'a op" where
  "query e texts st onerr = (\<lambda>w.
     (let n = steps w; w1 = w\<lparr>steps := Suc n\<rparr> in
      if fault e n then (Inl (onerr ConnFailure), w1)
      else if \<not> list_all (pg_text_ok e) texts then (Inl (onerr InvalidText), w1)
      else (case st (uuidv7 e n) (db w) of
              Inl pe \<Rightarrow> (Inl (onerr pe), w1)
            | Inr (a, d') \<Rightarrow> (Inr a, w1\<lparr>db := d'\<rparr>))))"

text \<open>A \<open>SELECT\<close>, and an \<open>UPDATE\<close> or \<open>DELETE\<close> that can violate nothing.\<close>

definition select :: "env \<Rightarrow> string list \<Rightarrow> (database \<Rightarrow> 'a) \<Rightarrow> 'a op" where
  "select e texts f = query e texts (\<lambda>_ d. Inr (f d, d)) ErrSQL"

definition exec :: "env \<Rightarrow> string list \<Rightarrow> (database \<Rightarrow> 'a \<times> database) \<Rightarrow> 'a op" where
  "exec e texts f = query e texts (\<lambda>_ d. Inr (f d)) ErrSQL"

text \<open>
  \<open>InTx\<close>: begin, run, commit. When the body fails, or the commit does, the database is
  what it was before; the counters and the outbox are outside the transaction.
\<close>

definition tick :: "world \<Rightarrow> world" where
  "tick w = w\<lparr>steps := Suc (steps w)\<rparr>"

definition InTx :: "env \<Rightarrow> 'a op \<Rightarrow> 'a op" where
  "InTx e fn = (\<lambda>w.
     if fault e (steps w) then (Inl (ErrSQL ConnFailure), tick w)
     else (case fn (tick w) of
             (Inl err, w1) \<Rightarrow> (Inl err, w1\<lparr>db := db w\<rparr>)
           | (Inr a, w1) \<Rightarrow>
               if fault e (steps w1) then (Inl (ErrSQL ConnFailure), (tick w1)\<lparr>db := db w\<rparr>)
               else (Inr a, tick w1)))"

section \<open>Sending mail\<close>

definition Send :: "env \<Rightarrow> message \<Rightarrow> world \<Rightarrow> mail_error option \<times> world" where
  "Send e msg w =
    (let r = mailer_Send (SendMail e (sends w)) (the_mailer e) msg;
         w1 = w\<lparr>sends := Suc (sends w)\<rparr>
     in (r, if r = None then w1\<lparr>outbox := msg # outbox w\<rparr> else w1))"

section \<open>Following a run\<close>

lemma return_op_run [simp]: "return_op a w = (Inr a, w)"
  by (simp add: return_op_def)

lemma fail_op_run [simp]: "fail_op err w = (Inl err, w)"
  by (simp add: fail_op_def)

lemma lift_op_run [simp]: "lift_op r w = (r, w)"
  by (simp add: lift_op_def)

lemma refuse_if_run [simp]: "refuse_if b err w = (if b then Inl err else Inr (), w)"
  by (simp add: refuse_if_def)

lemma refuse_if_simps [simp]:
  "refuse_if True err = fail_op err" "refuse_if False err = return_op ()"
  by (simp_all add: refuse_if_def)

lemma bind_op_Inr_iff:
  "bind_op m k w = (Inr b, w') \<longleftrightarrow> (\<exists>a w1. m w = (Inr a, w1) \<and> k a w1 = (Inr b, w'))"
  by (auto simp: bind_op_def split: prod.splits sum.splits)

lemma bind_op_Inl_iff:
  "bind_op m k w = (Inl err, w') \<longleftrightarrow>
     m w = (Inl err, w') \<or> (\<exists>a w1. m w = (Inr a, w1) \<and> k a w1 = (Inl err, w'))"
  by (auto simp: bind_op_def split: prod.splits sum.splits)

lemma bind_op_step:
  "m w = (Inr a, w1) \<Longrightarrow> bind_op m k w = k a w1"
  "m w = (Inl err, w1) \<Longrightarrow> bind_op m k w = (Inl err, w1)"
  by (simp_all add: bind_op_def)

lemma bind_op_simps [simp]:
  "bind_op (return_op a) k = k a" "bind_op (fail_op err) k = fail_op err"
  by (simp_all add: bind_op_def fun_eq_iff)

lemma bind_op_assoc: "bind_op (bind_op m f) g = bind_op m (\<lambda>a. bind_op (f a) g)"
  by (simp add: bind_op_def fun_eq_iff split: prod.split sum.split)

lemma attempt_iff: "attempt m w = (r, w') \<longleftrightarrow> (\<exists>x. m w = (x, w') \<and> r = Inr x)"
  by (auto simp: attempt_def split: prod.splits)

lemma query_Inr_iff:
  "query e ts st onerr w = (Inr a, w') \<longleftrightarrow>
     \<not> fault e (steps w) \<and> list_all (pg_text_ok e) ts
   \<and> (\<exists>d'. st (uuidv7 e (steps w)) (db w) = Inr (a, d')
        \<and> w' = w\<lparr>steps := Suc (steps w), db := d'\<rparr>)"
  by (auto simp: query_def Let_def split: sum.splits)

lemma select_Inr_iff:
  "select e ts f w = (Inr a, w') \<longleftrightarrow>
     \<not> fault e (steps w) \<and> list_all (pg_text_ok e) ts \<and> a = f (db w) \<and> w' = tick w"
  by (auto simp: select_def query_Inr_iff tick_def)

lemma exec_Inr_iff:
  "exec e ts f w = (Inr a, w') \<longleftrightarrow>
     \<not> fault e (steps w) \<and> list_all (pg_text_ok e) ts \<and> a = fst (f (db w))
   \<and> w' = (tick w)\<lparr>db := snd (f (db w))\<rparr>"
  by (auto simp: exec_def query_Inr_iff tick_def) (metis fst_conv snd_conv surj_pair)+

lemma InTx_Inr_iff:
  "InTx e fn w = (Inr a, w') \<longleftrightarrow>
     \<not> fault e (steps w)
   \<and> (\<exists>w1. fn (tick w) = (Inr a, w1) \<and> \<not> fault e (steps w1) \<and> w' = tick w1)"
  by (auto simp: InTx_def split: prod.splits sum.splits)

text \<open>All or nothing: a failed transaction leaves the database as it was.\<close>

lemma InTx_Inl_db: "InTx e fn w = (Inl err, w') \<Longrightarrow> db w' = db w"
  by (auto simp: InTx_def tick_def split: if_splits prod.splits sum.splits)

lemma tick_simps [simp]:
  "db (tick w) = db w" "outbox (tick w) = outbox w" "limits (tick w) = limits w" "steps (tick w) = Suc (steps w)"
  "reads (tick w) = reads w" "sends (tick w) = sends w"
  by (simp_all add: tick_def)

lemma Send_db [simp]: "Send e msg w = (r, w') \<Longrightarrow> db w' = db w"
  by (auto simp: Send_def Let_def split: if_splits)

lemmas run_iffs = bind_op_Inr_iff query_Inr_iff select_Inr_iff exec_Inr_iff InTx_Inr_iff

lemma for_each_db:
  assumes "\<And>x w w'. f x w = (Inr (), w') \<Longrightarrow> db w' = g x (db w)"
  shows "for_each f xs w = (Inr (), w') \<Longrightarrow> db w' = fold g xs (db w)"
proof (induction xs arbitrary: w)
  case (Cons x xs)
  from Cons.prems obtain w1 where "f x w = (Inr (), w1)" "for_each f xs w1 = (Inr (), w')"
    by (auto simp: bind_op_Inr_iff)
  with assms Cons.IH show ?case by simp
qed simp

text \<open>With no lost connection every statement runs; then a call computes.\<close>

definition quiet :: "env \<Rightarrow> bool" where
  "quiet e \<longleftrightarrow> (\<forall>n. \<not> fault e n) \<and> (\<forall>s. pg_text_ok e s) \<and> (\<forall>m. pg_json_ok e m)"

lemma quietD [simp]:
  "quiet e \<Longrightarrow> \<not> fault e n" "quiet e \<Longrightarrow> pg_text_ok e s" "quiet e \<Longrightarrow> pg_json_ok e m"
  by (simp_all add: quiet_def)

lemma list_all_quiet [simp]: "quiet e \<Longrightarrow> list_all (pg_text_ok e) ts"
  by (simp add: list_all_iff)

lemma query_quiet [simp]:
  "quiet e \<Longrightarrow> query e ts st onerr w =
     (case st (uuidv7 e (steps w)) (db w) of
        Inl pe \<Rightarrow> (Inl (onerr pe), tick w)
      | Inr (a, d') \<Rightarrow> (Inr a, (tick w)\<lparr>db := d'\<rparr>))"
  by (simp add: query_def Let_def tick_def split: sum.split prod.split)

lemma select_quiet [simp]: "quiet e \<Longrightarrow> select e ts f w = (Inr (f (db w)), tick w)"
  by (simp add: select_def)

lemma exec_quiet [simp]:
  "quiet e \<Longrightarrow> exec e ts f w = (Inr (fst (f (db w))), (tick w)\<lparr>db := snd (f (db w))\<rparr>)"
  by (simp add: exec_def split: prod.split)

lemma InTx_quiet:
  "quiet e \<Longrightarrow> InTx e fn w =
     (case fn (tick w) of
        (Inl err, w1) \<Rightarrow> (Inl err, w1\<lparr>db := db w\<rparr>)
      | (Inr a, w1) \<Rightarrow> (Inr a, tick w1))"
  by (simp add: InTx_def split: prod.split sum.split)

section \<open>What an operation may do to the database\<close>

text \<open>
  \<open>obeys R m\<close>: whatever \<open>m\<close> returns, the database after it is related to the one
  before. For a reflexive and transitive \<open>R\<close> this composes along the code's own
  structure; the interface below is proved once for every such \<open>R\<close>.
\<close>

definition obeys :: "(database \<Rightarrow> database \<Rightarrow> bool) \<Rightarrow> 'a op \<Rightarrow> bool" where
  "obeys R m \<longleftrightarrow> (\<forall>w r w'. m w = (r, w') \<longrightarrow> R (db w) (db w'))"

lemma obeysD: "obeys R m \<Longrightarrow> m w = (r, w') \<Longrightarrow> R (db w) (db w')"
  by (auto simp: obeys_def)

lemma obeys_mono: "obeys R m \<Longrightarrow> (\<And>d d'. R d d' \<Longrightarrow> S d d') \<Longrightarrow> obeys S m"
  by (auto simp: obeys_def)

locale db_relation =
  fixes R :: "database \<Rightarrow> database \<Rightarrow> bool"
  assumes rel_refl: "R d d"
    and rel_trans: "R d d' \<Longrightarrow> R d' d'' \<Longrightarrow> R d d''"
begin

lemma obeys_return [obeys_intros]: "obeys R (return_op a)"
  by (simp add: obeys_def rel_refl)

lemma obeys_fail [obeys_intros]: "obeys R (fail_op err)"
  by (simp add: obeys_def rel_refl)

lemma obeys_lift [obeys_intros]: "obeys R (lift_op r)"
  by (simp add: obeys_def rel_refl)

lemma obeys_refuse [obeys_intros]: "obeys R (refuse_if b err)"
  by (simp add: obeys_def rel_refl)

lemma obeys_bind [obeys_intros]:
  assumes "obeys R m" "\<And>a. obeys R (k a)"
  shows "obeys R (bind_op m k)"
  unfolding obeys_def
proof (intro allI impI)
  fix w r w'
  assume run: "bind_op m k w = (r, w')"
  show "R (db w) (db w')"
  proof (cases "m w")
    case (Pair x w1)
    from assms(1) Pair have m: "R (db w) (db w1)" by (rule obeysD)
    show ?thesis
    proof (cases x)
      case (Inl err)
      with run Pair m show ?thesis by (simp add: bind_op_def)
    next
      case (Inr a)
      with run Pair have "k a w1 = (r, w')" by (simp add: bind_op_def)
      with assms(2) have "R (db w1) (db w')" by (rule obeysD)
      with m show ?thesis by (rule rel_trans)
    qed
  qed
qed

lemma obeys_attempt [obeys_intros]: "obeys R m \<Longrightarrow> obeys R (attempt m)"
  by (auto simp: obeys_def attempt_iff)

lemma obeys_for_each [obeys_intros]:
  "(\<And>x. x \<in> set xs \<Longrightarrow> obeys R (f x)) \<Longrightarrow> obeys R (for_each f xs)"
  by (induction xs) (auto intro: obeys_return obeys_bind)

lemma obeys_query [obeys_intros]:
  "(\<And>u d a d'. st u d = Inr (a, d') \<Longrightarrow> R d d') \<Longrightarrow> obeys R (query e ts st onerr)"
  by (auto simp: obeys_def query_def Let_def rel_refl split: if_splits sum.splits)

lemma obeys_select [obeys_intros]: "obeys R (select e ts f)"
  by (auto simp: select_def intro!: obeys_query rel_refl)

lemma obeys_exec [obeys_intros]: "(\<And>d. R d (snd (f d))) \<Longrightarrow> obeys R (exec e ts f)"
  by (auto simp: exec_def intro!: obeys_query) (metis snd_conv)

lemma obeys_InTx [obeys_intros]:
  assumes "obeys R fn" shows "obeys R (InTx e fn)"
  unfolding obeys_def
proof (intro allI impI)
  fix w r w'
  assume run: "InTx e fn w = (r, w')"
  show "R (db w) (db w')"
  proof (cases r)
    case (Inl err)
    with run have "db w' = db w" by (simp add: InTx_Inl_db)
    then show ?thesis by (simp add: rel_refl)
  next
    case (Inr a)
    with run obtain w1 where "fn (tick w) = (Inr a, w1)" "w' = tick w1"
      by (auto simp: InTx_Inr_iff)
    with assms show ?thesis by (auto dest: obeysD)
  qed
qed

lemma obeys_lift_bind:
  "(\<And>a. r = Inr a \<Longrightarrow> obeys R (k a)) \<Longrightarrow> obeys R (bind_op (lift_op r) k)"
  by (cases r) (auto simp: obeys_def bind_op_def rel_refl)

text \<open>The case distinctions between the steps.\<close>

lemma obeys_if [obeys_intros]:
  "(b \<Longrightarrow> obeys R m) \<Longrightarrow> (\<not> b \<Longrightarrow> obeys R n) \<Longrightarrow> obeys R (if b then m else n)"
  by simp

lemma obeys_option [obeys_intros]:
  "(x = None \<Longrightarrow> obeys R m) \<Longrightarrow> (\<And>y. x = Some y \<Longrightarrow> obeys R (k y)) \<Longrightarrow>
   obeys R (case x of None \<Rightarrow> m | Some y \<Rightarrow> k y)"
  by (cases x) auto

lemma obeys_sum [obeys_intros]:
  "(\<And>y. x = Inl y \<Longrightarrow> obeys R (m y)) \<Longrightarrow> (\<And>y. x = Inr y \<Longrightarrow> obeys R (k y)) \<Longrightarrow>
   obeys R (case x of Inl y \<Rightarrow> m y | Inr y \<Rightarrow> k y)"
  by (cases x) auto

lemma obeys_prod [obeys_intros]:
  "(\<And>a b. x = (a, b) \<Longrightarrow> obeys R (k a b)) \<Longrightarrow> obeys R (case x of (a, b) \<Rightarrow> k a b)"
  by (cases x) auto

lemma obeys_list [obeys_intros]:
  "(x = [] \<Longrightarrow> obeys R m) \<Longrightarrow> (\<And>y ys. x = y # ys \<Longrightarrow> obeys R (k y ys)) \<Longrightarrow>
   obeys R (case x of [] \<Rightarrow> m | y # ys \<Rightarrow> k y ys)"
  by (cases x) auto

lemma obeys_let [obeys_intros]: "obeys R (k a) \<Longrightarrow> obeys R (let x = a in k x)"
  by (simp add: Let_def)

text \<open>Of a transaction only a successful run counts.\<close>

lemma obeys_InTx_success:
  assumes "\<And>w a w'. fn w = (Inr a, w') \<Longrightarrow> R (db w) (db w')"
  shows "obeys R (InTx e fn)"
  unfolding obeys_def
proof (intro allI impI)
  fix w r w'
  assume run: "InTx e fn w = (r, w')"
  show "R (db w) (db w')"
  proof (cases r)
    case (Inl err)
    with run have "db w' = db w" by (simp add: InTx_Inl_db)
    then show ?thesis by (simp add: rel_refl)
  next
    case (Inr a)
    with run obtain w1 where "fn (tick w) = (Inr a, w1)" "w' = tick w1"
      by (auto simp: InTx_Inr_iff)
    with assms show ?thesis by fastforce
  qed
qed

end

text \<open>
  Reading operations leave the database as it is, so what they returned is still true of
  it at the next step.
\<close>

interpretation reading: db_relation "(=)"
  by unfold_locales auto

definition obeys_from :: "database \<Rightarrow> (database \<Rightarrow> database \<Rightarrow> bool) \<Rightarrow> 'a op \<Rightarrow> bool" where
  "obeys_from d R m \<longleftrightarrow> (\<forall>w r w'. db w = d \<longrightarrow> m w = (r, w') \<longrightarrow> R d (db w'))"

lemma obeys_iff_from: "obeys R m \<longleftrightarrow> (\<forall>d. obeys_from d R m)"
  by (auto simp: obeys_def obeys_from_def)

lemma from_read:
  assumes "obeys (=) m" "R d d"
    and "\<And>w a w1. db w = d \<Longrightarrow> m w = (Inr a, w1) \<Longrightarrow> obeys_from d R (k a)"
  shows "obeys_from d R (bind_op m k)"
  unfolding obeys_from_def
proof (intro allI impI)
  fix w r w'
  assume w: "db w = d" and run: "bind_op m k w = (r, w')"
  obtain x w1 where m: "m w = (x, w1)" by fastforce
  with assms(1) have same: "db w1 = d" using w by (auto dest: obeysD)
  show "R d (db w')"
  proof (cases x)
    case (Inl err)
    with run m same assms(2) show ?thesis by (simp add: bind_op_def)
  next
    case (Inr a)
    with assms(3) w m have "obeys_from d R (k a)" by blast
    with run m same Inr show ?thesis by (auto simp: bind_op_def obeys_from_def)
  qed
qed

context db_relation begin

lemma from_get:
  assumes "obeys (=) m" "\<And>w a w1. db w = d \<Longrightarrow> m w = (Inr a, w1) \<Longrightarrow> obeys_from d R (k a)"
  shows "obeys_from d R (bind_op m k)"
  using assms(1) rel_refl assms(2) by (rule from_read)

lemma from_lift:
  "(\<And>a. r = Inr a \<Longrightarrow> obeys_from d R (k a)) \<Longrightarrow> obeys_from d R (bind_op (lift_op r) k)"
  by (cases r) (auto simp: obeys_from_def bind_op_def rel_refl)

lemma from_skip:
  "obeys (=) m \<Longrightarrow> (\<And>a. obeys_from d R (k a)) \<Longrightarrow> obeys_from d R (bind_op m k)"
  by (rule from_get)

lemma from_prod:
  "(\<And>a b. x = (a, b) \<Longrightarrow> obeys_from d R (k a b)) \<Longrightarrow> obeys_from d R (case x of (a, b) \<Rightarrow> k a b)"
  by (cases x) auto

lemma from_bind:
  assumes "obeys_from d R m" "\<And>a. obeys R (k a)"
  shows "obeys_from d R (bind_op m k)"
  unfolding obeys_from_def
proof (intro allI impI)
  fix w r w'
  assume w: "db w = d" and run: "bind_op m k w = (r, w')"
  obtain x w1 where m: "m w = (x, w1)" by fastforce
  with assms(1) w have first: "R d (db w1)" by (simp add: obeys_from_def)
  show "R d (db w')"
  proof (cases x)
    case (Inl err)
    with run m first show ?thesis by (simp add: bind_op_def)
  next
    case (Inr a)
    with run m have "k a w1 = (r, w')" by (simp add: bind_op_def)
    with assms(2) have "R (db w1) (db w')" by (rule obeysD)
    with first show ?thesis by (rule rel_trans)
  qed
qed

end

lemma from_obeys: "obeys R m \<Longrightarrow> obeys_from d R m"
  by (simp add: obeys_iff_from)

lemma from_InTx:
  assumes "R d d"
    and "\<And>w a w'. db w = d \<Longrightarrow> fn w = (Inr a, w') \<Longrightarrow> R d (db w')"
  shows "obeys_from d R (InTx e fn)"
  unfolding obeys_from_def
proof (intro allI impI)
  fix w r w'
  assume w: "db w = d" and run: "InTx e fn w = (r, w')"
  show "R d (db w')"
  proof (cases r)
    case (Inl err)
    with run assms(1) w show ?thesis by (simp add: InTx_Inl_db)
  next
    case (Inr a)
    with run obtain w1 where "fn (tick w) = (Inr a, w1)" "w' = tick w1"
      by (auto simp: InTx_Inr_iff)
    with assms(2) [of "tick w"] w show ?thesis by simp
  qed
qed

text \<open>\<open>atomic_op m\<close>: when \<open>m\<close> fails, the database is what it was.\<close>

definition atomic_op :: "'a op \<Rightarrow> bool" where
  "atomic_op m \<longleftrightarrow> (\<forall>w err w'. m w = (Inl err, w') \<longrightarrow> db w' = db w)"

definition infallible :: "'a op \<Rightarrow> bool" where
  "infallible m \<longleftrightarrow> (\<forall>w err w'. m w \<noteq> (Inl err, w'))"

lemma infallible_return [atomic_intros]: "infallible (return_op a)"
  by (simp add: infallible_def)

lemma infallible_attempt [atomic_intros]: "infallible (attempt m)"
  by (auto simp: infallible_def attempt_iff)

lemma infallible_bind [atomic_intros]:
  "infallible m \<Longrightarrow> (\<And>a. infallible (k a)) \<Longrightarrow> infallible (bind_op m k)"
  by (auto simp: infallible_def bind_op_Inl_iff)

lemma atomic_read: "obeys (=) m \<Longrightarrow> atomic_op m"
  by (auto simp: atomic_op_def dest: obeysD)

lemma atomic_InTx [atomic_intros]: "atomic_op (InTx e fn)"
  by (auto simp: atomic_op_def InTx_Inl_db)

lemma atomic_read_bind:
  "obeys (=) m \<Longrightarrow> (\<And>a. atomic_op (k a)) \<Longrightarrow> atomic_op (bind_op m k)"
proof -
  assume m: "obeys (=) m" and k: "\<And>a. atomic_op (k a)"
  have "db w' = db w" if run: "bind_op m k w = (Inl err, w')" for w err w'
    using run unfolding bind_op_Inl_iff
  proof (elim disjE exE conjE)
    assume "m w = (Inl err, w')"
    with m show ?thesis by (auto dest: obeysD)
  next
    fix a w1 assume "m w = (Inr a, w1)" "k a w1 = (Inl err, w')"
    with m k [of a] show ?thesis by (auto simp: atomic_op_def dest: obeysD)
  qed
  then show ?thesis by (simp add: atomic_op_def)
qed

lemma atomic_bind_infallible:
  "atomic_op m \<Longrightarrow> (\<And>a. infallible (k a)) \<Longrightarrow> atomic_op (bind_op m k)"
  by (auto simp: atomic_op_def infallible_def bind_op_Inl_iff)

context db_relation begin

lemma obeys_success:
  assumes "atomic_op m" "\<And>w a w'. m w = (Inr a, w') \<Longrightarrow> R (db w) (db w')"
  shows "obeys R m"
  unfolding obeys_def
proof (intro allI impI)
  fix w r w'
  assume "m w = (r, w')"
  with assms show "R (db w) (db w')"
    by (cases r) (auto simp: atomic_op_def rel_refl dest: sym)
qed

end

text \<open>The footprint of an operation: the tables it may write.\<close>

datatype table = TUsers | TSessions | TResets | TVerifications | TInvitations
  | TPermissions | TRoles | TRolePermissions | TUserRoles | TApiKeys
  | TApiKeyPermissions | TAudit

definition empty_db :: database where
  "empty_db = \<lparr>users = [], sessions = [], password_resets = [], email_verifications = [], invitations = [], permissions = [], roles = [], role_permissions = [], user_roles = [], api_keys = [], api_key_permissions = [], audit_log = []\<rparr>"

primrec only_table :: "table \<Rightarrow> database \<Rightarrow> database" where
  "only_table TUsers d = empty_db\<lparr>users := users d\<rparr>"
| "only_table TSessions d = empty_db\<lparr>sessions := sessions d\<rparr>"
| "only_table TResets d = empty_db\<lparr>password_resets := password_resets d\<rparr>"
| "only_table TVerifications d = empty_db\<lparr>email_verifications := email_verifications d\<rparr>"
| "only_table TInvitations d = empty_db\<lparr>invitations := invitations d\<rparr>"
| "only_table TPermissions d = empty_db\<lparr>permissions := permissions d\<rparr>"
| "only_table TRoles d = empty_db\<lparr>roles := roles d\<rparr>"
| "only_table TRolePermissions d = empty_db\<lparr>role_permissions := role_permissions d\<rparr>"
| "only_table TUserRoles d = empty_db\<lparr>user_roles := user_roles d\<rparr>"
| "only_table TApiKeys d = empty_db\<lparr>api_keys := api_keys d\<rparr>"
| "only_table TApiKeyPermissions d = empty_db\<lparr>api_key_permissions := api_key_permissions d\<rparr>"
| "only_table TAudit d = empty_db\<lparr>audit_log := audit_log d\<rparr>"

definition changes_only :: "table set \<Rightarrow> database \<Rightarrow> database \<Rightarrow> bool" where
  "changes_only ts d d' \<longleftrightarrow> (\<forall>t. t \<notin> ts \<longrightarrow> only_table t d' = only_table t d)"

interpretation frame: db_relation "changes_only ts" for ts
  by unfold_locales (auto simp: changes_only_def)

lemma changes_only_mono: "changes_only ts d d' \<Longrightarrow> ts \<subseteq> ts' \<Longrightarrow> changes_only ts' d d'"
  by (auto simp: changes_only_def)

lemma same_table:
  "only_table TUsers d' = only_table TUsers d \<longleftrightarrow> users d' = users d"
  "only_table TSessions d' = only_table TSessions d \<longleftrightarrow> sessions d' = sessions d"
  "only_table TResets d' = only_table TResets d \<longleftrightarrow> password_resets d' = password_resets d"
  "only_table TVerifications d' = only_table TVerifications d \<longleftrightarrow> email_verifications d' = email_verifications d"
  "only_table TInvitations d' = only_table TInvitations d \<longleftrightarrow> invitations d' = invitations d"
  "only_table TPermissions d' = only_table TPermissions d \<longleftrightarrow> permissions d' = permissions d"
  "only_table TRoles d' = only_table TRoles d \<longleftrightarrow> roles d' = roles d"
  "only_table TRolePermissions d' = only_table TRolePermissions d \<longleftrightarrow> role_permissions d' = role_permissions d"
  "only_table TUserRoles d' = only_table TUserRoles d \<longleftrightarrow> user_roles d' = user_roles d"
  "only_table TApiKeys d' = only_table TApiKeys d \<longleftrightarrow> api_keys d' = api_keys d"
  "only_table TApiKeyPermissions d' = only_table TApiKeyPermissions d \<longleftrightarrow> api_key_permissions d' = api_key_permissions d"
  "only_table TAudit d' = only_table TAudit d \<longleftrightarrow> audit_log d' = audit_log d"
  by (simp_all add: empty_db_def)

lemma changes_onlyD:
  "changes_only ts d d' \<Longrightarrow> TUsers \<notin> ts \<Longrightarrow> users d' = users d"
  "changes_only ts d d' \<Longrightarrow> TSessions \<notin> ts \<Longrightarrow> sessions d' = sessions d"
  "changes_only ts d d' \<Longrightarrow> TResets \<notin> ts \<Longrightarrow> password_resets d' = password_resets d"
  "changes_only ts d d' \<Longrightarrow> TVerifications \<notin> ts \<Longrightarrow> email_verifications d' = email_verifications d"
  "changes_only ts d d' \<Longrightarrow> TInvitations \<notin> ts \<Longrightarrow> invitations d' = invitations d"
  "changes_only ts d d' \<Longrightarrow> TPermissions \<notin> ts \<Longrightarrow> permissions d' = permissions d"
  "changes_only ts d d' \<Longrightarrow> TRoles \<notin> ts \<Longrightarrow> roles d' = roles d"
  "changes_only ts d d' \<Longrightarrow> TRolePermissions \<notin> ts \<Longrightarrow> role_permissions d' = role_permissions d"
  "changes_only ts d d' \<Longrightarrow> TUserRoles \<notin> ts \<Longrightarrow> user_roles d' = user_roles d"
  "changes_only ts d d' \<Longrightarrow> TApiKeys \<notin> ts \<Longrightarrow> api_keys d' = api_keys d"
  "changes_only ts d d' \<Longrightarrow> TApiKeyPermissions \<notin> ts \<Longrightarrow> api_key_permissions d' = api_key_permissions d"
  "changes_only ts d d' \<Longrightarrow> TAudit \<notin> ts \<Longrightarrow> audit_log d' = audit_log d"
  by (metis changes_only_def same_table)+

lemma changes_onlyI:
  assumes "TUsers \<notin> ts \<Longrightarrow> users d' = users d"
    and "TSessions \<notin> ts \<Longrightarrow> sessions d' = sessions d"
    and "TResets \<notin> ts \<Longrightarrow> password_resets d' = password_resets d"
    and "TVerifications \<notin> ts \<Longrightarrow> email_verifications d' = email_verifications d"
    and "TInvitations \<notin> ts \<Longrightarrow> invitations d' = invitations d"
    and "TPermissions \<notin> ts \<Longrightarrow> permissions d' = permissions d"
    and "TRoles \<notin> ts \<Longrightarrow> roles d' = roles d"
    and "TRolePermissions \<notin> ts \<Longrightarrow> role_permissions d' = role_permissions d"
    and "TUserRoles \<notin> ts \<Longrightarrow> user_roles d' = user_roles d"
    and "TApiKeys \<notin> ts \<Longrightarrow> api_keys d' = api_keys d"
    and "TApiKeyPermissions \<notin> ts \<Longrightarrow> api_key_permissions d' = api_key_permissions d"
    and "TAudit \<notin> ts \<Longrightarrow> audit_log d' = audit_log d"
  shows "changes_only ts d d'"
  unfolding changes_only_def
proof (intro allI impI)
  fix t assume "t \<notin> ts"
  with assms show "only_table t d' = only_table t d" by (cases t) simp_all
qed

text \<open>The audit log only grows, and the operations below never touch an old entry.\<close>

definition audit_grows :: "database \<Rightarrow> database \<Rightarrow> bool" where
  "audit_grows d d' \<longleftrightarrow> (\<exists>new. audit_log d' = new @ audit_log d)"

interpretation grow: db_relation audit_grows
  by unfold_locales (auto simp: audit_grows_def intro: exI [of _ "[]"])

lemma changes_only_audit_grows:
  "changes_only ts d d' \<Longrightarrow> TAudit \<notin> ts \<Longrightarrow> audit_grows d d'"
  by (simp add: audit_grows_def changes_onlyD(12))

end
