(* ===== verification/Laws.thy ===== *)
theory Laws
  imports Database
begin

text \<open>
  What no HTTP request may do to the database, as two relations between the state before
  and after. Both are interpretations of \<open>db_relation\<close>, so each statement is checked once
  and every operation built from it follows.
\<close>

section \<open>Permissions of a role, and who holds the admin role\<close>

definition granted :: "database \<Rightarrow> uuid \<Rightarrow> permission_set" where
  "granted d rid = {p. (rid, p) \<in> set (role_permissions d)}"

definition admin_row :: "role_row \<Rightarrow> bool" where
  "admin_row r \<longleftrightarrow> r_is_system r \<and> r_key r = RoleKeyAdmin"

definition admin_held :: "database \<Rightarrow> bool" where
  "admin_held d \<longleftrightarrow> (\<exists>r \<in> set (roles d). admin_row r \<and> r_id r \<in> snd ` set (user_roles d))"

lemma admin_held_system:
  "admin_held d \<longleftrightarrow> (\<exists>r \<in> set (filter r_is_system (roles d)).
     r_key r = RoleKeyAdmin \<and> r_id r \<in> snd ` set (user_roles d))"
  by (auto simp: admin_held_def admin_row_def)

definition superusers :: "database \<Rightarrow> uuid set" where
  "superusers d = u_id ` {x \<in> set (users d). u_is_superuser x}"

definition system_roles :: "database \<Rightarrow> role_row list" where
  "system_roles d = filter r_is_system (roles d)"

text \<open>
  \<open>lawful\<close>, for a database with unique keys: the keys stay unique, the audit log only
  grows, nobody becomes a superuser, the system roles keep their rows and their
  permissions, and if somebody holds the admin role then somebody still does.
\<close>

definition lawful :: "database \<Rightarrow> database \<Rightarrow> bool" where
  "lawful d d' \<longleftrightarrow> (keys_ok d \<longrightarrow>
     keys_ok d' \<and> audit_grows d d' \<and> superusers d' \<subseteq> superusers d
   \<and> system_roles d' = system_roles d
   \<and> (\<forall>r \<in> set (system_roles d). granted d' (r_id r) = granted d (r_id r))
   \<and> (admin_held d \<longrightarrow> admin_held d'))"

interpretation law: db_relation lawful
proof
  fix d d' d'' :: database
  show "lawful d d" by (simp add: lawful_def grow.rel_refl)
  assume "lawful d d'" "lawful d' d''"
  then show "lawful d d''"
    by (auto simp: lawful_def intro: grow.rel_trans)
qed

text \<open>
  \<open>confined p T\<close>: the permission \<open>p\<close> can be exercised by the users in \<open>T\<close> only. Every
  superuser, every user holding a role that grants \<open>p\<close> and the owner of every unrevoked
  API key that carries \<open>p\<close> is in \<open>T\<close>, and no open invitation offers \<open>p\<close>.
\<close>

definition confined :: "permission \<Rightarrow> uuid set \<Rightarrow> database \<Rightarrow> bool" where
  "confined p T d \<longleftrightarrow>
     superusers d \<subseteq> T
   \<and> (\<forall>(u, r) \<in> set (user_roles d). p \<in> granted d r \<longrightarrow> u \<in> T)
   \<and> (\<forall>i \<in> set (invitations d). i_accepted_at i = None \<and> i_revoked_at i = None \<longrightarrow>
        p \<notin> granted d (i_role_id i))
   \<and> (\<forall>(k, q) \<in> set (api_key_permissions d). q = p \<longrightarrow>
        k \<in> k_id ` set (api_keys d)
      \<and> (\<forall>x \<in> set (api_keys d). k_id x = k \<longrightarrow> k_revoked_at x = None \<longrightarrow> k_user_id x \<in> T))"

lemma confinedD:
  "confined p T d \<Longrightarrow> superusers d \<subseteq> T"
  "confined p T d \<Longrightarrow> (u, r) \<in> set (user_roles d) \<Longrightarrow> p \<in> granted d r \<Longrightarrow> u \<in> T"
  "confined p T d \<Longrightarrow> i \<in> set (invitations d) \<Longrightarrow> i_accepted_at i = None \<Longrightarrow> i_revoked_at i = None \<Longrightarrow>
     p \<notin> granted d (i_role_id i)"
  "confined p T d \<Longrightarrow> (k, p) \<in> set (api_key_permissions d) \<Longrightarrow> k \<in> k_id ` set (api_keys d)"
  "confined p T d \<Longrightarrow> (k, p) \<in> set (api_key_permissions d) \<Longrightarrow>
     \<forall>x \<in> set (api_keys d). k_id x = k \<longrightarrow> k_revoked_at x = None \<longrightarrow> k_user_id x \<in> T"
  unfolding confined_def by blast+

definition keeps :: "permission \<Rightarrow> uuid set \<Rightarrow> database \<Rightarrow> database \<Rightarrow> bool" where
  "keeps p T d d' \<longleftrightarrow> lawful d d' \<and> (keys_ok d \<longrightarrow> confined p T d \<longrightarrow> confined p T d')"

interpretation keep: db_relation "keeps p T" for p T
proof
  fix d d' d'' :: database
  show "keeps p T d d" by (simp add: keeps_def law.rel_refl)
  assume "keeps p T d d'" "keeps p T d' d''"
  then show "keeps p T d d''"
    unfolding keeps_def by (metis law.rel_trans lawful_def)
qed

lemma keepsD: "keeps p T d d' \<Longrightarrow> lawful d d'"
  by (simp add: keeps_def)

lemma keeps_lawful: "obeys (keeps p T) m \<Longrightarrow> obeys lawful m"
  by (erule obeys_mono) (simp add: keeps_def)

text \<open>Operations whose second step needs what the first one found in a confined state.\<close>

lemma keeps_bind_post:
  assumes "obeys (keeps p T) m" "obeys lawful (bind_op m k)"
    and post: "\<And>w a w1. m w = (Inr a, w1) \<Longrightarrow> keys_ok (db w) \<Longrightarrow> confined p T (db w) \<Longrightarrow> post a"
    and step: "\<And>a. post a \<Longrightarrow> obeys (keeps p T) (k a)"
  shows "obeys (keeps p T) (bind_op m k)"
  unfolding obeys_def
proof (intro allI impI)
  fix w r w'
  assume run: "bind_op m k w = (r, w')"
  have law: "lawful (db w) (db w')" using assms(2) run by (rule obeysD)
  show "keeps p T (db w) (db w')"
  proof (cases "keys_ok (db w) \<and> confined p T (db w)")
    case True
    obtain x w1 where m: "m w = (x, w1)" by fastforce
    have first: "keeps p T (db w) (db w1)" using assms(1) m by (rule obeysD)
    show ?thesis
    proof (cases x)
      case (Inl err)
      with run m first show ?thesis by (simp add: bind_op_def)
    next
      case (Inr a)
      with post m True have "post a" by blast
      moreover from run m Inr have "k a w1 = (r, w')" by (simp add: bind_op_def)
      ultimately have "keeps p T (db w1) (db w')" using step by (blast dest: obeysD)
      with first show ?thesis by (rule keep.rel_trans)
    qed
  qed (use law in \<open>auto simp: keeps_def\<close>)
qed

lemma confined_mono:
  assumes "confined p T d" "superusers d' \<subseteq> superusers d"
    and "\<And>r. p \<in> granted d' r \<Longrightarrow> p \<in> granted d r"
    and "set (user_roles d') \<subseteq> set (user_roles d)" "set (invitations d') \<subseteq> set (invitations d)"
    and "api_keys d' = api_keys d" "api_key_permissions d' = api_key_permissions d"
  shows "confined p T d'"
  unfolding confined_def
proof (intro conjI ballI)
  show "superusers d' \<subseteq> T" using assms(2) confinedD(1) [OF assms(1)] by blast
  fix x assume "x \<in> set (user_roles d')"
  with assms(3,4) confinedD(2) [OF assms(1)] show "case x of (u, r) \<Rightarrow> p \<in> granted d' r \<longrightarrow> u \<in> T" by auto
next
  fix i assume "i \<in> set (invitations d')"
  with assms(3,5) confinedD(3) [OF assms(1)]
  show "i_accepted_at i = None \<and> i_revoked_at i = None \<longrightarrow> p \<notin> granted d' (i_role_id i)" by blast
next
  fix x assume "x \<in> set (api_key_permissions d')"
  with assms(6,7) confinedD(4,5) [OF assms(1)]
  show "case x of (k, q) \<Rightarrow> q = p \<longrightarrow> k \<in> k_id ` set (api_keys d')
      \<and> (\<forall>x \<in> set (api_keys d'). k_id x = k \<longrightarrow> k_revoked_at x = None \<longrightarrow> k_user_id x \<in> T)" by auto
qed

section \<open>Which updates of a table are lawful\<close>

lemma audit_grows_refl [simp]: "audit_log d' = audit_log d \<Longrightarrow> audit_grows d d'"
  by (simp add: audit_grows_def)


lemmas law_defs = lawful_def superusers_def system_roles_def granted_def admin_held_def keys_ok_def

lemma keeps_sessions:
  "(distinct (map s_token_hash (sessions d)) \<Longrightarrow> distinct (map s_token_hash ss)) \<Longrightarrow>
   keeps p T d (d\<lparr>sessions := ss\<rparr>)"
  by (auto simp: keeps_def confined_def law_defs)

lemma keeps_resets: "keeps p T d (d\<lparr>password_resets := rs\<rparr>)"
  by (auto simp: keeps_def confined_def law_defs)

lemma keeps_verifications: "keeps p T d (d\<lparr>email_verifications := vs\<rparr>)"
  by (auto simp: keeps_def confined_def law_defs)

lemma keeps_audit: "keeps p T d (d\<lparr>audit_log := r # audit_log d\<rparr>)"
  by (auto simp: keeps_def confined_def law_defs audit_grows_def)

lemma keeps_users:
  assumes "distinct (map u_id (users d)) \<Longrightarrow> distinct (map u_id us)"
    and "superusers (d\<lparr>users := us\<rparr>) \<subseteq> superusers d"
  shows "keeps p T d (d\<lparr>users := us\<rparr>)"
  using assms by (auto simp: keeps_def confined_def law_defs)

lemma keeps_invitations:
  assumes "distinct (map i_id (invitations d)) \<Longrightarrow> distinct (map i_id is)"
    and "\<And>i. i \<in> set is \<Longrightarrow> i_accepted_at i = None \<Longrightarrow> i_revoked_at i = None \<Longrightarrow>
      \<exists>j \<in> set (invitations d). i_accepted_at j = None \<and> i_revoked_at j = None
        \<and> i_role_id j = i_role_id i"
  shows "keeps p T d (d\<lparr>invitations := is\<rparr>)"
  using assms by (fastforce simp: keeps_def confined_def law_defs)

lemma keeps_api_keys:
  assumes "distinct (map k_id (api_keys d)) \<Longrightarrow> distinct (map k_id ks)"
    and "distinct (map k_token_hash (api_keys d)) \<Longrightarrow> distinct (map k_token_hash ks)"
    and "k_id ` set (api_keys d) \<subseteq> k_id ` set ks"
    and "\<And>k. k \<in> set ks \<Longrightarrow> k_revoked_at k = None \<Longrightarrow>
      (\<exists>j \<in> set (api_keys d). k_revoked_at j = None \<and> k_id j = k_id k
         \<and> k_user_id j = k_user_id k)
      \<or> k_id k \<notin> k_id ` set (api_keys d)"
  shows "keeps p T d (d\<lparr>api_keys := ks\<rparr>)"
  unfolding keeps_def
proof (intro conjI impI)
  show "lawful d (d\<lparr>api_keys := ks\<rparr>)" using assms(1,2) by (auto simp: law_defs)
  assume confined: "confined p T d"
  have "k_id ` set (api_keys d) \<subseteq> k_id ` set ks" by fact
  moreover have "k_user_id x \<in> T"
    if kp: "(k, p) \<in> set (api_key_permissions d)" and
      x: "x \<in> set ks" "k_id x = k" "k_revoked_at x = None" for k x
    using assms(4) [OF x(1,3)] x(2) confinedD(4,5) [OF confined kp] by fastforce
  ultimately show "confined p T (d\<lparr>api_keys := ks\<rparr>)"
    using confined by (auto simp: confined_def granted_def superusers_def)
qed

lemma lawful_invitations:
  "(distinct (map i_id (invitations d)) \<Longrightarrow> distinct (map i_id is)) \<Longrightarrow>
   lawful d (d\<lparr>invitations := is\<rparr>)"
  by (auto simp: law_defs)

lemma lawful_key_permissions: "lawful d (d\<lparr>api_key_permissions := kp\<rparr>)"
  by (auto simp: law_defs)

lemma lawful_more_user_roles:
  assumes "distinct (user_roles d) \<Longrightarrow> distinct urs" "set (user_roles d) \<subseteq> set urs"
  shows "lawful d (d\<lparr>user_roles := urs\<rparr>)"
  using assms by (fastforce simp: law_defs)

end
