(* ===== verification/Permissions.thy ===== *)
theory Permissions
  imports Laws
begin

text \<open>
  \<open>internal/identity/permissions.go\<close>, the helpers \<open>Can\<close>, \<open>unionPermissions\<close> and \<open>hasRole\<close>
  of \<open>models.go\<close>, and \<open>checkEscalation\<close> of \<open>roles_service.go\<close>: the permission catalog,
  the permission sets, and the rule that one may only grant what one holds.
\<close>

section \<open>The catalog\<close>

definition PermUsersRead :: permission where "PermUsersRead = ''users.read''"
definition PermUsersUpdate :: permission where "PermUsersUpdate = ''users.update''"
definition PermInvitationsRead :: permission where "PermInvitationsRead = ''invitations.read''"
definition PermInvitationsCreate :: permission where "PermInvitationsCreate = ''invitations.create''"
definition PermInvitationsDelete :: permission where "PermInvitationsDelete = ''invitations.delete''"
definition PermRolesRead :: permission where "PermRolesRead = ''roles.read''"
definition PermRolesCreate :: permission where "PermRolesCreate = ''roles.create''"
definition PermRolesUpdate :: permission where "PermRolesUpdate = ''roles.update''"
definition PermRolesDelete :: permission where "PermRolesDelete = ''roles.delete''"
definition PermAuditRead :: permission where "PermAuditRead = ''audit.read''"
definition PermAPIKeysRead :: permission where "PermAPIKeysRead = ''apikeys.read''"
definition PermAPIKeysCreate :: permission where "PermAPIKeysCreate = ''apikeys.create''"
definition PermAPIKeysDelete :: permission where "PermAPIKeysDelete = ''apikeys.delete''"

lemmas perm_defs = PermUsersRead_def PermUsersUpdate_def PermInvitationsRead_def
  PermInvitationsCreate_def PermInvitationsDelete_def PermRolesRead_def PermRolesCreate_def
  PermRolesUpdate_def PermRolesDelete_def PermAuditRead_def PermAPIKeysRead_def
  PermAPIKeysCreate_def PermAPIKeysDelete_def

definition Catalog :: "(permission \<times> string) list" where
  "Catalog =
    [(PermUsersRead, ''View the users in this installation''),
     (PermUsersUpdate, ''Change which roles a user holds, and activate or deactivate them''),
     (PermInvitationsRead, ''View pending invitations''),
     (PermInvitationsCreate, ''Invite people to create an account''),
     (PermInvitationsDelete, ''Revoke a pending invitation''),
     (PermRolesRead, ''View the roles this installation uses''),
     (PermRolesCreate, ''Create custom roles''),
     (PermRolesUpdate, ''Edit custom roles''),
     (PermRolesDelete, ''Delete custom roles''),
     (PermAuditRead, ''Read the audit log''),
     (PermAPIKeysRead, ''View API keys''),
     (PermAPIKeysCreate, ''Create API keys''),
     (PermAPIKeysDelete, ''Revoke API keys'')]"

definition Valid :: "permission \<Rightarrow> bool" where
  "Valid p \<longleftrightarrow> list_ex (\<lambda>(key, _). key = p) Catalog"

section \<open>Permission sets\<close>

text \<open>
  Go ranges over the map in no fixed order; each loop below computes something that does
  not depend on it (a set, a conjunction, a list that is then sorted).
\<close>

definition NewPermissionSet :: "permission list \<Rightarrow> permission_set" where
  "NewPermissionSet perms = fold insert perms {}"

definition AllPermissions :: permission_set where
  "AllPermissions = fold (\<lambda>(key, _). insert key) Catalog {}"

definition Has :: "permission_set \<Rightarrow> permission \<Rightarrow> bool" where
  "Has s p \<longleftrightarrow> p \<in> s"

definition Superset :: "permission_set \<Rightarrow> permission_set \<Rightarrow> bool" where
  "Superset s other \<longleftrightarrow> (\<forall>p \<in> other. Has s p)"

definition Missing :: "permission_set \<Rightarrow> permission_set \<Rightarrow> permission list" where
  "Missing s other = sorted_list_of_set {p \<in> other. \<not> Has s p}"

definition Slice :: "permission_set \<Rightarrow> permission list" where
  "Slice s = sorted_list_of_set s"

definition Can :: "access \<Rightarrow> permission \<Rightarrow> bool" where
  "Can a p \<longleftrightarrow> Has (Permissions a) p"

fun unionPermissions :: "role list \<Rightarrow> permission_set" where
  "unionPermissions [] = {}"
| "unionPermissions (r # rs) = rolePermissions r \<union> unionPermissions rs"

definition hasRole :: "role list \<Rightarrow> string \<Rightarrow> bool" where
  "hasRole rs key \<longleftrightarrow> list_ex (\<lambda>r. IsSystem r \<and> Key r = key) rs"

definition actorHoldsRole :: "access \<Rightarrow> string \<Rightarrow> bool" where
  "actorHoldsRole a key \<longleftrightarrow> hasRole (Roles a) key"

text \<open>The guard. Its error names the permissions the caller lacks.\<close>

definition checkEscalation :: "access \<Rightarrow> permission_set \<Rightarrow> error + unit" where
  "checkEscalation actor granting =
    (if Superset (Permissions actor) granting then Inr ()
     else Inl (ErrEscalation (Missing (Permissions actor) granting)))"

lemma set_Catalog: "fst ` set Catalog = AllPermissions"
  by (simp add: AllPermissions_def Catalog_def insert_commute)

lemma Valid_iff: "Valid p \<longleftrightarrow> p \<in> AllPermissions"
  unfolding set_Catalog [symmetric] Valid_def by (force simp: list_ex_iff)

lemma finite_AllPermissions [simp]: "finite AllPermissions"
  unfolding set_Catalog [symmetric] by simp

lemma distinct_Catalog: "distinct (map fst Catalog)"
  by (simp add: Catalog_def perm_defs)

lemma NewPermissionSet_set [simp]: "NewPermissionSet ps = set ps"
  by (simp add: NewPermissionSet_def flip: union_set_fold)

lemma Superset_iff [simp]: "Superset s t \<longleftrightarrow> t \<subseteq> s"
  by (auto simp: Superset_def Has_def)

lemma unionPermissions_eq: "unionPermissions rs = (\<Union>r \<in> set rs. rolePermissions r)"
  by (induction rs) auto

lemma hasRole_iff: "hasRole rs key \<longleftrightarrow> (\<exists>r \<in> set rs. IsSystem r \<and> Key r = key)"
  by (auto simp: hasRole_def list_ex_iff)

lemma Can_iff [simp]: "Can a p \<longleftrightarrow> p \<in> Permissions a"
  by (simp add: Can_def Has_def)

lemma checkEscalation_ok_iff [simp]:
  "checkEscalation a g = Inr x \<longleftrightarrow> g \<subseteq> Permissions a"
  by (simp add: checkEscalation_def)

lemma checkEscalation_err_iff:
  "checkEscalation a g = Inl err \<longleftrightarrow>
     \<not> g \<subseteq> Permissions a \<and> err = ErrEscalation (sorted_list_of_set (g - Permissions a))"
proof -
  have "{p \<in> g. p \<notin> Permissions a} = g - Permissions a" by auto
  then show ?thesis by (auto simp: checkEscalation_def Missing_def Has_def)
qed

lemma set_Slice [simp]: "finite s \<Longrightarrow> set (Slice s) = s"
  by (simp add: Slice_def)

lemma distinct_Slice [simp]: "distinct (Slice s)"
  by (simp add: Slice_def)

text \<open>The guard, as the rest of the service relies on it.\<close>

locale guarded_grant =
  fixes grant :: "access \<Rightarrow> 'x \<Rightarrow> 'b op"
    and handed :: "'x \<Rightarrow> database \<Rightarrow> permission_set"
  assumes guard: "grant a x w = (Inr y, w') \<Longrightarrow> handed x (db w) \<subseteq> Permissions a"
begin

lemma lacking_refused:
  assumes "p \<in> handed x (db w)" "p \<notin> Permissions a"
  shows "\<exists>err. fst (grant a x w) = Inl err"
proof (cases "grant a x w")
  case (Pair r w')
  show ?thesis
  proof (cases r)
    case (Inr y)
    with Pair have "handed x (db w) \<subseteq> Permissions a" by (intro guard) simp
    with assms show ?thesis by blast
  qed (simp add: Pair)
qed

lemma admin_grant_needs_all:
  assumes "AllPermissions \<subseteq> handed x (db w)" "grant a x w = (Inr y, w')"
  shows "AllPermissions \<subseteq> Permissions a"
  using guard [OF assms(2)] assms(1) by blast

end

section \<open>SyncPermissions\<close>

definition upsert_permission ::
  "permission \<Rightarrow> string \<Rightarrow> (permission \<times> string) list \<Rightarrow> (permission \<times> string) list" where
  "upsert_permission key description ps =
    (if list_ex (\<lambda>x. fst x = key) ps
     then update_where (\<lambda>x. fst x = key) (\<lambda>(k, _). (k, description)) ps
     else ps @ [(key, description)])"

text \<open>
  The result is the list of permissions the log line names: those in the table that the
  code no longer enforces (the log line itself is not modelled).
\<close>

definition sync_entry :: "env \<Rightarrow> permission \<times> string \<Rightarrow> unit op" where
  "sync_entry e entry =
    exec e [fst entry, snd entry]
      (\<lambda>d. ((), d\<lparr>permissions := upsert_permission (fst entry) (snd entry) (permissions d)\<rparr>))"

definition SyncPermissions :: "env \<Rightarrow> permission list op" where
  "SyncPermissions e = InTx e (
     then_op
       (for_each (sync_entry e) Catalog)
       (bind_op (select e [] (\<lambda>d. sort_key (pg_collate e) (map fst (permissions d)))) (\<lambda>keys.
        return_op (filter (\<lambda>key. \<not> Valid key) keys))))"

lemma fst_upsert:
  "fst ` set (upsert_permission k v ps) = insert k (fst ` set ps)"
proof (cases "list_ex (\<lambda>x. fst x = k) ps")
  case True
  then have "k \<in> fst ` set ps" by (auto simp: list_ex_iff)
  moreover have "map fst (update_where (\<lambda>x. fst x = k) (\<lambda>(k, _). (k, v)) ps) = map fst ps"
    by (rule map_update_where) (simp add: split_beta)
  ultimately show ?thesis using True
    by (simp add: upsert_permission_def insert_absorb flip: set_map)
qed (auto simp: upsert_permission_def)

lemma upsert_value:
  "(k', v') \<in> set (upsert_permission k v ps) \<longleftrightarrow>
     (k' = k \<and> v' = v) \<or> (k' \<noteq> k \<and> (k', v') \<in> set ps)"
  by (force simp: upsert_permission_def set_update_where list_ex_iff split_beta)

abbreviation upsert_all ::
  "(permission \<times> string) list \<Rightarrow> (permission \<times> string) list \<Rightarrow> (permission \<times> string) list" where
  "upsert_all ps es \<equiv> fold (\<lambda>(k, v). upsert_permission k v) es ps"

lemma for_each_sync:
  "for_each (sync_entry e) es w = (Inr (), w') \<Longrightarrow>
   db w' = (db w)\<lparr>permissions := upsert_all (permissions (db w)) es\<rparr>"
proof (induction es arbitrary: w)
  case (Cons x es)
  from Cons.prems obtain w1 where first: "sync_entry e x w = (Inr (), w1)"
    and rest: "for_each (sync_entry e) es w1 = (Inr (), w')"
    by (auto simp: bind_op_Inr_iff)
  from first have
    "db w1 = (db w)\<lparr>permissions := upsert_permission (fst x) (snd x) (permissions (db w))\<rparr>"
    by (auto simp: sync_entry_def exec_Inr_iff)
  with Cons.IH [OF rest] show ?case by (simp add: split_beta)
qed simp

lemma fst_upsert_all: "fst ` set (upsert_all ps es) = fst ` set ps \<union> fst ` set es"
  by (induction es arbitrary: ps) (auto simp: fst_upsert split_beta)

lemma upsert_all_value:
  "distinct (map fst es) \<Longrightarrow> (k, v) \<in> set es \<Longrightarrow> (k, v') \<in> set (upsert_all ps es) \<longleftrightarrow> v' = v"
proof (induction es arbitrary: ps)
  case (Cons x es)
  obtain k1 v1 where x: "x = (k1, v1)" by fastforce
  show ?case
  proof (cases "k = k1")
    case True
    have keep: "k \<notin> fst ` set es \<Longrightarrow>
        (k, v') \<in> set (upsert_all qs es) \<longleftrightarrow> (k, v') \<in> set qs" for qs
      by (induction es arbitrary: qs) (auto simp: upsert_value split_beta)
    from Cons.prems True x have "v = v1" "k \<notin> fst ` set es" by (force simp: image_iff)+
    with True x keep show ?thesis by (simp add: upsert_value)
  next
    case False
    with Cons x show ?thesis by auto
  qed
qed simp

end
