(* ===== verification/Fan_In.thy ===== *)
theory Fan_In
  imports Permissions
begin

text \<open>
  The loop that \<open>collectRoles\<close> (\<open>roles_repository.go\<close>), \<open>collectInvitations\<close>
  (\<open>repository.go\<close>) and \<open>collectAPIKeys\<close> (\<open>apikeys_repository.go\<close>) share. A \<open>LEFT JOIN\<close>
  repeats a row once per permission, with a NULL permission when it has none; the loop
  folds those rows back into one value per id, in the order of first appearance.

  \<open>key\<close> reads the id of a scanned row, \<open>mk\<close> builds the value from the first row of an id,
  \<open>add\<close> puts a permission into a value.
\<close>

type_synonym 'r joined = "'r \<times> permission option"

fun fan_in_step ::
  "('r \<Rightarrow> uuid) \<Rightarrow> ('r \<Rightarrow> 'v) \<Rightarrow> (permission \<Rightarrow> 'v \<Rightarrow> 'v) \<Rightarrow>
   (uuid \<rightharpoonup> 'v) \<times> uuid list \<Rightarrow> 'r joined \<Rightarrow> (uuid \<rightharpoonup> 'v) \<times> uuid list" where
  "fan_in_step key mk add (byID, order) (row, perm) =
    (let (existing, byID, order) =
       (case byID (key row) of
          Some v \<Rightarrow> (v, byID, order)
        | None \<Rightarrow> (mk row, byID(key row \<mapsto> mk row), order @ [key row])) in
     case perm of
       None \<Rightarrow> (byID, order)
     | Some p \<Rightarrow> (byID(key row \<mapsto> add p existing), order))"

definition fan_in ::
  "('r \<Rightarrow> uuid) \<Rightarrow> ('r \<Rightarrow> 'v) \<Rightarrow> (permission \<Rightarrow> 'v \<Rightarrow> 'v) \<Rightarrow> 'r joined list \<Rightarrow> 'v list" where
  "fan_in key mk add rows =
    (case foldl (fan_in_step key mk add) (Map.empty, []) rows of
       (byID, order) \<Rightarrow> map (\<lambda>id. the (byID id)) order)"

text \<open>The rows a \<open>LEFT JOIN\<close> produces for one row with the permissions \<open>ps\<close>.\<close>

definition left_join :: "('r \<Rightarrow> permission list) \<Rightarrow> 'r \<Rightarrow> 'r joined list" where
  "left_join perms row =
    (case perms row of [] \<Rightarrow> [(row, None)] | ps \<Rightarrow> map (\<lambda>p. (row, Some p)) ps)"

definition left_joins :: "('r \<Rightarrow> permission list) \<Rightarrow> 'r list \<Rightarrow> 'r joined list" where
  "left_joins perms rows = concat (map (left_join perms) rows)"

lemma fan_in_known:
  assumes "byID (key row) = Some v"
  shows "foldl (fan_in_step key mk add) (byID, order) (map (\<lambda>p. (row, Some p)) ps)
       = (byID(key row \<mapsto> fold add ps v), order)"
  using assms by (induction ps arbitrary: byID v) (auto simp: fun_upd_idem)

lemma fan_in_fresh:
  assumes "byID (key row) = None"
  shows "foldl (fan_in_step key mk add) (byID, order) (left_join perms row)
       = (byID(key row \<mapsto> fold add (perms row) (mk row)), order @ [key row])"
proof (cases "perms row")
  case Nil
  with assms show ?thesis by (simp add: left_join_def)
next
  case (Cons p ps)
  with assms show ?thesis by (simp add: left_join_def fan_in_known)
qed

lemma fan_in_foldl:
  assumes "distinct (map key rows)" "\<forall>r \<in> set rows. byID (key r) = None"
  shows "\<exists>byID'. foldl (fan_in_step key mk add) (byID, order) (left_joins perms rows)
           = (byID', order @ map key rows)
       \<and> (\<forall>r \<in> set rows. byID' (key r) = Some (fold add (perms r) (mk r)))
       \<and> (\<forall>id. id \<notin> key ` set rows \<longrightarrow> byID' id = byID id)"
  using assms
proof (induction rows arbitrary: byID order)
  case (Cons r rs)
  let ?byID = "byID(key r \<mapsto> fold add (perms r) (mk r))"
  from Cons.prems have fresh: "\<forall>r' \<in> set rs. ?byID (key r') = None"
    by (auto simp: image_iff)
  from Cons.prems have "distinct (map key rs)" by simp
  from Cons.IH [OF this fresh, of "order @ [key r]"] obtain byID' where
    "foldl (fan_in_step key mk add) (?byID, order @ [key r]) (left_joins perms rs)
       = (byID', (order @ [key r]) @ map key rs)"
    "\<forall>r' \<in> set rs. byID' (key r') = Some (fold add (perms r') (mk r'))"
    "\<forall>id. id \<notin> key ` set rs \<longrightarrow> byID' id = ?byID id"
    by blast
  moreover have "key r \<notin> key ` set rs" using Cons.prems by auto
  ultimately show ?case
    using Cons.prems by (auto simp: left_joins_def fan_in_fresh)
qed (simp add: left_joins_def)

text \<open>The loop undoes the join: one value per row, in order, with all its permissions.\<close>

lemma fan_in_left_joins:
  assumes "distinct (map key rows)"
  shows "fan_in key mk add (left_joins perms rows)
       = map (\<lambda>r. fold add (perms r) (mk r)) rows"
proof -
  obtain byID where
    "foldl (fan_in_step key mk add) (Map.empty, []) (left_joins perms rows)
       = (byID, map key rows)"
    "\<forall>r \<in> set rows. byID (key r) = Some (fold add (perms r) (mk r))"
    using fan_in_foldl [OF assms, of Map.empty mk add "[]" perms] by auto
  then show ?thesis by (simp add: fan_in_def)
qed

text \<open>
  The interface between the loop and its three users: the value that collects the
  permissions of a row is \<open>full row ps\<close>, and one more permission can be added to it.
\<close>

locale collector =
  fixes key :: "'r \<Rightarrow> uuid" and mk :: "'r \<Rightarrow> 'v" and add :: "permission \<Rightarrow> 'v \<Rightarrow> 'v"
    and full :: "'r \<Rightarrow> permission_set \<Rightarrow> 'v"
  assumes mk_full: "mk r = full r {}"
    and add_full: "add p (full r s) = full r (insert p s)"
begin

lemma fold_add: "fold add ps (full r s) = full r (s \<union> set ps)"
  by (induction ps arbitrary: s) (simp_all add: add_full)

lemma collect_joined:
  "distinct (map key rows) \<Longrightarrow>
   fan_in key mk add (left_joins perms rows) = map (\<lambda>r. full r (set (perms r))) rows"
  by (simp add: fan_in_left_joins mk_full fold_add)

end

end
