(* ===== verification/Roles_Repo.thy ===== *)
theory Roles_Repo
  imports Fan_In
begin

text \<open>
  \<open>internal/identity/roles_repository.go\<close>: the statements on roles, their permissions and
  their assignment to users. A query joins \<open>roles\<close> with \<open>role_permissions\<close> and folds the
  rows back with \<open>collectRoles\<close>; the interpretation below shows that this loses nothing.
\<close>

section \<open>Reading roles\<close>

text \<open>The role a scanned row stands for, with the permissions gathered so far.\<close>

definition role_of :: "role_row \<Rightarrow> permission_set \<Rightarrow> role" where
  "role_of r ps =
    \<lparr>roleID = r_id r, Key = r_key r, roleName = r_name r, IsSystem = r_is_system r,
     rolePermissions = ps, roleCreatedAt = r_created_at r, roleUpdatedAt = r_updated_at r\<rparr>"

definition scan_role :: "role_row \<Rightarrow> role" where
  "scan_role r = role_of r {}"

definition add_role_permission :: "permission \<Rightarrow> role \<Rightarrow> role" where
  "add_role_permission p r = r\<lparr>rolePermissions := insert p (rolePermissions r)\<rparr>"

definition collectRoles :: "role_row joined list \<Rightarrow> role list" where
  "collectRoles rows = fan_in r_id scan_role add_role_permission rows"

interpretation role_rows: collector r_id scan_role add_role_permission role_of
  by unfold_locales (simp_all add: scan_role_def add_role_permission_def role_of_def)

text \<open>\<open>role_permissions\<close> of one role, and the \<open>LEFT JOIN\<close> with it.\<close>

definition perms_of_role :: "database \<Rightarrow> role_row \<Rightarrow> permission list" where
  "perms_of_role d r = map snd (filter (\<lambda>(rid, _). rid = r_id r) (role_permissions d))"

definition join_roles :: "database \<Rightarrow> role_row list \<Rightarrow> role_row joined list" where
  "join_roles d rs = left_joins (perms_of_role d) rs"

definition full_role :: "database \<Rightarrow> role_row \<Rightarrow> role" where
  "full_role d r = role_of r (set (perms_of_role d r))"

lemma collect_join_roles:
  "distinct (map r_id rs) \<Longrightarrow> collectRoles (join_roles d rs) = map (full_role d) rs"
  by (simp add: collectRoles_def join_roles_def role_rows.collect_joined full_role_def)

text \<open>\<open>ORDER BY r.is_system DESC, r.key\<close>.\<close>

definition order_roles :: "env \<Rightarrow> role_row list \<Rightarrow> role_row list" where
  "order_roles e rs = sort_key (\<lambda>r. (\<not> r_is_system r, pg_collate e (r_key r))) rs"

definition select_roles ::
  "env \<Rightarrow> string list \<Rightarrow> (database \<Rightarrow> role_row list) \<Rightarrow> role list op" where
  "select_roles e texts rows =
    bind_op (select e texts (\<lambda>d. join_roles d (rows d))) (\<lambda>rs. return_op (collectRoles rs))"

definition repo_ListRoles :: "env \<Rightarrow> role list op" where
  "repo_ListRoles e = select_roles e [] (\<lambda>d. order_roles e (roles d))"

definition one_role :: "role list \<Rightarrow> role op" where
  "one_role rs = (case rs of [] \<Rightarrow> fail_op ErrNotFound | r # _ \<Rightarrow> return_op r)"

definition repo_GetRole :: "env \<Rightarrow> uuid \<Rightarrow> role op" where
  "repo_GetRole e rid =
    bind_op (select_roles e [] (\<lambda>d. filter (\<lambda>r. r_id r = rid) (roles d))) one_role"

definition repo_GetRoleByKey :: "env \<Rightarrow> string \<Rightarrow> role op" where
  "repo_GetRoleByKey e key =
    bind_op (select_roles e [key] (\<lambda>d. filter (\<lambda>r. r_key r = key) (roles d))) one_role"

definition repo_GetRolesByIDs :: "env \<Rightarrow> uuid list \<Rightarrow> role list op" where
  "repo_GetRolesByIDs e ids =
    (if ids = [] then return_op []
     else bind_op (select_roles e []
            (\<lambda>d. order_roles e (filter (\<lambda>r. r_id r \<in> set ids) (roles d)))) (\<lambda>rs.
          then_op (refuse_if (length rs \<noteq> length (remdups ids)) ErrNotFound)
            (return_op rs)))"

section \<open>Writing roles\<close>

definition insert_role :: "env \<Rightarrow> string \<Rightarrow> string \<Rightarrow> role_row stmt" where
  "insert_role e key name u d =
    (let row = \<lparr>r_id = u, r_key = key, r_name = name, r_is_system = False,
                r_created_at = sql_now e, r_updated_at = sql_now e\<rparr> in
     if list_ex (\<lambda>r. r_id r = u) (roles d) then Inl (UniqueViolation ''roles_pkey'')
     else if list_ex (\<lambda>r. r_key r = key) (roles d) then Inl (UniqueViolation ''roles_key_key'')
     else Inr (row, d\<lparr>roles := roles d @ [row]\<rparr>))"

definition insert_role_permission :: "uuid \<Rightarrow> permission \<Rightarrow> unit stmt" where
  "insert_role_permission rid p u d =
    (if (rid, p) \<in> set (role_permissions d)
       then Inl (UniqueViolation ''role_permissions_pkey'')
     else if \<not> list_ex (\<lambda>(k, _). k = p) (permissions d)
       then Inl (ForeignKeyViolation ''role_permissions_permission_fkey'')
     else if \<not> list_ex (\<lambda>r. r_id r = rid) (roles d)
       then Inl (ForeignKeyViolation ''role_permissions_role_id_fkey'')
     else Inr ((), d\<lparr>role_permissions := role_permissions d @ [(rid, p)]\<rparr>))"

definition not_enforced :: "env \<Rightarrow> permission \<Rightarrow> string" where
  "not_enforced e p = Quote (uquote e) p @ '' is not a permission this application enforces''"

definition replaceRolePermissions :: "env \<Rightarrow> uuid \<Rightarrow> permission_set \<Rightarrow> unit op" where
  "replaceRolePermissions e rid perms =
    then_op
      (exec e [] (\<lambda>d. ((), d\<lparr>role_permissions :=
         delete_where (\<lambda>(r, _). r = rid) (role_permissions d)\<rparr>)))
      (for_each (\<lambda>p. query e [p] (insert_role_permission rid p) (\<lambda>pe.
           if isForeignKeyViolation pe ''role_permissions_permission_fkey''
           then invalid (''identity: validation failed: '' @ not_enforced e p) else ErrSQL pe))
         (Slice perms))"

definition repo_CreateRole :: "env \<Rightarrow> string \<Rightarrow> string \<Rightarrow> permission_set \<Rightarrow> role op" where
  "repo_CreateRole e key name perms =
    bind_op (query e [key, name] (insert_role e key name)
       (\<lambda>pe. if isUniqueViolation pe ''roles_key_key'' then ErrRoleKeyTaken else ErrSQL pe)) (\<lambda>r.
    then_op (replaceRolePermissions e (r_id r) perms)
      (return_op (role_of r perms)))"

definition rename_role :: "env \<Rightarrow> string \<Rightarrow> role_row \<Rightarrow> role_row" where
  "rename_role e name r = r\<lparr>r_name := name, r_updated_at := sql_now e\<rparr>"

definition custom_role :: "uuid \<Rightarrow> role_row \<Rightarrow> bool" where
  "custom_role rid r \<longleftrightarrow> r_id r = rid \<and> \<not> r_is_system r"

definition repo_UpdateRole :: "env \<Rightarrow> uuid \<Rightarrow> string \<Rightarrow> permission_set \<Rightarrow> role op" where
  "repo_UpdateRole e rid name perms =
    bind_op (exec e [name] (\<lambda>d.
      (map_option (rename_role e name) (find (custom_role rid) (roles d)),
       d\<lparr>roles := update_where (custom_role rid) (rename_role e name) (roles d)\<rparr>))) (\<lambda>r.
    case r of
      None \<Rightarrow> fail_op ErrNotFound
    | Some r \<Rightarrow> then_op (replaceRolePermissions e rid perms) (return_op (role_of r perms)))"

text \<open>
  Deleting a row of \<open>roles\<close> is restricted by \<open>user_roles\<close> and cascades to
  \<open>role_permissions\<close> and to the invitations that offer the role.
\<close>

definition delete_role :: "uuid \<Rightarrow> nat stmt" where
  "delete_role rid u d =
    (let n = count_where (custom_role rid) (roles d) in
     if n > 0 \<and> list_ex (\<lambda>(_, r). r = rid) (user_roles d)
       then Inl (ForeignKeyViolation ''user_roles_role_id_fkey'')
     else if n > 0 then
       Inr (n, d\<lparr>roles := delete_where (custom_role rid) (roles d),
                 role_permissions := delete_where (\<lambda>(r, _). r = rid) (role_permissions d),
                 invitations := delete_where (\<lambda>i. i_role_id i = rid) (invitations d)\<rparr>)
     else Inr (0, d))"

definition repo_DeleteRole :: "env \<Rightarrow> uuid \<Rightarrow> unit op" where
  "repo_DeleteRole e rid =
    bind_op (query e [] (delete_role rid)
       (\<lambda>pe. if isForeignKeyViolation pe ''user_roles_role_id_fkey'' then ErrRoleInUse
             else ErrSQL pe)) (\<lambda>n.
    refuse_if (n = 0) ErrNotFound)"

section \<open>Assignment\<close>

definition roles_held :: "database \<Rightarrow> uuid \<Rightarrow> role_row list" where
  "roles_held d uid = filter (\<lambda>r. (uid, r_id r) \<in> set (user_roles d)) (roles d)"

definition LoadUserRoles :: "env \<Rightarrow> uuid \<Rightarrow> role list op" where
  "LoadUserRoles e uid = select_roles e [] (\<lambda>d. order_roles e (roles_held d uid))"

definition insert_user_role :: "uuid \<Rightarrow> uuid \<Rightarrow> unit stmt" where
  "insert_user_role uid rid u d =
    (if (uid, rid) \<in> set (user_roles d) then Inl (UniqueViolation ''user_roles_pkey'')
     else if \<not> list_ex (\<lambda>x. u_id x = uid) (users d)
       then Inl (ForeignKeyViolation ''user_roles_user_id_fkey'')
     else if \<not> list_ex (\<lambda>r. r_id r = rid) (roles d)
       then Inl (ForeignKeyViolation ''user_roles_role_id_fkey'')
     else Inr ((), d\<lparr>user_roles := user_roles d @ [(uid, rid)]\<rparr>))"

definition repo_SetUserRoles :: "env \<Rightarrow> uuid \<Rightarrow> uuid list \<Rightarrow> unit op" where
  "repo_SetUserRoles e uid rids =
    then_op
      (exec e [] (\<lambda>d. ((), d\<lparr>user_roles := delete_where (\<lambda>(u, _). u = uid) (user_roles d)\<rparr>)))
      (for_each (\<lambda>rid. query e [] (insert_user_role uid rid) ErrSQL) rids)"

text \<open>\<open>ON CONFLICT (user_id, role_id) DO NOTHING\<close>.\<close>

definition add_user_role :: "uuid \<Rightarrow> uuid \<Rightarrow> unit stmt" where
  "add_user_role uid rid u d =
    (if (uid, rid) \<in> set (user_roles d) then Inr ((), d) else insert_user_role uid rid u d)"

definition AddUserRole :: "env \<Rightarrow> uuid \<Rightarrow> uuid \<Rightarrow> unit op" where
  "AddUserRole e uid rid = query e [] (add_user_role uid rid) ErrSQL"

text \<open>\<open>count(DISTINCT ur.user_id)\<close> over the join, and over active users only.\<close>

definition holders :: "database \<Rightarrow> string \<Rightarrow> uuid list" where
  "holders d key = remdups (map fst (filter (\<lambda>(u, r).
     list_ex (\<lambda>x. r_id x = r \<and> r_is_system x \<and> r_key x = key) (roles d)) (user_roles d)))"

definition active_holders :: "database \<Rightarrow> string \<Rightarrow> uuid list" where
  "active_holders d key =
    filter (\<lambda>u. list_ex (\<lambda>x. u_id x = u \<and> u_is_active x) (users d)) (holders d key)"

definition CountUsersWithRole :: "env \<Rightarrow> string \<Rightarrow> nat op" where
  "CountUsersWithRole e key = select e [key] (\<lambda>d. length (holders d key))"

definition CountActiveUsersWithRole :: "env \<Rightarrow> string \<Rightarrow> nat op" where
  "CountActiveUsersWithRole e key = select e [key] (\<lambda>d. length (active_holders d key))"

text \<open>Go compares the keys byte-wise here, whatever the collation of the database.\<close>

definition sortRoles :: "role list \<Rightarrow> role list" where
  "sortRoles rs = sort_key (\<lambda>r. (\<not> IsSystem r, Key r)) rs"

definition rolesToIDs :: "role list \<Rightarrow> uuid list" where
  "rolesToIDs rs = map roleID rs"

definition roleKeys :: "role list \<Rightarrow> string list" where
  "roleKeys rs = map Key rs"

section \<open>What the queries return\<close>

lemma select_roles_Inr_iff:
  "select_roles e ts f w = (Inr rs, w') \<longleftrightarrow>
     \<not> fault e (steps w) \<and> list_all (pg_text_ok e) ts
   \<and> rs = collectRoles (join_roles (db w) (f (db w))) \<and> w' = tick w"
  by (auto simp: select_roles_def run_iffs)

lemma keys_okD:
  "keys_ok d \<Longrightarrow> distinct (map u_id (users d))"
  "keys_ok d \<Longrightarrow> distinct (map r_id (roles d))"
  "keys_ok d \<Longrightarrow> distinct (map r_key (roles d))"
  "keys_ok d \<Longrightarrow> distinct (user_roles d)"
  "keys_ok d \<Longrightarrow> distinct (role_permissions d)"
  "keys_ok d \<Longrightarrow> distinct (map s_token_hash (sessions d))"
  "keys_ok d \<Longrightarrow> distinct (map i_id (invitations d))"
  "keys_ok d \<Longrightarrow> distinct (map k_id (api_keys d))"
  "keys_ok d \<Longrightarrow> distinct (map k_token_hash (api_keys d))"
  by (simp_all add: keys_ok_def)

lemma roleID_full [simp]: "roleID (full_role d r) = r_id r"
  by (simp add: full_role_def role_of_def)

lemma Key_full [simp]: "Key (full_role d r) = r_key r"
  by (simp add: full_role_def role_of_def)

lemma IsSystem_full [simp]: "IsSystem (full_role d r) = r_is_system r"
  by (simp add: full_role_def role_of_def)

lemma permissions_full [simp]: "rolePermissions (full_role d r) = granted d (r_id r)"
  by (force simp: full_role_def role_of_def perms_of_role_def granted_def)

lemma distinct_order_roles [simp]:
  "distinct (map r_id (order_roles e rs)) = distinct (map r_id rs)"
  by (simp add: order_roles_def distinct_map)

lemma set_order_roles [simp]: "set (order_roles e rs) = set rs"
  by (simp add: order_roles_def)

lemma length_order_roles [simp]: "length (order_roles e rs) = length rs"
  by (simp add: order_roles_def)

lemma one_role_Inr_iff:
  assumes "distinct (map r_id (f (db w)))"
  shows "bind_op (select_roles e ts f) one_role w = (Inr r, w') \<longleftrightarrow>
     \<not> fault e (steps w) \<and> list_all (pg_text_ok e) ts \<and> w' = tick w
   \<and> (\<exists>row rows. f (db w) = row # rows \<and> r = full_role (db w) row)"
proof -
  have "collectRoles (join_roles (db w) (f (db w))) = map (full_role (db w)) (f (db w))"
    using assms by (rule collect_join_roles)
  then show ?thesis
    by (cases "f (db w)") (auto simp: bind_op_Inr_iff select_roles_Inr_iff one_role_def)
qed

lemma repo_GetRole_Inr_iff:
  assumes "keys_ok (db w)"
  shows "repo_GetRole e rid w = (Inr r, w') \<longleftrightarrow>
     \<not> fault e (steps w) \<and> w' = tick w
   \<and> (\<exists>row \<in> set (roles (db w)). r_id row = rid \<and> r = full_role (db w) row)"
proof -
  let ?f = "\<lambda>d. filter (\<lambda>r. r_id r = rid) (roles d)"
  have dist: "distinct (map r_id (roles (db w)))" using assms by (rule keys_okD)
  have "(\<exists>row rows. ?f (db w) = row # rows \<and> r = full_role (db w) row) \<longleftrightarrow>
      (\<exists>row \<in> set (roles (db w)). r_id row = rid \<and> r = full_role (db w) row)"
  proof
    assume "\<exists>row rows. ?f (db w) = row # rows \<and> r = full_role (db w) row"
    then obtain row rows where "?f (db w) = row # rows" "r = full_role (db w) row" by blast
    then have "row \<in> set (?f (db w))" by simp
    with \<open>r = _\<close> show "\<exists>row \<in> set (roles (db w)). r_id row = rid \<and> r = full_role (db w) row"
      by auto
  next
    assume "\<exists>row \<in> set (roles (db w)). r_id row = rid \<and> r = full_role (db w) row"
    then obtain row where "row \<in> set (roles (db w))" "r_id row = rid" "r = full_role (db w) row"
      by blast
    with filter_unique [OF dist, of row]
    show "\<exists>row rows. ?f (db w) = row # rows \<and> r = full_role (db w) row" by simp
  qed
  moreover have "distinct (map r_id (?f (db w)))" using dist by (simp add: distinct_map_filter)
  ultimately show ?thesis by (simp add: repo_GetRole_def one_role_Inr_iff)
qed

lemma repo_GetRoleByKey_Inr:
  assumes "keys_ok (db w)" "repo_GetRoleByKey e key w = (Inr r, w')"
  obtains row where "row \<in> set (roles (db w))" "r_key row = key" "r = full_role (db w) row"
    "w' = tick w"
proof -
  let ?f = "\<lambda>d. filter (\<lambda>r. r_key r = key) (roles d)"
  have "distinct (map r_id (?f (db w)))"
    using keys_okD(2) [OF assms(1)] by (simp add: distinct_map_filter)
  then obtain row rows where "?f (db w) = row # rows" "r = full_role (db w) row" "w' = tick w"
    using assms(2) by (auto simp: repo_GetRoleByKey_def one_role_Inr_iff)
  then have "row \<in> set (?f (db w))" by simp
  then have "row \<in> set (roles (db w))" "r_key row = key" by simp_all
  with \<open>r = _\<close> \<open>w' = _\<close> show ?thesis by (intro that)
qed

lemma repo_GetRolesByIDs_Inr:
  assumes "keys_ok (db w)" "repo_GetRolesByIDs e ids w = (Inr rs, w')"
  shows "db w' = db w" "roleID ` set rs = set ids" "distinct (rolesToIDs rs)"
    "set rs \<subseteq> full_role (db w) ` set (roles (db w))"
proof -
  let ?rows = "order_roles e (filter (\<lambda>r. r_id r \<in> set ids) (roles (db w)))"
  have eq: "collectRoles (join_roles (db w) ?rows) = map (full_role (db w)) ?rows"
    using assms(1)
    by (intro collect_join_roles) (simp add: distinct_map_filter keys_okD)
  have dist: "distinct (map r_id ?rows)"
    using assms(1) by (simp add: distinct_map_filter keys_okD)
  have "(ids = [] \<and> rs = [] \<and> w' = w) \<or>
      (rs = map (full_role (db w)) ?rows \<and> length rs = length (remdups ids) \<and> db w' = db w)"
    using assms(2)
    by (auto simp: repo_GetRolesByIDs_def bind_op_Inr_iff select_roles_Inr_iff eq
        split: if_splits)
  then consider "ids = []" "rs = []" "w' = w"
    | "rs = map (full_role (db w)) ?rows" "length rs = length (remdups ids)" "db w' = db w"
    by blast
  note cases = this
  show "db w' = db w" by (rule cases) simp_all
  show "distinct (rolesToIDs rs)"
    by (rule cases) (use dist in \<open>simp_all add: rolesToIDs_def comp_def\<close>)
  show "set rs \<subseteq> full_role (db w) ` set (roles (db w))"
    by (rule cases) auto
  show "roleID ` set rs = set ids"
  proof (rule cases)
    assume rs: "rs = map (full_role (db w)) ?rows" and len: "length rs = length (remdups ids)"
    have sub: "r_id ` set ?rows \<subseteq> set ids" by auto
    have "card (r_id ` set ?rows) = length ?rows"
      using dist by (metis distinct_card length_map list.set_map)
    with rs len have "card (r_id ` set ?rows) = card (set ids)"
      by (simp add: length_remdups_card_conv)
    with sub have "r_id ` set ?rows = set ids" by (intro card_subset_eq) simp_all
    moreover have "roleID ` set rs = r_id ` set ?rows" by (simp add: rs image_image)
    ultimately show ?thesis by simp
  qed simp
qed

lemma LoadUserRoles_Inr:
  assumes "keys_ok (db w)" "LoadUserRoles e uid w = (Inr rs, w')"
  shows "w' = tick w" "set rs = full_role (db w) ` set (roles_held (db w) uid)"
proof -
  have "distinct (map r_id (roles_held (db w) uid))"
    using assms(1) by (simp add: roles_held_def distinct_map_filter keys_okD)
  then have "collectRoles (join_roles (db w) (order_roles e (roles_held (db w) uid)))
      = map (full_role (db w)) (order_roles e (roles_held (db w) uid))"
    by (intro collect_join_roles) simp
  with assms(2) show "w' = tick w" "set rs = full_role (db w) ` set (roles_held (db w) uid)"
    by (auto simp: LoadUserRoles_def select_roles_Inr_iff)
qed

section \<open>What the writes leave\<close>

lemma fold_role_permissions:
  "fold (\<lambda>p d. d\<lparr>role_permissions := role_permissions d @ [(rid, p)]\<rparr>) ps d
     = d\<lparr>role_permissions := role_permissions d @ map (Pair rid) ps\<rparr>"
  by (induction ps arbitrary: d) simp_all

lemma replaceRolePermissions_db:
  assumes "replaceRolePermissions e rid perms w = (Inr (), w')"
  shows "db w' = (db w)\<lparr>role_permissions :=
    delete_where (\<lambda>(r, _). r = rid) (role_permissions (db w)) @ map (Pair rid) (Slice perms)\<rparr>"
proof -
  let ?f = "\<lambda>p. query e [p] (insert_role_permission rid p) (\<lambda>pe.
    if isForeignKeyViolation pe ''role_permissions_permission_fkey''
    then invalid (''identity: validation failed: '' @ not_enforced e p) else ErrSQL pe)"
  let ?d = "(db w)\<lparr>role_permissions := delete_where (\<lambda>(r, _). r = rid) (role_permissions (db w))\<rparr>"
  from assms obtain w1 where "for_each ?f (Slice perms) w1 = (Inr (), w')" "db w1 = ?d"
    by (auto simp: replaceRolePermissions_def bind_op_Inr_iff exec_Inr_iff)
  moreover have "db y' = (db y)\<lparr>role_permissions := role_permissions (db y) @ [(rid, p)]\<rparr>"
    if "?f p y = (Inr (), y')" for p y y'
    using that by (auto simp: query_Inr_iff insert_role_permission_def split: if_splits)
  ultimately have "db w' = fold (\<lambda>p d. d\<lparr>role_permissions := role_permissions d @ [(rid, p)]\<rparr>)
      (Slice perms) (db w1)"
    by (intro for_each_db [of ?f])
  then show ?thesis by (simp add: fold_role_permissions \<open>db w1 = ?d\<close>)
qed

lemma granted_replace:
  "finite perms \<Longrightarrow>
   granted (d\<lparr>role_permissions := delete_where (\<lambda>(r, _). r = rid) (role_permissions d)
      @ map (Pair rid) (Slice perms)\<rparr>) r = (if r = rid then perms else granted d r)"
  by (auto simp: granted_def)

lemma fold_user_roles:
  "fold (\<lambda>rid d. d\<lparr>user_roles := user_roles d @ [(uid, rid)]\<rparr>) rids d
     = d\<lparr>user_roles := user_roles d @ map (Pair uid) rids\<rparr>"
  by (induction rids arbitrary: d) simp_all

lemma repo_SetUserRoles_db:
  assumes "repo_SetUserRoles e uid rids w = (Inr (), w')"
  shows "db w' = (db w)\<lparr>user_roles :=
    delete_where (\<lambda>(u, _). u = uid) (user_roles (db w)) @ map (Pair uid) rids\<rparr>"
proof -
  let ?f = "\<lambda>rid. query e [] (insert_user_role uid rid) ErrSQL"
  let ?d = "(db w)\<lparr>user_roles := delete_where (\<lambda>(u, _). u = uid) (user_roles (db w))\<rparr>"
  from assms obtain w1 where "for_each ?f rids w1 = (Inr (), w')" "db w1 = ?d"
    by (auto simp: repo_SetUserRoles_def bind_op_Inr_iff exec_Inr_iff)
  moreover have "db y' = (db y)\<lparr>user_roles := user_roles (db y) @ [(uid, rid)]\<rparr>"
    if "?f rid y = (Inr (), y')" for rid y y'
    using that by (auto simp: query_Inr_iff insert_user_role_def split: if_splits)
  ultimately have "db w' = fold (\<lambda>rid d. d\<lparr>user_roles := user_roles d @ [(uid, rid)]\<rparr>) rids (db w1)"
    by (intro for_each_db [of ?f])
  then show ?thesis by (simp add: fold_user_roles \<open>db w1 = ?d\<close>)
qed

lemma repo_DeleteRole_db:
  assumes "repo_DeleteRole e rid w = (Inr (), w')"
  shows "\<exists>r \<in> set (roles (db w)). custom_role rid r"
    and "rid \<notin> snd ` set (user_roles (db w))"
    and "db w' = (db w)\<lparr>roles := delete_where (custom_role rid) (roles (db w)),
           role_permissions := delete_where (\<lambda>(r, _). r = rid) (role_permissions (db w)),
           invitations := delete_where (\<lambda>i. i_role_id i = rid) (invitations (db w))\<rparr>"
proof -
  from assms obtain n d' where "delete_role rid (uuidv7 e (steps w)) (db w) = Inr (n, d')"
    and n: "n \<noteq> 0" and db: "db w' = d'"
    by (auto simp: repo_DeleteRole_def run_iffs split: if_splits)
  then have cnt: "count_where (custom_role rid) (roles (db w)) > 0"
    and used: "\<not> list_ex (\<lambda>(_, r). r = rid) (user_roles (db w))"
    and d': "d' = (db w)\<lparr>roles := delete_where (custom_role rid) (roles (db w)),
           role_permissions := delete_where (\<lambda>(r, _). r = rid) (role_permissions (db w)),
           invitations := delete_where (\<lambda>i. i_role_id i = rid) (invitations (db w))\<rparr>"
    by (auto simp: delete_role_def Let_def split: if_splits)
  from cnt show "\<exists>r \<in> set (roles (db w)). custom_role rid r"
    by (metis count_where_0_iff less_numeral_extra(3))
  from used show "rid \<notin> snd ` set (user_roles (db w))" by (force simp: list_ex_iff)
  from db d' show "db w' = (db w)\<lparr>roles := delete_where (custom_role rid) (roles (db w)),
           role_permissions := delete_where (\<lambda>(r, _). r = rid) (role_permissions (db w)),
           invitations := delete_where (\<lambda>i. i_role_id i = rid) (invitations (db w))\<rparr>" by simp
qed

section \<open>What the statements may do\<close>

context db_relation begin

lemma obeys_select_roles [obeys_intros]: "obeys R (select_roles e ts f)"
  unfolding select_roles_def by (intro obeys_intros)

lemma obeys_role_reads [obeys_intros]:
  "obeys R (repo_ListRoles e)" "obeys R (repo_GetRole e rid)" "obeys R (repo_GetRoleByKey e key)"
  "obeys R (repo_GetRolesByIDs e ids)" "obeys R (LoadUserRoles e uid)"
  "obeys R (CountUsersWithRole e key)" "obeys R (CountActiveUsersWithRole e key)"
  unfolding repo_ListRoles_def repo_GetRole_def repo_GetRoleByKey_def repo_GetRolesByIDs_def
    LoadUserRoles_def CountUsersWithRole_def CountActiveUsersWithRole_def one_role_def
  by (intro obeys_intros)+

end

lemma delete_role_keeps:
  assumes "delete_role rid u d = Inr (n, d')"
  shows "keeps p T d d'"
proof (cases "count_where (custom_role rid) (roles d) = 0")
  case True
  with assms show ?thesis by (simp add: delete_role_def Let_def keep.rel_refl)
next
  case False
  with assms have d': "d' = d\<lparr>roles := delete_where (custom_role rid) (roles d),
      role_permissions := delete_where (\<lambda>(r, _). r = rid) (role_permissions d),
      invitations := delete_where (\<lambda>i. i_role_id i = rid) (invitations d)\<rparr>"
    and free: "rid \<notin> snd ` set (user_roles d)"
    by (force simp: delete_role_def Let_def list_ex_iff split: if_splits)+
  from False obtain row where row: "row \<in> set (roles d)" "r_id row = rid" "\<not> r_is_system row"
    by (auto simp: count_where_0_iff custom_role_def)
  have sys: "system_roles d' = system_roles d"
    by (simp add: d' system_roles_def delete_where_def custom_role_def filter_filter)
       (metis (no_types, lifting))
  have "granted d' (r_id r) = granted d (r_id r)"
    if "keys_ok d" "r \<in> set (system_roles d)" for r
  proof -
    have "r_id r \<noteq> rid"
      using that row keys_okD(2) [OF that(1)]
      by (auto simp: system_roles_def dest: distinct_map_eqD)
    then show ?thesis by (auto simp: d' granted_def)
  qed
  moreover have "admin_held d \<Longrightarrow> admin_held d'"
    using free by (auto simp: d' admin_held_def admin_row_def custom_role_def)
  moreover have "keys_ok d \<Longrightarrow> keys_ok d'"
    by (auto simp: d' keys_ok_def delete_where_def distinct_map_filter)
  ultimately have "lawful d d'"
    using sys by (simp add: lawful_def) (simp add: d' audit_grows_def superusers_def)
  moreover have "confined p T d \<Longrightarrow> confined p T d'"
    by (erule confined_mono) (auto simp: d' granted_def superusers_def)
  ultimately show ?thesis by (simp add: keeps_def)
qed

lemma keeps_repo_DeleteRole [obeys_intros]: "obeys (keeps p T) (repo_DeleteRole e rid)"
  unfolding repo_DeleteRole_def
  by (intro obeys_intros) (rule delete_role_keeps)

lemmas lawful_repo_DeleteRole [obeys_intros] = keeps_lawful [OF keeps_repo_DeleteRole]

lemma lawful_AddUserRole [obeys_intros]: "obeys lawful (AddUserRole e uid rid)"
  unfolding AddUserRole_def
  by (intro law.obeys_query)
    (auto simp: add_user_role_def insert_user_role_def law.rel_refl
      intro!: lawful_more_user_roles split: if_splits)

section \<open>Creating and changing a role\<close>

definition put_permissions :: "uuid \<Rightarrow> permission_set \<Rightarrow> database \<Rightarrow> database" where
  "put_permissions rid s d = d\<lparr>role_permissions :=
     delete_where (\<lambda>(r, _). r = rid) (role_permissions d) @ map (Pair rid) (Slice s)\<rparr>"

lemma replaceRolePermissions_put:
  "replaceRolePermissions e rid s w = (Inr (), w') \<Longrightarrow> db w' = put_permissions rid s (db w)"
  by (simp add: replaceRolePermissions_db put_permissions_def)

lemma granted_put:
  "finite s \<Longrightarrow> granted (put_permissions rid s d) r = (if r = rid then s else granted d r)"
  by (simp add: put_permissions_def granted_replace)

lemma repo_CreateRole_Inr:
  assumes "repo_CreateRole e key name s w = (Inr r, w')"
  obtains row where "r_id row \<notin> r_id ` set (roles (db w))" "key \<notin> r_key ` set (roles (db w))"
    "r_key row = key" "r_name row = name" "\<not> r_is_system row" "r = role_of row s"
    "db w' = put_permissions (r_id row) s ((db w)\<lparr>roles := roles (db w) @ [row]\<rparr>)"
proof -
  from assms obtain row w1 onerr where
    q: "query e [key, name] (insert_role e key name) onerr w = (Inr row, w1)" and
    rep: "replaceRolePermissions e (r_id row) s w1 = (Inr (), w')" and r: "r = role_of row s"
    by (auto simp: repo_CreateRole_def bind_op_Inr_iff)
  from q have ins: "insert_role e key name (uuidv7 e (steps w)) (db w) = Inr (row, db w1)"
    by (auto simp: query_Inr_iff)
  from ins have "r_id row \<notin> r_id ` set (roles (db w))" "key \<notin> r_key ` set (roles (db w))"
    "r_key row = key" "r_name row = name" "\<not> r_is_system row"
    "db w1 = (db w)\<lparr>roles := roles (db w) @ [row]\<rparr>"
    by (auto simp: insert_role_def Let_def list_ex_iff split: if_splits)
  with that r replaceRolePermissions_put [OF rep] show ?thesis by metis
qed

lemma repo_UpdateRole_Inr:
  assumes "repo_UpdateRole e rid name s w = (Inr r, w')"
  obtains row where "row \<in> set (roles (db w))" "r_id row = rid" "\<not> r_is_system row"
    "r = role_of (rename_role e name row) s"
    "db w' = put_permissions rid s ((db w)\<lparr>roles :=
       update_where (custom_role rid) (rename_role e name) (roles (db w))\<rparr>)"
proof -
  let ?upd = "\<lambda>d. (map_option (rename_role e name) (find (custom_role rid) (roles d)),
       d\<lparr>roles := update_where (custom_role rid) (rename_role e name) (roles d)\<rparr>)"
  from assms obtain x w1 where q: "exec e [name] ?upd w = (Inr (Some x), w1)" and
    rep: "replaceRolePermissions e rid s w1 = (Inr (), w')" and r: "r = role_of x s"
    by (auto simp: repo_UpdateRole_def bind_op_Inr_iff split: option.splits)
  from q have
    found: "map_option (rename_role e name) (find (custom_role rid) (roles (db w))) = Some x" and
    w1: "db w1 = (db w)\<lparr>roles :=
       update_where (custom_role rid) (rename_role e name) (roles (db w))\<rparr>"
    by (auto simp: exec_Inr_iff)
  from found obtain row where "find (custom_role rid) (roles (db w)) = Some row"
    and x: "x = rename_role e name row" by auto
  then have "row \<in> set (roles (db w))" "r_id row = rid" "\<not> r_is_system row"
    by (auto dest!: find_SomeD simp: custom_role_def)
  with that r x w1 replaceRolePermissions_put [OF rep] show ?thesis by metis
qed

text \<open>The permissions of a custom role may be replaced; a custom role may be added.\<close>

lemma put_permissions_lawful:
  assumes "finite s" "\<forall>r \<in> set (system_roles d). r_id r \<noteq> rid"
  shows "lawful d (put_permissions rid s d)"
proof -
  have "distinct (role_permissions d) \<Longrightarrow> distinct (role_permissions (put_permissions rid s d))"
    by (auto simp: put_permissions_def delete_where_def distinct_map inj_on_def)
  moreover have "\<forall>r \<in> set (system_roles d).
      granted (put_permissions rid s d) (r_id r) = granted d (r_id r)"
    using assms by (simp add: granted_put)
  ultimately show ?thesis
    unfolding lawful_def
    by (simp add: keys_ok_def put_permissions_def superusers_def system_roles_def admin_held_def)
qed

lemma put_permissions_keeps:
  assumes "finite s" "p \<notin> s" "lawful d (put_permissions rid s d)"
  shows "keeps p T d (put_permissions rid s d)"
proof -
  have "confined p T d \<Longrightarrow> confined p T (put_permissions rid s d)"
  proof (erule confined_mono)
    show "p \<in> granted (put_permissions rid s d) r \<Longrightarrow> p \<in> granted d r" for r
      using assms(1,2) by (simp add: granted_put split: if_splits)
  qed (simp_all add: put_permissions_def superusers_def)
  with assms(3) show ?thesis by (simp add: keeps_def)
qed

lemma add_role_keeps:
  assumes "r_id row \<notin> r_id ` set (roles d)" "r_key row \<notin> r_key ` set (roles d)"
    "\<not> r_is_system row"
  shows "keeps p T d (d\<lparr>roles := roles d @ [row]\<rparr>)"
proof -
  have "lawful d (d\<lparr>roles := roles d @ [row]\<rparr>)"
    using assms by (auto simp: law_defs)
  moreover have "confined p T d \<Longrightarrow> confined p T (d\<lparr>roles := roles d @ [row]\<rparr>)"
    by (erule confined_mono) (auto simp: granted_def superusers_def)
  ultimately show ?thesis by (simp add: keeps_def)
qed

lemma rename_role_keeps:
  "keeps p T d (d\<lparr>roles := update_where (custom_role rid) (rename_role e name) (roles d)\<rparr>)"
proof -
  let ?rs = "update_where (custom_role rid) (rename_role e name) (roles d)"
  have "map r_id ?rs = map r_id (roles d)" "map r_key ?rs = map r_key (roles d)"
    by (simp_all add: rename_role_def)
  moreover have sys: "filter r_is_system ?rs = filter r_is_system (roles d)"
    by (rule filter_update_where) (simp add: custom_role_def rename_role_def)
  moreover have "admin_held d \<Longrightarrow> admin_held (d\<lparr>roles := ?rs\<rparr>)"
    unfolding admin_held_system using sys by (simp del: set_filter)
  ultimately have "lawful d (d\<lparr>roles := ?rs\<rparr>)"
    by (simp add: lawful_def superusers_def system_roles_def keys_ok_def granted_def)
  moreover have "confined p T d \<Longrightarrow> confined p T (d\<lparr>roles := ?rs\<rparr>)"
    by (erule confined_mono) (auto simp: granted_def superusers_def)
  ultimately show ?thesis by (simp add: keeps_def)
qed

end
