(* ===== verification/Users_Repo.thy ===== *)
theory Users_Repo
  imports Roles_Repo
begin

text \<open>
  \<open>internal/identity/repository.go\<close>, the sections on users and sessions: one definition
  per statement, with the row updates and the constraints of the schema.
\<close>

definition sessionTouchInterval :: duration where
  "sessionTouchInterval = 300 * second"

definition parseIP :: "env \<Rightarrow> string \<Rightarrow> string option" where
  "parseIP e s = ParseAddr e s"

section \<open>Users\<close>

definition scanUser :: "user_row \<Rightarrow> user" where
  "scanUser r =
    \<lparr>userID = u_id r, Email = u_email r, FirstName = u_first_name r, LastName = u_last_name r,
     IsSuperuser = u_is_superuser r, IsActive = u_is_active r,
     EmailVerifiedAt = u_email_verified_at r, userCreatedAt = u_created_at r,
     userUpdatedAt = u_updated_at r,
     PasswordHash = (case u_password_hash r of None \<Rightarrow> '''' | Some h \<Rightarrow> h)\<rparr>"

definition scanUserOrNotFound :: "user_row option \<Rightarrow> user op" where
  "scanUserOrNotFound r =
    (case r of None \<Rightarrow> fail_op ErrNotFound | Some row \<Rightarrow> return_op (scanUser row))"

definition insert_user ::
  "env \<Rightarrow> string \<Rightarrow> string option \<Rightarrow> string \<Rightarrow> string \<Rightarrow> user_row stmt" where
  "insert_user e email hash fn ln u d =
    (let row = \<lparr>u_id = u, u_email = email, u_password_hash = hash, u_first_name = fn,
                u_last_name = ln, u_is_superuser = False, u_is_active = True,
                u_created_at = sql_now e, u_updated_at = sql_now e,
                u_email_verified_at = None\<rparr> in
     if list_ex (\<lambda>x. u_id x = u) (users d) then Inl (UniqueViolation ''users_pkey'')
     else if list_ex (\<lambda>x. citext_eq e (u_email x) email) (users d)
       then Inl (UniqueViolation ''users_email_key'')
     else Inr (row, d\<lparr>users := users d @ [row]\<rparr>))"

definition CreateUser :: "env \<Rightarrow> string \<Rightarrow> string \<Rightarrow> string \<Rightarrow> string \<Rightarrow> user op" where
  "CreateUser e email passwordHash fn ln =
    (let hash = (if passwordHash \<noteq> '''' then Some passwordHash else None) in
     bind_op (query e [email, passwordHash, fn, ln] (insert_user e email hash fn ln)
       (\<lambda>pe. if isUniqueViolation pe ''users_email_key'' then ErrEmailTaken else ErrSQL pe))
       (\<lambda>row. return_op (scanUser row)))"

definition GetUserByEmail :: "env \<Rightarrow> string \<Rightarrow> user op" where
  "GetUserByEmail e email =
    bind_op (select e [email] (\<lambda>d. find (\<lambda>x. citext_eq e (u_email x) email) (users d)))
      scanUserOrNotFound"

definition GetUserByID :: "env \<Rightarrow> uuid \<Rightarrow> user op" where
  "GetUserByID e uid =
    bind_op (select e [] (\<lambda>d. find (\<lambda>x. u_id x = uid) (users d))) scanUserOrNotFound"

text \<open>\<open>UPDATE users \<dots> RETURNING\<close> through \<open>QueryRow\<close>: the new row, when there is one.\<close>

definition update_user ::
  "(user_row \<Rightarrow> bool) \<Rightarrow> (user_row \<Rightarrow> user_row) \<Rightarrow> database \<Rightarrow> user_row option \<times> database" where
  "update_user P f d = (map_option f (find P (users d)), d\<lparr>users := update_where P f (users d)\<rparr>)"

definition repo_SetSuperuser :: "env \<Rightarrow> string \<Rightarrow> bool \<Rightarrow> user op" where
  "repo_SetSuperuser e email flag =
    bind_op (exec e [email] (update_user (\<lambda>x. citext_eq e (u_email x) email)
        (\<lambda>x. x\<lparr>u_is_superuser := flag, u_updated_at := sql_now e\<rparr>)))
      scanUserOrNotFound"

definition repo_SetUserActive :: "env \<Rightarrow> uuid \<Rightarrow> bool \<Rightarrow> user op" where
  "repo_SetUserActive e uid flag =
    bind_op (exec e [] (update_user (\<lambda>x. u_id x = uid)
        (\<lambda>x. x\<lparr>u_is_active := flag, u_updated_at := sql_now e\<rparr>)))
      scanUserOrNotFound"

definition UpdateUserPassword :: "env \<Rightarrow> uuid \<Rightarrow> string \<Rightarrow> unit op" where
  "UpdateUserPassword e uid hash =
    bind_op (exec e [hash] (update_user (\<lambda>x. u_id x = uid)
        (\<lambda>x. x\<lparr>u_password_hash := Some hash, u_updated_at := sql_now e\<rparr>)))
      (\<lambda>r. refuse_if (r = None) ErrNotFound)"

definition MarkEmailVerified :: "env \<Rightarrow> uuid \<Rightarrow> string \<Rightarrow> user op" where
  "MarkEmailVerified e uid email =
    bind_op (exec e [email] (update_user (\<lambda>x. u_id x = uid \<and> citext_eq e (u_email x) email)
        (\<lambda>x. x\<lparr>u_email_verified_at := Some (sql_now e), u_updated_at := sql_now e\<rparr>)))
      (\<lambda>r. case r of None \<Rightarrow> fail_op ErrInvalidToken | Some row \<Rightarrow> return_op (scanUser row))"

section \<open>The user directory\<close>

text \<open>
  A row of the query: a user, and with a role the role's columns and one permission.
  \<open>roleByUser\<close> keeps the roles of a user in the order met; Go ranges over that map in
  no fixed order and then sorts, by \<open>sortRoles\<close>.
\<close>

type_synonym user_join = "user_row \<times> role_row joined option"

type_synonym directory =
  "(uuid \<rightharpoonup> user_summary) \<times> (uuid \<rightharpoonup> (uuid \<times> role) list) \<times> uuid list"

definition add_summary_permission :: "permission \<Rightarrow> user_summary \<Rightarrow> user_summary" where
  "add_summary_permission p s = s\<lparr>summaryPermissions := insert p (summaryPermissions s)\<rparr>"

fun alist_put :: "uuid \<Rightarrow> role \<Rightarrow> (uuid \<times> role) list \<Rightarrow> (uuid \<times> role) list" where
  "alist_put k v [] = [(k, v)]"
| "alist_put k v ((k', v') # xs) = (if k' = k then (k, v) # xs else (k', v') # alist_put k v xs)"

definition directory_role ::
  "role_row joined \<Rightarrow> uuid \<Rightarrow> directory \<Rightarrow> directory" where
  "directory_role rp uid st =
    (case (rp, st) of ((r, perm), byUser, roleByUser, order) \<Rightarrow>
     let mine = the (roleByUser uid);
         role = (case map_of mine (r_id r) of Some x \<Rightarrow> x | None \<Rightarrow> scan_role r) in
     case perm of
       None \<Rightarrow> (byUser, roleByUser(uid \<mapsto> alist_put (r_id r) role mine), order)
     | Some p \<Rightarrow>
         (byUser(uid \<mapsto> add_summary_permission p (the (byUser uid))),
          roleByUser(uid \<mapsto> alist_put (r_id r) (add_role_permission p role) mine), order))"

fun directory_loop :: "nat \<Rightarrow> user_join list \<Rightarrow> directory \<Rightarrow> directory" where
  "directory_loop limit [] st = st"
| "directory_loop limit ((x, rp) # rows) (byUser, roleByUser, order) =
    (let uid = u_id x; seen = (byUser uid \<noteq> None) in
     if \<not> seen \<and> length order = limit then (byUser, roleByUser, order)
     else
       let st = (if seen then (byUser, roleByUser, order)
                 else (byUser(uid \<mapsto> \<lparr>summaryUser = scanUser x, summaryRoles = [],
                                     summaryPermissions = {}\<rparr>),
                       roleByUser(uid \<mapsto> []), order @ [uid])) in
       directory_loop limit rows
         (case rp of None \<Rightarrow> st | Some r \<Rightarrow> directory_role r uid st))"

definition directory_out :: "directory \<Rightarrow> user_summary list" where
  "directory_out st =
    (case st of (byUser, roleByUser, order) \<Rightarrow>
     map (\<lambda>uid. (the (byUser uid))\<lparr>summaryRoles := sortRoles (map snd (the (roleByUser uid)))\<rparr>)
       order)"

text \<open>
  \<open>ORDER BY users.id DESC, r.is_system DESC, r.key\<close>, with the users below the cursor.
\<close>

definition users_before :: "uuid \<Rightarrow> database \<Rightarrow> user_row list" where
  "users_before before d =
    rev (sort_key u_id (filter (\<lambda>x. before = uuid_Nil \<or> u_id x < before) (users d)))"

definition user_joins :: "env \<Rightarrow> database \<Rightarrow> user_row \<Rightarrow> user_join list" where
  "user_joins e d x =
    (case order_roles e (roles_held d (u_id x)) of
       [] \<Rightarrow> [(x, None)]
     | rs \<Rightarrow> map (\<lambda>rp. (x, Some rp)) (join_roles d rs))"

definition user_limit :: "int \<Rightarrow> int" where
  "user_limit limit = (if limit \<le> 0 \<or> limit > 200 then 50 else limit)"

definition repo_ListUsers :: "env \<Rightarrow> uuid \<Rightarrow> int \<Rightarrow> user_summary list op" where
  "repo_ListUsers e before limit =
    bind_op (select e [] (\<lambda>d. concat (map (user_joins e d) (users_before before d)))) (\<lambda>rows.
      return_op (directory_out
        (directory_loop (nat (user_limit limit)) rows (Map.empty, Map.empty, []))))"

section \<open>Sessions\<close>

definition scanSession :: "session_row \<Rightarrow> session" where
  "scanSession r =
    \<lparr>sessionID = s_id r, sessionUserID = s_user_id r, sessionExpiresAt = s_expires_at r,
     sessionRevokedAt = s_revoked_at r, sessionUserAgent = s_user_agent r,
     sessionIPAddress = (case s_ip_address r of None \<Rightarrow> '''' | Some ip \<Rightarrow> ip),
     sessionLastUsedAt = s_last_used_at r, sessionCreatedAt = s_created_at r,
     sessionTokenHash = ''''\<rparr>"

definition insert_session ::
  "env \<Rightarrow> uuid \<Rightarrow> bytes \<Rightarrow> time \<Rightarrow> string \<Rightarrow> string option \<Rightarrow> session_row stmt" where
  "insert_session e uid digest expiresAt ua ip u d =
    (let row = \<lparr>s_id = u, s_user_id = uid, s_token_hash = digest, s_expires_at = expiresAt,
                s_revoked_at = None, s_user_agent = ua, s_ip_address = ip,
                s_last_used_at = None, s_created_at = sql_now e\<rparr> in
     if list_ex (\<lambda>x. s_id x = u) (sessions d) then Inl (UniqueViolation ''sessions_pkey'')
     else if list_ex (\<lambda>x. s_token_hash x = digest) (sessions d)
       then Inl (UniqueViolation ''sessions_token_hash_key'')
     else if \<not> list_ex (\<lambda>x. u_id x = uid) (users d)
       then Inl (ForeignKeyViolation ''sessions_user_id_fkey'')
     else Inr (row, d\<lparr>sessions := sessions d @ [row]\<rparr>))"

definition CreateSession ::
  "env \<Rightarrow> uuid \<Rightarrow> bytes \<Rightarrow> time \<Rightarrow> string \<Rightarrow> string \<Rightarrow> session op" where
  "CreateSession e uid digest expiresAt ua ip =
    bind_op (query e [ua] (insert_session e uid digest expiresAt ua (parseIP e ip)) ErrSQL) (\<lambda>row.
      return_op ((scanSession row)\<lparr>sessionTokenHash := digest\<rparr>))"

definition live_session :: "env \<Rightarrow> bytes \<Rightarrow> session_row \<Rightarrow> bool" where
  "live_session e digest s \<longleftrightarrow>
     s_token_hash s = digest \<and> s_revoked_at s = None \<and> s_expires_at s > sql_now e"

text \<open>The touch of \<open>last_used_at\<close>, at most once per interval; both touches share it.\<close>

definition touch_due :: "env \<Rightarrow> time option \<Rightarrow> bool" where
  "touch_due e lastUsed \<longleftrightarrow>
     (case lastUsed of None \<Rightarrow> True | Some t \<Rightarrow> t < sql_now e - sessionTouchInterval)"

text \<open>
  The statement: \<open>live\<close> and the touch see the same snapshot, so the row returned is the
  one before the touch; the touch runs whether or not the user is active.
\<close>

definition auth_session ::
  "env \<Rightarrow> bytes \<Rightarrow> database \<Rightarrow> (user_row \<times> session_row) option \<times> database" where
  "auth_session e digest d =
    (case find (live_session e digest) (sessions d) of
       None \<Rightarrow> (None, d)
     | Some s \<Rightarrow>
        (case find (\<lambda>x. u_id x = s_user_id s \<and> u_is_active x) (users d) of
           None \<Rightarrow> None | Some x \<Rightarrow> Some (x, s),
         d\<lparr>sessions := update_where
             (\<lambda>t. live_session e digest t \<and> touch_due e (s_last_used_at t))
             (\<lambda>t. t\<lparr>s_last_used_at := Some (sql_now e)\<rparr>) (sessions d)\<rparr>))"

definition AuthenticateSession :: "env \<Rightarrow> bytes \<Rightarrow> (user \<times> session) op" where
  "AuthenticateSession e digest =
    bind_op (exec e [] (auth_session e digest)) (\<lambda>r.
    case r of
      None \<Rightarrow> fail_op ErrUnauthenticated
    | Some (x, s) \<Rightarrow> return_op (scanUser x, (scanSession s)\<lparr>sessionTokenHash := digest\<rparr>))"

text \<open>The revocations: \<open>SET revoked_at = now()\<close> where the row is still unrevoked.\<close>

definition revoke_sessions ::
  "env \<Rightarrow> (session_row \<Rightarrow> bool) \<Rightarrow> database \<Rightarrow> nat \<times> database" where
  "revoke_sessions e P d =
    (let Q = (\<lambda>s. P s \<and> s_revoked_at s = None) in
     (count_where Q (sessions d),
      d\<lparr>sessions := update_where Q (\<lambda>s. s\<lparr>s_revoked_at := Some (sql_now e)\<rparr>) (sessions d)\<rparr>))"

definition repo_RevokeSession :: "env \<Rightarrow> bytes \<Rightarrow> unit op" where
  "repo_RevokeSession e digest =
    bind_op (exec e [] (revoke_sessions e (\<lambda>s. s_token_hash s = digest))) (\<lambda>_. return_op ())"

definition RevokeUserSessions :: "env \<Rightarrow> uuid \<Rightarrow> nat op" where
  "RevokeUserSessions e uid = exec e [] (revoke_sessions e (\<lambda>s. s_user_id s = uid))"

definition RevokeSessionByID :: "env \<Rightarrow> uuid \<Rightarrow> uuid \<Rightarrow> unit op" where
  "RevokeSessionByID e uid sid =
    bind_op (exec e [] (revoke_sessions e (\<lambda>s. s_id s = sid \<and> s_user_id s = uid))) (\<lambda>n.
      refuse_if (n = 0) ErrNotFound)"

definition ListUserSessions :: "env \<Rightarrow> uuid \<Rightarrow> session list op" where
  "ListUserSessions e uid =
    bind_op (select e [] (\<lambda>d. rev (sort_key s_id (filter (\<lambda>s. s_user_id s = uid
        \<and> s_revoked_at s = None \<and> s_expires_at s > sql_now e) (sessions d))))) (\<lambda>rows.
      return_op (map scanSession rows))"

text \<open>Long dead: past its end, or closed, by more than the retention.\<close>

definition dead :: "env \<Rightarrow> duration \<Rightarrow> time \<Rightarrow> time option \<Rightarrow> bool" where
  "dead e retain expiresAt closedAt \<longleftrightarrow>
     expiresAt < sql_now e - retain
   \<or> (case closedAt of None \<Rightarrow> False | Some t \<Rightarrow> t < sql_now e - retain)"

definition DeleteDeadSessions :: "env \<Rightarrow> duration \<Rightarrow> nat op" where
  "DeleteDeadSessions e retain =
    exec e [] (\<lambda>d. let P = (\<lambda>s. dead e retain (s_expires_at s) (s_revoked_at s)) in
      (count_where P (sessions d), d\<lparr>sessions := delete_where P (sessions d)\<rparr>))"

section \<open>The directory loop builds one summary per user\<close>

lemma alist_put_absent: "k \<notin> fst ` set xs \<Longrightarrow> alist_put k v xs = xs @ [(k, v)]"
  by (induction xs) auto

lemma alist_put_last: "k \<notin> fst ` set xs \<Longrightarrow> alist_put k v (xs @ [(k, v')]) = xs @ [(k, v)]"
  by (induction xs) auto

lemma map_of_last: "k \<notin> fst ` set xs \<Longrightarrow> map_of (xs @ [(k, v)]) k = Some v"
  by (induction xs) auto

lemma map_of_absent: "k \<notin> fst ` set xs \<Longrightarrow> map_of xs k = None"
  by (simp add: map_of_eq_None_iff)

abbreviation grant_summary :: "permission_set \<Rightarrow> user_summary \<Rightarrow> user_summary" where
  "grant_summary ps s \<equiv> s\<lparr>summaryPermissions := summaryPermissions s \<union> ps\<rparr>"

lemma directory_known_role:
  assumes "r_id r \<notin> fst ` set mine"
  shows "fold (\<lambda>p. directory_role (r, Some p) uid) ps
      (bu(uid \<mapsto> s), rbu(uid \<mapsto> mine @ [(r_id r, role_of r qs)]), order)
    = (bu(uid \<mapsto> grant_summary (set ps) s),
       rbu(uid \<mapsto> mine @ [(r_id r, role_of r (qs \<union> set ps))]), order)"
proof (induction ps arbitrary: s qs)
  case (Cons p ps)
  have "directory_role (r, Some p) uid
      (bu(uid \<mapsto> s), rbu(uid \<mapsto> mine @ [(r_id r, role_of r qs)]), order)
    = (bu(uid \<mapsto> grant_summary {p} s),
       rbu(uid \<mapsto> mine @ [(r_id r, role_of r (insert p qs))]), order)"
    using assms
    by (simp add: directory_role_def map_of_last alist_put_last role_rows.add_full
        add_summary_permission_def del: map_of_append)
  with Cons.IH [of "grant_summary {p} s" "insert p qs"] show ?case
    by (simp add: insert_commute del: fun_upd_apply)
qed simp

lemma directory_one_role:
  assumes "r_id r \<notin> fst ` set mine"
  shows "fold (\<lambda>rp. directory_role rp uid) (left_join perms r)
      (bu(uid \<mapsto> s), rbu(uid \<mapsto> mine), order)
    = (bu(uid \<mapsto> grant_summary (set (perms r)) s),
       rbu(uid \<mapsto> mine @ [(r_id r, role_of r (set (perms r)))]), order)"
proof (cases "perms r")
  case Nil
  with assms show ?thesis
    by (simp add: left_join_def directory_role_def map_of_absent alist_put_absent scan_role_def)
next
  case (Cons p ps)
  have first: "directory_role (r, Some p) uid (bu(uid \<mapsto> s), rbu(uid \<mapsto> mine), order)
    = (bu(uid \<mapsto> grant_summary {p} s), rbu(uid \<mapsto> mine @ [(r_id r, role_of r {p})]), order)"
    using assms
    by (simp add: directory_role_def map_of_absent alist_put_absent scan_role_def
        role_rows.add_full add_summary_permission_def)
  have "fold (\<lambda>rp. directory_role rp uid) (left_join perms r) st
      = fold (\<lambda>p. directory_role (r, Some p) uid) ps (directory_role (r, Some p) uid st)" for st
    by (simp add: left_join_def Cons fold_map comp_def)
  with first directory_known_role [OF assms, of uid ps bu "grant_summary {p} s" rbu "{p}"]
  show ?thesis by (simp add: Cons)
qed

lemma directory_roles:
  assumes "distinct (map r_id rs)" "\<forall>r \<in> set rs. r_id r \<notin> fst ` set mine"
  shows "fold (\<lambda>rp. directory_role rp uid) (left_joins perms rs)
      (bu(uid \<mapsto> s), rbu(uid \<mapsto> mine), order)
    = (bu(uid \<mapsto> grant_summary (\<Union>r \<in> set rs. set (perms r)) s),
       rbu(uid \<mapsto> mine @ map (\<lambda>r. (r_id r, role_of r (set (perms r)))) rs), order)"
  using assms
proof (induction rs arbitrary: s mine)
  case (Cons r rs)
  have fresh: "\<forall>r' \<in> set rs. r_id r' \<notin> fst ` set (mine @ [(r_id r, role_of r (set (perms r)))])"
    using Cons.prems by (auto simp: image_iff)
  let ?mine = "mine @ [(r_id r, role_of r (set (perms r)))]"
  let ?s = "grant_summary (set (perms r)) s"
  have "fold (\<lambda>rp. directory_role rp uid) (left_joins perms (r # rs))
        (bu(uid \<mapsto> s), rbu(uid \<mapsto> mine), order)
      = fold (\<lambda>rp. directory_role rp uid) (left_joins perms rs)
          (fold (\<lambda>rp. directory_role rp uid) (left_join perms r)
            (bu(uid \<mapsto> s), rbu(uid \<mapsto> mine), order))"
    by (simp only: left_joins_def list.map concat.simps fold_append comp_apply)
  also have "\<dots> = fold (\<lambda>rp. directory_role rp uid) (left_joins perms rs)
      (bu(uid \<mapsto> ?s), rbu(uid \<mapsto> ?mine), order)"
    using Cons.prems by (subst directory_one_role) simp_all
  also have "\<dots> = (bu(uid \<mapsto> grant_summary (\<Union>r \<in> set rs. set (perms r)) ?s),
       rbu(uid \<mapsto> ?mine @ map (\<lambda>r. (r_id r, role_of r (set (perms r)))) rs), order)"
    using Cons.prems fresh by (intro Cons.IH) simp_all
  finally show ?case by (simp add: Un_assoc del: fun_upd_apply)
qed (simp add: left_joins_def)

lemma directory_loop_seen:
  assumes "byUser (u_id x) \<noteq> None"
  shows "directory_loop limit (map (\<lambda>rp. (x, Some rp)) rps @ rest) (byUser, roleByUser, order)
    = directory_loop limit rest
        (fold (\<lambda>rp. directory_role rp (u_id x)) rps (byUser, roleByUser, order))"
  using assms
proof (induction rps arbitrary: byUser roleByUser)
  case (Cons rp rps)
  obtain bu rbu order' where
    step: "directory_role rp (u_id x) (byUser, roleByUser, order) = (bu, rbu, order')"
    by (metis prod.exhaust)
  obtain r perm where rp: "rp = (r, perm)" by fastforce
  from step rp Cons.prems have "bu (u_id x) \<noteq> None" "order' = order"
    by (auto simp: directory_role_def Let_def split: option.splits)
  with Cons step show ?case by (auto simp: Let_def)
qed simp

definition directory_entry :: "env \<Rightarrow> database \<Rightarrow> user_row \<Rightarrow> user_summary" where
  "directory_entry e d x =
    \<lparr>summaryUser = scanUser x, summaryRoles = [],
     summaryPermissions = (\<Union>r \<in> set (roles_held d (u_id x)). granted d (r_id r))\<rparr>"

definition directory_held :: "env \<Rightarrow> database \<Rightarrow> user_row \<Rightarrow> (uuid \<times> role) list" where
  "directory_held e d x =
    map (\<lambda>r. (r_id r, full_role d r)) (order_roles e (roles_held d (u_id x)))"

lemma set_perms_of_role: "set (perms_of_role d r) = granted d (r_id r)"
  by (force simp: perms_of_role_def granted_def)

lemma directory_one_user:
  assumes "distinct (map r_id (roles d))" "byUser (u_id x) = None" "length order \<noteq> limit"
  shows "directory_loop limit (user_joins e d x @ rest) (byUser, roleByUser, order)
    = directory_loop limit rest
        (byUser(u_id x \<mapsto> directory_entry e d x), roleByUser(u_id x \<mapsto> directory_held e d x),
         order @ [u_id x])"
proof (cases "order_roles e (roles_held d (u_id x))")
  case Nil
  then have "roles_held d (u_id x) = []" by (metis set_order_roles set_empty)
  with Nil assms show ?thesis
    by (simp add: user_joins_def directory_entry_def directory_held_def Let_def)
next
  case (Cons r rs)
  let ?held = "order_roles e (roles_held d (u_id x))"
  let ?s0 = "\<lparr>summaryUser = scanUser x, summaryRoles = [], summaryPermissions = {}\<rparr>"
  have ne: "join_roles d ?held \<noteq> []"
    by (simp add: Cons join_roles_def left_joins_def left_join_def split: list.split)
  have "directory_loop limit (map (\<lambda>rp. (x, Some rp)) (join_roles d ?held) @ rest)
        (byUser, roleByUser, order)
      = directory_loop limit (map (\<lambda>rp. (x, Some rp)) (join_roles d ?held) @ rest)
        (byUser(u_id x \<mapsto> ?s0), roleByUser(u_id x \<mapsto> []), order @ [u_id x])"
    using ne assms(2,3) by (cases "join_roles d ?held") (simp_all add: Let_def)
  also have "\<dots> = directory_loop limit rest
      (fold (\<lambda>rp. directory_role rp (u_id x)) (left_joins (perms_of_role d) ?held)
        (byUser(u_id x \<mapsto> ?s0), roleByUser(u_id x \<mapsto> []), order @ [u_id x]))"
    by (subst directory_loop_seen) (simp_all add: join_roles_def)
  also have "\<dots> = directory_loop limit rest
        (byUser(u_id x \<mapsto> directory_entry e d x), roleByUser(u_id x \<mapsto> directory_held e d x),
         order @ [u_id x])"
    using assms(1)
    by (subst directory_roles)
      (simp_all add: roles_held_def distinct_map_filter directory_entry_def directory_held_def
        set_perms_of_role full_role_def)
  finally show ?thesis by (simp add: user_joins_def Cons)
qed

lemma directory_full:
  "byUser (u_id x) = None \<Longrightarrow> length order = limit \<Longrightarrow>
   directory_loop limit (user_joins e d x @ rest) (byUser, roleByUser, order)
     = (byUser, roleByUser, order)"
  by (cases "order_roles e (roles_held d (u_id x))")
    (auto simp: user_joins_def join_roles_def left_joins_def left_join_def split: list.split)

definition summary_of :: "env \<Rightarrow> database \<Rightarrow> user_row \<Rightarrow> user_summary" where
  "summary_of e d x =
    \<lparr>summaryUser = scanUser x,
     summaryRoles = sortRoles (map (full_role d) (order_roles e (roles_held d (u_id x)))),
     summaryPermissions = (\<Union>r \<in> set (roles_held d (u_id x)). granted d (r_id r))\<rparr>"

lemma directory_users:
  assumes "distinct (map r_id (roles d))" "distinct (map u_id us)"
    and "\<forall>x \<in> set us. byUser (u_id x) = None" "length order \<le> limit"
    and "\<forall>uid \<in> set order. byUser uid \<noteq> None"
  shows "directory_out (directory_loop limit (concat (map (user_joins e d) us))
           (byUser, roleByUser, order))
       = directory_out (byUser, roleByUser, order)
         @ map (summary_of e d) (take (limit - length order) us)"
  using assms(2-)
proof (induction us arbitrary: byUser roleByUser order)
  case (Cons x us)
  show ?case
  proof (cases "length order = limit")
    case True
    with Cons.prems show ?thesis by (simp add: directory_full)
  next
    case False
    let ?bu = "byUser(u_id x \<mapsto> directory_entry e d x)"
    let ?rbu = "roleByUser(u_id x \<mapsto> directory_held e d x)"
    have new: "u_id x \<notin> set order" using Cons.prems by auto
    have "directory_out (directory_loop limit (concat (map (user_joins e d) us))
            (?bu, ?rbu, order @ [u_id x]))
        = directory_out (?bu, ?rbu, order @ [u_id x])
          @ map (summary_of e d) (take (limit - length (order @ [u_id x])) us)"
      using Cons.prems False by (intro Cons.IH) (auto simp: image_iff)
    moreover have "directory_out (?bu, ?rbu, order @ [u_id x])
        = directory_out (byUser, roleByUser, order) @ [summary_of e d x]"
      using new
      by (auto simp: directory_out_def directory_entry_def directory_held_def summary_of_def
          comp_def)
    moreover have "limit - length order = Suc (limit - length (order @ [u_id x]))"
      using False Cons.prems(3) by simp
    moreover have "byUser (u_id x) = None" using Cons.prems by simp
    ultimately show ?thesis
      using directory_one_user [OF assms(1), where byUser = byUser and x = x] False by simp
  qed
qed simp

lemma directory_users_before:
  assumes "keys_ok d"
  shows "directory_out (directory_loop n (concat (map (user_joins e d) (users_before before d)))
           (Map.empty, Map.empty, []))
       = map (summary_of e d) (take n (users_before before d))"
proof -
  have "distinct (map u_id (users_before before d))"
    using keys_okD(1) [OF assms]
    by (auto simp: users_before_def distinct_map elim: inj_on_subset)
  then have "directory_out (directory_loop n (concat (map (user_joins e d) (users_before before d)))
           (Map.empty, Map.empty, []))
       = directory_out (Map.empty, Map.empty, [])
         @ map (summary_of e d) (take (n - length ([] :: uuid list)) (users_before before d))"
    using keys_okD(2) [OF assms] by (intro directory_users) auto
  then show ?thesis by (simp add: directory_out_def)
qed

section \<open>What the statements may do\<close>

context db_relation begin

lemma obeys_user_reads [obeys_intros]:
  "obeys R (scanUserOrNotFound r)" "obeys R (GetUserByEmail e email)" "obeys R (GetUserByID e uid)"
  "obeys R (repo_ListUsers e before limit)" "obeys R (ListUserSessions e uid)"
  unfolding GetUserByEmail_def GetUserByID_def repo_ListUsers_def ListUserSessions_def
    scanUserOrNotFound_def
  by (intro obeys_intros)+

end

lemma insert_user_keeps: "insert_user e email hash fn ln u d = Inr (row, d') \<Longrightarrow> keeps p T d d'"
proof -
  assume run: "insert_user e email hash fn ln u d = Inr (row, d')"
  then have "u \<notin> u_id ` set (users d)" "u_id row = u" "\<not> u_is_superuser row"
    and d': "d' = d\<lparr>users := users d @ [row]\<rparr>"
    by (auto simp: insert_user_def Let_def list_ex_iff split: if_splits)
  have "superusers (d\<lparr>users := users d @ [row]\<rparr>) \<subseteq> superusers d"
    using \<open>\<not> u_is_superuser row\<close> unfolding superusers_def by auto
  moreover have "distinct (map u_id (users d)) \<Longrightarrow> distinct (map u_id (users d @ [row]))"
    using \<open>u \<notin> _\<close> \<open>u_id row = u\<close> by simp
  ultimately show ?thesis unfolding d' by (intro keeps_users)
qed

lemma keeps_CreateUser [obeys_intros]: "obeys (keeps p T) (CreateUser e email h fn ln)"
  unfolding CreateUser_def Let_def
  by (intro obeys_intros) (rule insert_user_keeps)

lemma update_user_keeps:
  assumes "\<And>x. u_id (f x) = u_id x" "\<And>x. u_is_superuser (f x) = u_is_superuser x"
  shows "keeps p T d (snd (update_user P f d))"
proof -
  have "superusers (d\<lparr>users := update_where P f (users d)\<rparr>) \<subseteq> superusers d"
  proof
    fix i assume "i \<in> superusers (d\<lparr>users := update_where P f (users d)\<rparr>)"
    then obtain y where "y \<in> set (update_where P f (users d))" "u_is_superuser y" "i = u_id y"
      unfolding superusers_def by auto
    with assms show "i \<in> superusers d"
      by (elim in_update_whereE) (simp_all add: superusers_def)
  qed
  then show ?thesis
    unfolding update_user_def snd_conv using assms(1) by (intro keeps_users) simp_all
qed

lemma keeps_user_updates [obeys_intros]:
  "obeys (keeps p T) (repo_SetUserActive e uid flag)"
  "obeys (keeps p T) (UpdateUserPassword e uid hash)"
  "obeys (keeps p T) (MarkEmailVerified e uid email)"
proof -
  show "obeys (keeps p T) (repo_SetUserActive e uid flag)"
    unfolding repo_SetUserActive_def by (intro obeys_intros update_user_keeps) simp_all
  show "obeys (keeps p T) (UpdateUserPassword e uid hash)"
    unfolding UpdateUserPassword_def by (intro obeys_intros update_user_keeps) simp_all
  show "obeys (keeps p T) (MarkEmailVerified e uid email)"
    unfolding MarkEmailVerified_def by (intro obeys_intros update_user_keeps) simp_all
qed

lemma insert_session_keeps:
  "insert_session e uid digest t ua ip u d = Inr (row, d') \<Longrightarrow> keeps p T d d'"
  by (auto simp: insert_session_def Let_def list_ex_iff intro!: keeps_sessions split: if_splits)

lemma revoke_sessions_keeps: "keeps p T d (snd (revoke_sessions e P d))"
  by (simp add: revoke_sessions_def Let_def keeps_sessions)

lemma auth_session_keeps: "keeps p T d (snd (auth_session e digest d))"
  by (auto simp: auth_session_def keep.rel_refl intro!: keeps_sessions split: option.split)

lemma keeps_session_ops [obeys_intros]:
  "obeys (keeps p T) (CreateSession e uid digest t ua ip)"
  "obeys (keeps p T) (AuthenticateSession e digest)"
  "obeys (keeps p T) (repo_RevokeSession e digest)"
  "obeys (keeps p T) (RevokeUserSessions e uid)"
  "obeys (keeps p T) (RevokeSessionByID e uid sid)"
  "obeys (keeps p T) (DeleteDeadSessions e retain)"
proof -
  show "obeys (keeps p T) (CreateSession e uid digest t ua ip)"
    unfolding CreateSession_def by (intro obeys_intros) (rule insert_session_keeps)
  show "obeys (keeps p T) (AuthenticateSession e digest)"
    unfolding AuthenticateSession_def by (intro obeys_intros auth_session_keeps)
  show "obeys (keeps p T) (repo_RevokeSession e digest)" "obeys (keeps p T) (RevokeUserSessions e uid)"
    "obeys (keeps p T) (RevokeSessionByID e uid sid)"
    unfolding repo_RevokeSession_def RevokeUserSessions_def RevokeSessionByID_def
    by (intro obeys_intros revoke_sessions_keeps)+
  show "obeys (keeps p T) (DeleteDeadSessions e retain)"
    unfolding DeleteDeadSessions_def
    by (intro obeys_intros) (simp add: Let_def keeps_sessions distinct_map_delete_where)
qed

lemmas lawful_user_ops [obeys_intros] = keeps_CreateUser [THEN keeps_lawful]
  keeps_user_updates [THEN keeps_lawful] keeps_session_ops [THEN keeps_lawful]

section \<open>What a successful write leaves\<close>

lemma CreateUser_Inr:
  assumes "CreateUser e email hash fn ln w = (Inr u, w')"
  obtains row where "u = scanUser row" "u_id row \<notin> u_id ` set (users (db w))"
    "\<forall>x \<in> set (users (db w)). \<not> citext_eq e (u_email x) email"
    "u_email row = email" "u_first_name row = fn" "u_last_name row = ln"
    "u_password_hash row = (if hash = '''' then None else Some hash)"
    "u_is_active row" "\<not> u_is_superuser row" "u_email_verified_at row = None"
    "db w' = (db w)\<lparr>users := users (db w) @ [row]\<rparr>"
proof -
  let ?h = "if hash \<noteq> '''' then Some hash else None"
  from assms obtain row d' where u: "u = scanUser row" and
    ins: "insert_user e email ?h fn ln (uuidv7 e (steps w)) (db w) = Inr (row, d')"
    and "db w' = d'"
    by (auto simp: CreateUser_def Let_def bind_op_Inr_iff query_Inr_iff split: if_splits)
  from ins have "u_id row \<notin> u_id ` set (users (db w))"
    "\<forall>x \<in> set (users (db w)). \<not> citext_eq e (u_email x) email"
    "u_email row = email" "u_first_name row = fn" "u_last_name row = ln"
    "u_password_hash row = ?h"
    "u_is_active row" "\<not> u_is_superuser row" "u_email_verified_at row = None"
    "d' = (db w)\<lparr>users := users (db w) @ [row]\<rparr>"
    by (auto simp: insert_user_def Let_def list_ex_iff split: if_splits)
  with u \<open>db w' = d'\<close> show ?thesis by (intro that [of row]) simp_all
qed

lemma scanUser_sel [simp]:
  "userID (scanUser r) = u_id r" "Email (scanUser r) = u_email r"
  "IsSuperuser (scanUser r) = u_is_superuser r" "IsActive (scanUser r) = u_is_active r"
  "EmailVerifiedAt (scanUser r) = u_email_verified_at r"
  by (simp_all add: scanUser_def)

lemma AddUserRole_Inr:
  assumes "AddUserRole e uid rid w = (Inr x, w')"
  shows "db w' = (db w)\<lparr>user_roles := (if (uid, rid) \<in> set (user_roles (db w))
     then user_roles (db w) else user_roles (db w) @ [(uid, rid)])\<rparr>"
  using assms
  by (auto simp: AddUserRole_def query_Inr_iff add_user_role_def insert_user_role_def
      split: if_splits)


lemma GetUserByID_Inr:
  assumes "GetUserByID e uid w = (Inr u, w')"
  obtains x where "x \<in> set (users (db w))" "u_id x = uid" "u = scanUser x" "w' = tick w"
proof -
  from assms obtain x where "find (\<lambda>x. u_id x = uid) (users (db w)) = Some x" "u = scanUser x"
    "w' = tick w"
    by (auto simp: GetUserByID_def bind_op_Inr_iff select_Inr_iff scanUserOrNotFound_def
        split: option.splits)
  with that show ?thesis by (blast dest: find_SomeD)
qed

lemma GetUserByEmail_Inr:
  assumes "GetUserByEmail e email w = (Inr u, w')"
  obtains x where "x \<in> set (users (db w))" "citext_eq e (u_email x) email" "u = scanUser x"
    "w' = tick w"
proof -
  from assms obtain x where "find (\<lambda>x. citext_eq e (u_email x) email) (users (db w)) = Some x"
    "u = scanUser x" "w' = tick w"
    by (auto simp: GetUserByEmail_def bind_op_Inr_iff select_Inr_iff scanUserOrNotFound_def
        split: option.splits)
  with that show ?thesis by (blast dest: find_SomeD)
qed

lemma scanUser_hash:
  "PasswordHash (scanUser x) \<noteq> '''' \<Longrightarrow> u_password_hash x = Some (PasswordHash (scanUser x))"
  by (simp add: scanUser_def split: option.splits)

end
