(* ===== verification/Links_Repo.thy ===== *)
theory Links_Repo
  imports Users_Repo
begin

text \<open>
  \<open>internal/identity/repository.go\<close>, the sections on password resets, email verifications
  and invitations: the three tables behind the links the application mails out.
\<close>

section \<open>Password resets\<close>

definition insert_reset ::
  "env \<Rightarrow> uuid \<Rightarrow> bytes \<Rightarrow> time \<Rightarrow> string option \<Rightarrow> string \<Rightarrow> unit stmt" where
  "insert_reset e uid digest expiresAt ip ua u d =
    (let row = \<lparr>pr_id = u, pr_user_id = uid, pr_token_hash = digest, pr_expires_at = expiresAt,
                pr_used_at = None, pr_created_at = sql_now e, pr_ip_address = ip,
                pr_user_agent = ua\<rparr> in
     if list_ex (\<lambda>x. pr_id x = u) (password_resets d)
       then Inl (UniqueViolation ''password_resets_pkey'')
     else if list_ex (\<lambda>x. pr_token_hash x = digest) (password_resets d)
       then Inl (UniqueViolation ''password_resets_token_hash_key'')
     else if \<not> list_ex (\<lambda>x. u_id x = uid) (users d)
       then Inl (ForeignKeyViolation ''password_resets_user_id_fkey'')
     else Inr ((), d\<lparr>password_resets := password_resets d @ [row]\<rparr>))"

definition CreatePasswordReset ::
  "env \<Rightarrow> uuid \<Rightarrow> bytes \<Rightarrow> time \<Rightarrow> string \<Rightarrow> string \<Rightarrow> unit op" where
  "CreatePasswordReset e uid digest expiresAt ip ua =
    query e [ua] (insert_reset e uid digest expiresAt (parseIP e ip) ua) ErrSQL"

definition live_reset :: "env \<Rightarrow> bytes \<Rightarrow> reset_row \<Rightarrow> bool" where
  "live_reset e digest r \<longleftrightarrow>
     pr_token_hash r = digest \<and> pr_used_at r = None \<and> pr_expires_at r > sql_now e"

definition spend_resets ::
  "env \<Rightarrow> (reset_row \<Rightarrow> bool) \<Rightarrow> database \<Rightarrow> database" where
  "spend_resets e P d =
    d\<lparr>password_resets := update_where P (\<lambda>r. r\<lparr>pr_used_at := Some (sql_now e)\<rparr>)
        (password_resets d)\<rparr>"

definition ConsumePasswordReset :: "env \<Rightarrow> bytes \<Rightarrow> uuid op" where
  "ConsumePasswordReset e digest =
    bind_op (exec e [] (\<lambda>d.
      (map_option pr_user_id (find (live_reset e digest) (password_resets d)),
       spend_resets e (live_reset e digest) d))) (\<lambda>r.
    case r of None \<Rightarrow> fail_op ErrInvalidToken | Some uid \<Rightarrow> return_op uid)"

definition InvalidatePasswordResets :: "env \<Rightarrow> uuid \<Rightarrow> unit op" where
  "InvalidatePasswordResets e uid =
    exec e [] (\<lambda>d. ((), spend_resets e (\<lambda>r. pr_user_id r = uid \<and> pr_used_at r = None) d))"

definition DeleteDeadPasswordResets :: "env \<Rightarrow> duration \<Rightarrow> nat op" where
  "DeleteDeadPasswordResets e retain =
    exec e [] (\<lambda>d. let P = (\<lambda>r. dead e retain (pr_expires_at r) (pr_used_at r)) in
      (count_where P (password_resets d),
       d\<lparr>password_resets := delete_where P (password_resets d)\<rparr>))"

section \<open>Email verifications\<close>

definition insert_verification ::
  "env \<Rightarrow> uuid \<Rightarrow> string \<Rightarrow> bytes \<Rightarrow> time \<Rightarrow> unit stmt" where
  "insert_verification e uid email digest expiresAt u d =
    (let row = \<lparr>ev_id = u, ev_user_id = uid, ev_email = email, ev_token_hash = digest,
                ev_expires_at = expiresAt, ev_used_at = None, ev_created_at = sql_now e\<rparr> in
     if list_ex (\<lambda>x. ev_id x = u) (email_verifications d)
       then Inl (UniqueViolation ''email_verifications_pkey'')
     else if list_ex (\<lambda>x. ev_token_hash x = digest) (email_verifications d)
       then Inl (UniqueViolation ''email_verifications_token_hash_key'')
     else if \<not> list_ex (\<lambda>x. u_id x = uid) (users d)
       then Inl (ForeignKeyViolation ''email_verifications_user_id_fkey'')
     else Inr ((), d\<lparr>email_verifications := email_verifications d @ [row]\<rparr>))"

definition CreateEmailVerification ::
  "env \<Rightarrow> uuid \<Rightarrow> string \<Rightarrow> bytes \<Rightarrow> time \<Rightarrow> unit op" where
  "CreateEmailVerification e uid email digest expiresAt =
    query e [email] (insert_verification e uid email digest expiresAt) ErrSQL"

definition live_verification :: "env \<Rightarrow> bytes \<Rightarrow> verification_row \<Rightarrow> bool" where
  "live_verification e digest r \<longleftrightarrow>
     ev_token_hash r = digest \<and> ev_used_at r = None \<and> ev_expires_at r > sql_now e"

definition spend_verifications ::
  "env \<Rightarrow> (verification_row \<Rightarrow> bool) \<Rightarrow> database \<Rightarrow> database" where
  "spend_verifications e P d =
    d\<lparr>email_verifications := update_where P (\<lambda>r. r\<lparr>ev_used_at := Some (sql_now e)\<rparr>)
        (email_verifications d)\<rparr>"

definition ConsumeEmailVerification :: "env \<Rightarrow> bytes \<Rightarrow> (uuid \<times> string) op" where
  "ConsumeEmailVerification e digest =
    bind_op (exec e [] (\<lambda>d.
      (map_option (\<lambda>r. (ev_user_id r, ev_email r))
         (find (live_verification e digest) (email_verifications d)),
       spend_verifications e (live_verification e digest) d))) (\<lambda>r.
    case r of None \<Rightarrow> fail_op ErrInvalidToken | Some x \<Rightarrow> return_op x)"

definition InvalidateEmailVerifications :: "env \<Rightarrow> uuid \<Rightarrow> unit op" where
  "InvalidateEmailVerifications e uid =
    exec e [] (\<lambda>d. ((), spend_verifications e (\<lambda>r. ev_user_id r = uid \<and> ev_used_at r = None) d))"

definition DeleteDeadEmailVerifications :: "env \<Rightarrow> duration \<Rightarrow> nat op" where
  "DeleteDeadEmailVerifications e retain =
    exec e [] (\<lambda>d. let P = (\<lambda>r. dead e retain (ev_expires_at r) (ev_used_at r)) in
      (count_where P (email_verifications d),
       d\<lparr>email_verifications := delete_where P (email_verifications d)\<rparr>))"

section \<open>Invitations\<close>

text \<open>A row of \<open>invitationSelect\<close>: an invitation with the role it offers.\<close>

type_synonym invitation_join = "invitation_row \<times> role_row"

definition invitation_of :: "invitation_join \<Rightarrow> permission_set \<Rightarrow> invitation" where
  "invitation_of ir ps =
    (case ir of (i, r) \<Rightarrow>
     \<lparr>invID = i_id i, invEmail = i_email i, invRole = role_of r ps, InvitedBy = i_invited_by i,
      invExpiresAt = i_expires_at i, AcceptedAt = i_accepted_at i,
      invRevokedAt = i_revoked_at i, invCreatedAt = i_created_at i, invTokenHash = ''''\<rparr>)"

definition scan_invitation :: "invitation_join \<Rightarrow> invitation" where
  "scan_invitation ir = invitation_of ir {}"

definition add_invitation_permission :: "permission \<Rightarrow> invitation \<Rightarrow> invitation" where
  "add_invitation_permission p i = i\<lparr>invRole := add_role_permission p (invRole i)\<rparr>"

definition collectInvitations :: "invitation_join joined list \<Rightarrow> invitation list" where
  "collectInvitations rows =
    fan_in (\<lambda>(i, _). i_id i) scan_invitation add_invitation_permission rows"

interpretation invitation_rows:
  collector "\<lambda>(i, _). i_id i" scan_invitation add_invitation_permission invitation_of
  by unfold_locales
    (auto simp: scan_invitation_def add_invitation_permission_def invitation_of_def
      role_rows.add_full)

text \<open>\<open>JOIN roles r ON r.id = i.role_id LEFT JOIN role_permissions\<close>.\<close>

definition with_role :: "database \<Rightarrow> invitation_row list \<Rightarrow> invitation_join list" where
  "with_role d is =
    concat (map (\<lambda>i. map (Pair i) (filter (\<lambda>r. r_id r = i_role_id i) (roles d))) is)"

definition invitationSelect ::
  "env \<Rightarrow> (database \<Rightarrow> invitation_row list) \<Rightarrow> invitation list op" where
  "invitationSelect e rows =
    bind_op (select e [] (\<lambda>d. left_joins (\<lambda>(_, r). perms_of_role d r) (with_role d (rows d))))
      (\<lambda>rs. return_op (collectInvitations rs))"

definition GetInvitation :: "env \<Rightarrow> uuid \<Rightarrow> invitation op" where
  "GetInvitation e iid =
    bind_op (invitationSelect e (\<lambda>d. filter (\<lambda>i. i_id i = iid) (invitations d))) (\<lambda>is.
    case is of [] \<Rightarrow> fail_op ErrNotFound | i # _ \<Rightarrow> return_op i)"

definition GetInvitationByTokenHash :: "env \<Rightarrow> bytes \<Rightarrow> invitation op" where
  "GetInvitationByTokenHash e digest =
    bind_op (invitationSelect e (\<lambda>d. filter (\<lambda>i. i_token_hash i = digest) (invitations d))) (\<lambda>is.
    case is of [] \<Rightarrow> fail_op ErrInvitationInvalid
             | i # _ \<Rightarrow> return_op (i\<lparr>invTokenHash := digest\<rparr>))"

definition ListPendingInvitations :: "env \<Rightarrow> invitation list op" where
  "ListPendingInvitations e =
    invitationSelect e (\<lambda>d. rev (sort_key i_id (filter (\<lambda>i. i_accepted_at i = None
       \<and> i_revoked_at i = None \<and> i_expires_at i > sql_now e) (invitations d))))"

text \<open>\<open>invitations_pending_email_idx\<close> is a unique index on the unspent rows only.\<close>

definition open_invitation :: "invitation_row \<Rightarrow> bool" where
  "open_invitation i \<longleftrightarrow> i_accepted_at i = None \<and> i_revoked_at i = None"

definition insert_invitation ::
  "env \<Rightarrow> string \<Rightarrow> uuid \<Rightarrow> uuid \<Rightarrow> bytes \<Rightarrow> time \<Rightarrow> uuid stmt" where
  "insert_invitation e email rid invitedBy digest expiresAt u d =
    (let row = \<lparr>i_id = u, i_email = email, i_token_hash = digest, i_invited_by = Some invitedBy,
                i_expires_at = expiresAt, i_accepted_at = None, i_revoked_at = None,
                i_created_at = sql_now e, i_role_id = rid\<rparr> in
     if list_ex (\<lambda>x. i_id x = u) (invitations d)
       then Inl (UniqueViolation ''invitations_pkey'')
     else if list_ex (\<lambda>x. i_token_hash x = digest) (invitations d)
       then Inl (UniqueViolation ''invitations_token_hash_key'')
     else if list_ex (\<lambda>x. open_invitation x \<and> citext_eq e (i_email x) email) (invitations d)
       then Inl (UniqueViolation ''invitations_pending_email_idx'')
     else if \<not> list_ex (\<lambda>x. u_id x = invitedBy) (users d)
       then Inl (ForeignKeyViolation ''invitations_invited_by_fkey'')
     else if \<not> list_ex (\<lambda>r. r_id r = rid) (roles d)
       then Inl (ForeignKeyViolation ''invitations_role_id_fkey'')
     else Inr (u, d\<lparr>invitations := invitations d @ [row]\<rparr>))"

definition CreateInvitation ::
  "env \<Rightarrow> string \<Rightarrow> uuid \<Rightarrow> uuid \<Rightarrow> bytes \<Rightarrow> time \<Rightarrow> uuid op" where
  "CreateInvitation e email rid invitedBy digest expiresAt =
    query e [email] (insert_invitation e email rid invitedBy digest expiresAt)
      (\<lambda>pe. if isUniqueViolation pe ''invitations_pending_email_idx'' then ErrEmailTaken
            else ErrSQL pe)"

definition acceptable :: "env \<Rightarrow> uuid \<Rightarrow> invitation_row \<Rightarrow> bool" where
  "acceptable e iid i \<longleftrightarrow> i_id i = iid \<and> open_invitation i \<and> i_expires_at i > sql_now e"

definition repo_AcceptInvitation :: "env \<Rightarrow> uuid \<Rightarrow> unit op" where
  "repo_AcceptInvitation e iid =
    bind_op (exec e [] (\<lambda>d. (count_where (acceptable e iid) (invitations d),
      d\<lparr>invitations := update_where (acceptable e iid)
          (\<lambda>i. i\<lparr>i_accepted_at := Some (sql_now e)\<rparr>) (invitations d)\<rparr>))) (\<lambda>n.
    refuse_if (n = 0) ErrInvitationInvalid)"

definition revoke_invitations ::
  "env \<Rightarrow> (invitation_row \<Rightarrow> bool) \<Rightarrow> database \<Rightarrow> nat \<times> database" where
  "revoke_invitations e P d =
    (let Q = (\<lambda>i. P i \<and> open_invitation i) in
     (count_where Q (invitations d),
      d\<lparr>invitations := update_where Q (\<lambda>i. i\<lparr>i_revoked_at := Some (sql_now e)\<rparr>)
          (invitations d)\<rparr>))"

definition repo_RevokeInvitation :: "env \<Rightarrow> uuid \<Rightarrow> unit op" where
  "repo_RevokeInvitation e iid =
    bind_op (exec e [] (revoke_invitations e (\<lambda>i. i_id i = iid))) (\<lambda>n.
    refuse_if (n = 0) ErrNotFound)"

definition RevokePendingInvitationFor :: "env \<Rightarrow> string \<Rightarrow> unit op" where
  "RevokePendingInvitationFor e email =
    bind_op (exec e [email] (revoke_invitations e (\<lambda>i. citext_eq e (i_email i) email)))
      (\<lambda>_. return_op ())"

section \<open>What the statements may do\<close>

context db_relation begin

lemma obeys_invitation_reads [obeys_intros]:
  "obeys R (invitationSelect e f)" "obeys R (GetInvitation e iid)"
  "obeys R (GetInvitationByTokenHash e digest)" "obeys R (ListPendingInvitations e)"
  unfolding GetInvitation_def GetInvitationByTokenHash_def ListPendingInvitations_def
    invitationSelect_def
  by (intro obeys_intros)+

end

lemma keeps_reset_ops [obeys_intros]:
  "obeys (keeps p T) (CreatePasswordReset e uid digest t ip ua)"
  "obeys (keeps p T) (ConsumePasswordReset e digest)"
  "obeys (keeps p T) (InvalidatePasswordResets e uid)"
  "obeys (keeps p T) (DeleteDeadPasswordResets e retain)"
proof -
  have spend: "keeps p T d (spend_resets e P d)" for P d
    by (simp add: spend_resets_def keeps_resets)
  show "obeys (keeps p T) (CreatePasswordReset e uid digest t ip ua)"
    unfolding CreatePasswordReset_def
    by (intro obeys_intros) (auto simp: insert_reset_def Let_def keeps_resets split: if_splits)
  show "obeys (keeps p T) (ConsumePasswordReset e digest)"
    unfolding ConsumePasswordReset_def by (intro obeys_intros) (simp add: spend)
  show "obeys (keeps p T) (InvalidatePasswordResets e uid)"
    unfolding InvalidatePasswordResets_def by (intro obeys_intros) (simp add: spend)
  show "obeys (keeps p T) (DeleteDeadPasswordResets e retain)"
    unfolding DeleteDeadPasswordResets_def by (intro obeys_intros) (simp add: Let_def keeps_resets)
qed

lemma keeps_verification_ops [obeys_intros]:
  "obeys (keeps p T) (CreateEmailVerification e uid email digest t)"
  "obeys (keeps p T) (ConsumeEmailVerification e digest)"
  "obeys (keeps p T) (InvalidateEmailVerifications e uid)"
  "obeys (keeps p T) (DeleteDeadEmailVerifications e retain)"
proof -
  have spend: "keeps p T d (spend_verifications e P d)" for P d
    by (simp add: spend_verifications_def keeps_verifications)
  show "obeys (keeps p T) (CreateEmailVerification e uid email digest t)"
    unfolding CreateEmailVerification_def
    by (intro obeys_intros)
      (auto simp: insert_verification_def Let_def keeps_verifications split: if_splits)
  show "obeys (keeps p T) (ConsumeEmailVerification e digest)"
    unfolding ConsumeEmailVerification_def by (intro obeys_intros) (simp add: spend)
  show "obeys (keeps p T) (InvalidateEmailVerifications e uid)"
    unfolding InvalidateEmailVerifications_def by (intro obeys_intros) (simp add: spend)
  show "obeys (keeps p T) (DeleteDeadEmailVerifications e retain)"
    unfolding DeleteDeadEmailVerifications_def
    by (intro obeys_intros) (simp add: Let_def keeps_verifications)
qed

text \<open>Closing invitations keeps both laws; opening one is lawful and nothing more.\<close>

lemma close_invitations_keeps:
  assumes "\<And>i. i_id (f i) = i_id i"
    and "\<And>i. i_accepted_at (f i) = None \<and> i_revoked_at (f i) = None \<Longrightarrow> False"
  shows "keeps p T d (d\<lparr>invitations := update_where P f (invitations d)\<rparr>)"
proof (intro keeps_invitations)
  show "distinct (map i_id (invitations d)) \<Longrightarrow>
      distinct (map i_id (update_where P f (invitations d)))"
    using assms(1) by simp
  fix i assume "i \<in> set (update_where P f (invitations d))" "i_accepted_at i = None"
    "i_revoked_at i = None"
  with assms(2) show "\<exists>j \<in> set (invitations d). i_accepted_at j = None \<and> i_revoked_at j = None
      \<and> i_role_id j = i_role_id i"
    by (elim in_update_whereE) blast+
qed

lemma keeps_invitation_ops [obeys_intros]:
  "obeys (keeps p T) (repo_AcceptInvitation e iid)"
  "obeys (keeps p T) (repo_RevokeInvitation e iid)"
  "obeys (keeps p T) (RevokePendingInvitationFor e email)"
proof -
  have revoke: "keeps p T d (snd (revoke_invitations e P d))" for P d
    unfolding revoke_invitations_def Let_def snd_conv
    by (intro close_invitations_keeps) simp_all
  show "obeys (keeps p T) (repo_AcceptInvitation e iid)"
    unfolding repo_AcceptInvitation_def
    by (intro obeys_intros, unfold snd_conv, intro close_invitations_keeps) simp_all
  show "obeys (keeps p T) (repo_RevokeInvitation e iid)"
    unfolding repo_RevokeInvitation_def by (intro obeys_intros revoke)
  show "obeys (keeps p T) (RevokePendingInvitationFor e email)"
    unfolding RevokePendingInvitationFor_def by (intro obeys_intros revoke)
qed

lemma insert_invitation_lawful:
  "insert_invitation e email rid by_user digest t u d = Inr (iid, d') \<Longrightarrow> lawful d d'"
  by (auto simp: insert_invitation_def Let_def list_ex_iff intro!: lawful_invitations
      split: if_splits)

lemma lawful_CreateInvitation [obeys_intros]:
  "obeys lawful (CreateInvitation e email rid by_user digest t)"
  unfolding CreateInvitation_def by (intro obeys_intros) (rule insert_invitation_lawful)

lemmas lawful_link_ops [obeys_intros] = keeps_reset_ops [THEN keeps_lawful]
  keeps_verification_ops [THEN keeps_lawful] keeps_invitation_ops [THEN keeps_lawful]

section \<open>Invitations and their roles\<close>

definition full_invitation :: "database \<Rightarrow> invitation_join \<Rightarrow> invitation" where
  "full_invitation d ir = invitation_of ir (granted d (r_id (snd ir)))"

lemma with_role_Cons:
  "with_role d (i # is) = map (Pair i) (filter (\<lambda>r. r_id r = i_role_id i) (roles d)) @ with_role d is"
  by (simp add: with_role_def)

lemma set_with_role:
  "set (with_role d is) = {(i, r). i \<in> set is \<and> r \<in> set (roles d) \<and> r_id r = i_role_id i}"
  by (auto simp: with_role_def)

lemma with_role_distinct:
  assumes "distinct (map r_id (roles d))" "distinct (map i_id is)"
  shows "distinct (map (\<lambda>(i, _). i_id i) (with_role d is))"
  using assms(2)
proof (induction "is")
  case (Cons i "is")
  let ?rs = "filter (\<lambda>r. r_id r = i_role_id i) (roles d)"
  have "?rs = [] \<or> (\<exists>r. ?rs = [r])"
  proof (cases "find (\<lambda>r. r_id r = i_role_id i) (roles d)")
    case None
    then have "?rs = []" by (simp add: find_eq_None_iff filter_empty_conv)
    then show ?thesis ..
  next
    case (Some r)
    then have r: "r \<in> set (roles d)" "r_id r = i_role_id i" by (auto dest: find_SomeD)
    from filter_unique [OF assms(1) r(1)] show ?thesis unfolding r(2) by blast
  qed
  moreover have "i_id i \<notin> (\<lambda>(i, _). i_id i) ` set (with_role d is)"
    using Cons.prems by (auto simp: set_with_role)
  moreover have "distinct (map (\<lambda>(i, _). i_id i) (with_role d is))" using Cons by simp
  ultimately show ?case by (auto simp: with_role_Cons)
qed (simp add: with_role_def)

lemma invitationSelect_Inr:
  assumes "keys_ok (db w)" "distinct (map i_id (f (db w)))"
    "invitationSelect e f w = (Inr is, w')"
  shows "is = map (full_invitation (db w)) (with_role (db w) (f (db w)))" "db w' = db w"
proof -
  have "distinct (map (\<lambda>(i, _). i_id i) (with_role (db w) (f (db w))))"
    using keys_okD(2) [OF assms(1)] assms(2) by (rule with_role_distinct)
  from invitation_rows.collect_joined [OF this]
  have "collectInvitations (left_joins (\<lambda>(_, r). perms_of_role (db w) r)
      (with_role (db w) (f (db w))))
    = map (full_invitation (db w)) (with_role (db w) (f (db w)))"
    by (simp add: collectInvitations_def full_invitation_def set_perms_of_role split_beta)
  with assms(3) show "is = map (full_invitation (db w)) (with_role (db w) (f (db w)))"
    "db w' = db w"
    by (auto simp: invitationSelect_def bind_op_Inr_iff select_Inr_iff)
qed

lemma GetInvitationByTokenHash_Inr:
  assumes "keys_ok (db w)" "GetInvitationByTokenHash e digest w = (Inr iv, w')"
  obtains i r where "i \<in> set (invitations (db w))" "i_token_hash i = digest"
    "r \<in> set (roles (db w))" "r_id r = i_role_id i"
    "iv = (full_invitation (db w) (i, r))\<lparr>invTokenHash := digest\<rparr>" "db w' = db w"
proof -
  let ?f = "\<lambda>d. filter (\<lambda>i. i_token_hash i = digest) (invitations d)"
  from assms(2) obtain js w1 where sel': "invitationSelect e ?f w = (Inr js, w1)" and
    step: "(case js of [] \<Rightarrow> fail_op ErrInvitationInvalid
             | i # _ \<Rightarrow> return_op (i\<lparr>invTokenHash := digest\<rparr>)) w1 = (Inr iv, w')"
    unfolding GetInvitationByTokenHash_def bind_op_Inr_iff by blast
  from step obtain i0 "is" where "js = i0 # is" and iv: "iv = i0\<lparr>invTokenHash := digest\<rparr>"
    and "w1 = w'"
    by (cases js) simp_all
  with sel' have sel: "invitationSelect e ?f w = (Inr (i0 # is), w')" by simp
  have "distinct (map i_id (?f (db w)))"
    using keys_okD(7) [OF assms(1)] by (simp add: distinct_map_filter)
  note res = invitationSelect_Inr [OF assms(1) this sel]
  then have "i0 \<in> full_invitation (db w) ` set (with_role (db w) (?f (db w)))"
    by (metis list.set_intros(1) list.set_map)
  then obtain ir where ir: "ir \<in> set (with_role (db w) (?f (db w)))"
    "i0 = full_invitation (db w) ir" by blast
  obtain i r where "ir = (i, r)" by fastforce
  with ir have "i \<in> set (invitations (db w))" "i_token_hash i = digest"
    "r \<in> set (roles (db w))" "r_id r = i_role_id i" "i0 = full_invitation (db w) (i, r)"
    by (simp_all add: set_with_role)
  with that iv res(2) show ?thesis by simp
qed

lemma add_invitation_keeps:
  assumes "i_id row \<notin> i_id ` set (invitations d)" "p \<notin> granted d (i_role_id row)"
  shows "keeps p T d (d\<lparr>invitations := invitations d @ [row]\<rparr>)"
proof -
  have "lawful d (d\<lparr>invitations := invitations d @ [row]\<rparr>)"
    using assms(1) by (intro lawful_invitations) auto
  moreover have "confined p T d \<Longrightarrow> confined p T (d\<lparr>invitations := invitations d @ [row]\<rparr>)"
    using assms(2) by (auto simp: confined_def granted_def superusers_def)
  ultimately show ?thesis by (simp add: keeps_def)
qed

lemma CreateInvitation_Inr:
  assumes "CreateInvitation e email rid uid digest t w = (Inr iid, w')"
  obtains row where "i_id row = iid" "iid \<notin> i_id ` set (invitations (db w))"
    "i_role_id row = rid" "i_email row = email" "i_token_hash row = digest"
    "i_invited_by row = Some uid" "i_expires_at row = t" "open_invitation row"
    "digest \<notin> i_token_hash ` set (invitations (db w))"
    "db w' = (db w)\<lparr>invitations := invitations (db w) @ [row]\<rparr>"
proof -
  from assms obtain d' where
    ins: "insert_invitation e email rid uid digest t (uuidv7 e (steps w)) (db w) = Inr (iid, d')"
    and "db w' = d'"
    by (auto simp: CreateInvitation_def query_Inr_iff)
  let ?row = "\<lparr>i_id = iid, i_email = email, i_token_hash = digest, i_invited_by = Some uid,
                i_expires_at = t, i_accepted_at = None, i_revoked_at = None,
                i_created_at = sql_now e, i_role_id = rid\<rparr>"
  from ins have "\<not> list_ex (\<lambda>x. i_id x = iid) (invitations (db w))"
    and "\<not> list_ex (\<lambda>x. i_token_hash x = digest) (invitations (db w))"
    and "d' = (db w)\<lparr>invitations := invitations (db w) @ [?row]\<rparr>"
    by (auto simp: insert_invitation_def Let_def split: if_splits)
  then have "iid \<notin> i_id ` set (invitations (db w))"
    "digest \<notin> i_token_hash ` set (invitations (db w))"
    "d' = (db w)\<lparr>invitations := invitations (db w) @ [?row]\<rparr>"
    unfolding list_ex_iff by blast+
  with \<open>db w' = d'\<close> show ?thesis by (intro that [of ?row]) (simp_all add: open_invitation_def)
qed

end
