(* ===== verification/Audit_Trail.thy ===== *)
theory Audit_Trail
  imports Laws
begin

text \<open>
  \<open>internal/audit/audit.go\<close>: the append-only log. \<open>Record\<close> writes an entry, \<open>List\<close> reads
  a filtered page, \<open>Purge\<close> is the retention sweep. The trigger of the migration that
  refuses every other change of the table is modelled with them.
\<close>

section \<open>Actions\<close>

definition ActionUserRegistered :: string where "ActionUserRegistered = ''users.registered''"
definition ActionUserLoggedIn :: string where "ActionUserLoggedIn = ''users.logged_in''"
definition ActionUserLoggedOut :: string where "ActionUserLoggedOut = ''users.logged_out''"
definition ActionPasswordChanged :: string where "ActionPasswordChanged = ''users.password_changed''"
definition ActionPasswordResetRequested :: string where
  "ActionPasswordResetRequested = ''users.password_reset_requested''"
definition ActionPasswordResetRejected :: string where
  "ActionPasswordResetRejected = ''users.password_reset_rejected''"
definition ActionPasswordReset :: string where "ActionPasswordReset = ''users.password_reset''"
definition ActionEmailVerified :: string where "ActionEmailVerified = ''users.email_verified''"
definition ActionSessionRevoked :: string where "ActionSessionRevoked = ''users.session_revoked''"
definition ActionUserDeactivated :: string where "ActionUserDeactivated = ''users.deactivated''"
definition ActionUserReactivated :: string where "ActionUserReactivated = ''users.reactivated''"
definition ActionUserRolesUpdated :: string where "ActionUserRolesUpdated = ''users.roles_updated''"
definition ActionInvitationCreated :: string where "ActionInvitationCreated = ''invitations.created''"
definition ActionInvitationRevoked :: string where "ActionInvitationRevoked = ''invitations.revoked''"
definition ActionInvitationAccepted :: string where "ActionInvitationAccepted = ''invitations.accepted''"
definition ActionRoleCreated :: string where "ActionRoleCreated = ''roles.created''"
definition ActionRoleUpdated :: string where "ActionRoleUpdated = ''roles.updated''"
definition ActionRoleDeleted :: string where "ActionRoleDeleted = ''roles.deleted''"
definition ActionAPIKeyCreated :: string where "ActionAPIKeyCreated = ''apikeys.created''"
definition ActionAPIKeyRevoked :: string where "ActionAPIKeyRevoked = ''apikeys.revoked''"
definition ActionSuperuserGranted :: string where "ActionSuperuserGranted = ''superuser.granted''"
definition ActionSuperuserRevoked :: string where "ActionSuperuserRevoked = ''superuser.revoked''"
definition ActionLoginFailed :: string where "ActionLoginFailed = ''users.login_failed''"
definition ActionAccessDenied :: string where "ActionAccessDenied = ''access.denied''"
definition ActionEscalationDenied :: string where "ActionEscalationDenied = ''access.escalation_denied''"
definition ActionInvitationRejected :: string where "ActionInvitationRejected = ''invitations.rejected''"
definition ActionRateLimited :: string where "ActionRateLimited = ''access.rate_limited''"

section \<open>Recording\<close>

record event =
  ActorUserID :: "uuid option"
  Action :: string
  TargetType :: string
  TargetID :: string
  Metadata :: metadata
  evRequestID :: string
  evIPAddress :: string
  evUserAgent :: string

text \<open>An \<open>Event\<close> literal that leaves the request fields at their zero value.\<close>

definition Event ::
  "uuid option \<Rightarrow> string \<Rightarrow> string \<Rightarrow> string \<Rightarrow> metadata \<Rightarrow> event" where
  "Event actor action ttype tid md =
    \<lparr>ActorUserID = actor, Action = action, TargetType = ttype, TargetID = tid,
     Metadata = md, evRequestID = '''', evIPAddress = '''', evUserAgent = ''''\<rparr>"

definition or_else :: "string \<Rightarrow> string \<Rightarrow> string" where
  "or_else s t = (if s = '''' then t else s)"

definition tag_api_key :: "env \<Rightarrow> metadata \<Rightarrow> metadata" where
  "tag_api_key e md =
    (case APIKeyID (req_meta e) of
       None \<Rightarrow> md
     | Some kid \<Rightarrow> if map_of md ''api_key_id'' = None
                  then (''api_key_id'', JStr (uuid_String e kid)) # md else md)"

text \<open>The User-Agent, cut at 512 bytes.\<close>

definition cap_user_agent :: "string \<Rightarrow> string" where
  "cap_user_agent ua = (if length ua > 512 then take 512 ua else ua)"

definition audit_entry_row :: "env \<Rightarrow> event \<Rightarrow> uuid \<Rightarrow> audit_row" where
  "audit_entry_row e ev u =
    \<lparr>a_id = u, a_actor_user_id = ActorUserID ev, a_action = Action ev,
     a_target_type = TargetType ev, a_target_id = TargetID ev,
     a_metadata = tag_api_key e (Metadata ev), a_created_at = sql_now e,
     a_request_id = or_else (evRequestID ev) (RequestID (req_meta e)),
     a_ip_address = ParseAddr e (or_else (evIPAddress ev) (metaIPAddress (req_meta e))),
     a_user_agent = cap_user_agent (or_else (evUserAgent ev) (metaUserAgent (req_meta e)))\<rparr>"

definition insert_audit :: "env \<Rightarrow> event \<Rightarrow> unit stmt" where
  "insert_audit e ev u d =
    (let row = audit_entry_row e ev u in
     if \<not> pg_json_ok e (a_metadata row) then Inl InvalidText
     else if list_ex (\<lambda>r. a_id r = u) (audit_log d) then Inl (UniqueViolation ''audit_log_pkey'')
     else if \<not> pred_option (\<lambda>a. list_ex (\<lambda>x. u_id x = a) (users d)) (a_actor_user_id row)
       then Inl (ForeignKeyViolation ''audit_log_actor_user_id_fkey'')
     else Inr ((), d\<lparr>audit_log := row # audit_log d\<rparr>))"

definition Record :: "env \<Rightarrow> event \<Rightarrow> unit op" where
  "Record e ev =
    (let row = audit_entry_row e ev (UUID 0) in
     query e [a_action row, a_target_type row, a_target_id row, a_request_id row, a_user_agent row]
       (insert_audit e ev) ErrSQL)"

lemma Record_Inr_iff:
  "Record e ev w = (Inr (), w') \<longleftrightarrow>
     \<not> fault e (steps w)
   \<and> list_all (pg_text_ok e) [Action ev, TargetType ev, TargetID ev,
       or_else (evRequestID ev) (RequestID (req_meta e)),
       cap_user_agent (or_else (evUserAgent ev) (metaUserAgent (req_meta e)))]
   \<and> pg_json_ok e (tag_api_key e (Metadata ev))
   \<and> uuidv7 e (steps w) \<notin> a_id ` set (audit_log (db w))
   \<and> pred_option (\<lambda>a. a \<in> u_id ` set (users (db w))) (ActorUserID ev)
   \<and> w' = (tick w)\<lparr>db := (db w)\<lparr>audit_log :=
        audit_entry_row e ev (uuidv7 e (steps w)) # audit_log (db w)\<rparr>\<rparr>"
proof -
  have ex: "list_ex (\<lambda>r. a_id r = u) xs \<longleftrightarrow> u \<in> a_id ` set xs"
    "list_ex (\<lambda>x. u_id x = a) ys \<longleftrightarrow> a \<in> u_id ` set ys" for u xs a ys
    by (auto simp: list_ex_iff)
  show ?thesis
    by (auto simp: Record_def Let_def query_Inr_iff insert_audit_def audit_entry_row_def
        tick_def ex split: if_splits)
qed

lemma Record_db:
  assumes "Record e ev w = (Inr x, w')"
  shows "db w' = (db w)\<lparr>audit_log :=
     audit_entry_row e ev (uuidv7 e (steps w)) # audit_log (db w)\<rparr>"
  using assms by (cases x) (simp add: Record_Inr_iff)

lemma Record_frame [obeys_intros]: "TAudit \<in> ts \<Longrightarrow> obeys (changes_only ts) (Record e ev)"
  unfolding Record_def Let_def
  by (intro frame.obeys_query)
    (auto simp: insert_audit_def Let_def intro!: changes_onlyI split: if_splits)

lemma Record_grows [obeys_intros]: "obeys audit_grows (Record e ev)"
  unfolding Record_def Let_def
  by (intro grow.obeys_query) (auto simp: insert_audit_def Let_def audit_grows_def split: if_splits)

lemma length_cap_user_agent: "length (cap_user_agent ua) \<le> 512"
  by (simp add: cap_user_agent_def)

section \<open>Listing\<close>

record audit_entry =
  entryID :: uuid
  entryActorUserID :: "uuid option"
  entryAction :: string
  entryTargetType :: string
  entryTargetID :: string
  entryMetadata :: metadata
  entryRequestID :: string
  entryIPAddress :: string
  entryUserAgent :: string
  entryCreatedAt :: time

text \<open>Zero times and the nil UUID of Go's \<open>Filter\<close> are the absent bounds.\<close>

record audit_filter =
  fAction :: string
  fActor :: "uuid option"
  fFrom :: "time option"
  fTo :: "time option"
  fBefore :: uuid
  fLimit :: int

definition scan_entry :: "audit_row \<Rightarrow> audit_entry" where
  "scan_entry r =
    \<lparr>entryID = a_id r, entryActorUserID = a_actor_user_id r, entryAction = a_action r,
     entryTargetType = a_target_type r, entryTargetID = a_target_id r,
     entryMetadata = a_metadata r, entryRequestID = a_request_id r,
     entryIPAddress = (case a_ip_address r of None \<Rightarrow> '''' | Some ip \<Rightarrow> ip),
     entryUserAgent = a_user_agent r, entryCreatedAt = a_created_at r\<rparr>"

definition collectEntries :: "audit_row list \<Rightarrow> audit_entry list" where
  "collectEntries rows = map scan_entry rows"

definition page_limit :: "int \<Rightarrow> int" where
  "page_limit limit = (if limit \<le> 0 \<or> limit > 200 then 50 else limit)"

definition audit_match :: "audit_filter \<Rightarrow> audit_row \<Rightarrow> bool" where
  "audit_match f r \<longleftrightarrow>
     (fBefore f = uuid_Nil \<or> a_id r < fBefore f)
   \<and> (fAction f = '''' \<or> a_action r = fAction f)
   \<and> (fActor f = None \<or> a_actor_user_id r = fActor f)
   \<and> (case fFrom f of None \<Rightarrow> True | Some t \<Rightarrow> t \<le> a_created_at r)
   \<and> (case fTo f of None \<Rightarrow> True | Some t \<Rightarrow> a_created_at r \<le> t)"

definition audit_select :: "audit_filter \<Rightarrow> database \<Rightarrow> audit_row list" where
  "audit_select f d = rev (sort_key a_id (filter (audit_match f) (audit_log d)))"

definition ListEntries :: "env \<Rightarrow> audit_filter \<Rightarrow> audit_entry list op" where
  "ListEntries e f =
    bind_op (select e [fAction f] (\<lambda>d. take (nat (page_limit (fLimit f))) (audit_select f d)))
      (\<lambda>rows. return_op (collectEntries rows))"

section \<open>The trigger and the retention sweep\<close>

text \<open>The one update the trigger lets through: it clears the actor and nothing else.\<close>

definition audit_update_ok :: "audit_row \<Rightarrow> audit_row \<Rightarrow> bool" where
  "audit_update_ok old new \<longleftrightarrow>
     a_actor_user_id old \<noteq> None \<and> a_actor_user_id new = None
   \<and> a_id new = a_id old \<and> a_action new = a_action old
   \<and> a_target_type new = a_target_type old \<and> a_target_id new = a_target_id old
   \<and> a_metadata new = a_metadata old \<and> a_request_id new = a_request_id old
   \<and> a_ip_address new = a_ip_address old \<and> a_user_agent new = a_user_agent old
   \<and> a_created_at new = a_created_at old"

definition audit_update :: "(audit_row \<Rightarrow> bool) \<Rightarrow> (audit_row \<Rightarrow> audit_row) \<Rightarrow> nat stmt" where
  "audit_update P f u d =
    (if list_ex (\<lambda>r. P r \<and> \<not> audit_update_ok r (f r)) (audit_log d) then Inl AppendOnly
     else Inr (count_where P (audit_log d), d\<lparr>audit_log := update_where P f (audit_log d)\<rparr>))"

text \<open>\<open>purge\<close> is the setting \<open>app.audit_purge\<close> of the transaction.\<close>

definition audit_delete :: "bool \<Rightarrow> (audit_row \<Rightarrow> bool) \<Rightarrow> nat stmt" where
  "audit_delete purge P u d =
    (if list_ex P (audit_log d) \<and> \<not> purge then Inl AppendOnly
     else Inr (count_where P (audit_log d), d\<lparr>audit_log := delete_where P (audit_log d)\<rparr>))"

text \<open>
  \<open>Purge\<close> first runs \<open>SET LOCAL app.audit_purge = 'on'\<close>, so the trigger sees the setting
  for the rest of the transaction. \<open>runPurge\<close> of \<open>cmd/server/main.go\<close> calls it in one.
\<close>

definition Purge :: "env \<Rightarrow> duration \<Rightarrow> nat op" where
  "Purge e retain =
    (if retain \<le> 0 then return_op 0
     else then_op (exec e [] (\<lambda>d. ((), d)))
       (query e [] (audit_delete True (\<lambda>r. a_created_at r < sql_now e - retain)) ErrSQL))"

definition runPurge :: "env \<Rightarrow> duration \<Rightarrow> nat op" where
  "runPurge e retention =
    (if retention \<le> 0 then return_op 0 else InTx e (Purge e retention))"

lemma audit_update_keeps:
  assumes "audit_update P f u d = Inr (n, d')"
  shows "map (\<lambda>r. r\<lparr>a_actor_user_id := None\<rparr>) (audit_log d')
       = map (\<lambda>r. r\<lparr>a_actor_user_id := None\<rparr>) (audit_log d)"
proof -
  from assms have ok: "\<forall>r \<in> set (audit_log d). P r \<longrightarrow> audit_update_ok r (f r)"
    and d': "audit_log d' = update_where P f (audit_log d)"
    by (auto simp: audit_update_def list_ex_iff split: if_splits)
  have same: "audit_update_ok r r' \<Longrightarrow> r'\<lparr>a_actor_user_id := None\<rparr> = r\<lparr>a_actor_user_id := None\<rparr>"
    for r r' by (simp add: audit_update_ok_def)
  from ok same show ?thesis
    unfolding d' by (induction "audit_log d") (auto simp: update_where_def)
qed

lemma Purge_db:
  assumes "Purge e retain w = (Inr n, w')"
  shows "db w' = (db w)\<lparr>audit_log :=
    (if retain \<le> 0 then audit_log (db w)
     else delete_where (\<lambda>r. a_created_at r < sql_now e - retain) (audit_log (db w)))\<rparr>"
  using assms
  by (auto simp: Purge_def run_iffs audit_delete_def tick_def split: if_splits)

section \<open>What recording and sweeping may do\<close>

lemma keeps_Record [obeys_intros]: "obeys (keeps p T) (Record e ev)"
  unfolding Record_def Let_def
  by (intro keep.obeys_query) (auto simp: insert_audit_def Let_def keeps_audit split: if_splits)

lemmas lawful_Record [obeys_intros] = keeps_lawful [OF keeps_Record]

context db_relation begin

lemma obeys_ListEntries [obeys_intros]: "obeys R (ListEntries e f)"
  unfolding ListEntries_def by (intro obeys_intros)

end

end
