(* ===== verification/Tokens.thy ===== *)
theory Tokens
  imports Laws
begin

text \<open>
  \<open>internal/auth/token.go\<close>: bearer tokens. A token is a prefix and 32 random bytes in
  unpadded URL-safe base64; only its SHA-256 digest is stored. SHA-256 and the random
  source are fields of the environment; the encoding is written out.
\<close>

definition tokenEntropyBytes :: nat where "tokenEntropyBytes = 32"

definition SessionTokenPrefix :: string where "SessionTokenPrefix = ''mtt_sess_''"
definition InvitationTokenPrefix :: string where "InvitationTokenPrefix = ''mtt_inv_''"
definition PasswordResetTokenPrefix :: string where "PasswordResetTokenPrefix = ''mtt_pwr_''"
definition EmailVerifyTokenPrefix :: string where "EmailVerifyTokenPrefix = ''mtt_ver_''"
definition APIKeyTokenPrefix :: string where "APIKeyTokenPrefix = ''mtt_key_''"

section \<open>Unpadded base64\<close>

text \<open>
  The character of a 6-bit value; \<open>c62\<close> and \<open>c63\<close> are the last two of the alphabet
  (\<open>-\<close> and \<open>_\<close> in URLs, \<open>+\<close> and \<open>/\<close> in the standard alphabet).
\<close>

definition b64_char :: "char \<Rightarrow> char \<Rightarrow> nat \<Rightarrow> char" where
  "b64_char c62 c63 v =
    (if v < 26 then char_of (65 + v)
     else if v < 52 then char_of (97 + (v - 26))
     else if v < 62 then char_of (48 + (v - 52))
     else if v = 62 then c62 else c63)"

fun b64_encode :: "char \<Rightarrow> char \<Rightarrow> bytes \<Rightarrow> string" where
  "b64_encode c62 c63 [] = []"
| "b64_encode c62 c63 [a] =
    (let x = byte_of a in
     map (b64_char c62 c63) [x div 4, (x mod 4) * 16])"
| "b64_encode c62 c63 [a, b] =
    (let x = byte_of a; y = byte_of b in
     map (b64_char c62 c63) [x div 4, (x mod 4) * 16 + y div 16, (y mod 16) * 4])"
| "b64_encode c62 c63 (a # b # c # rest) =
    (let x = byte_of a; y = byte_of b; z = byte_of c in
     map (b64_char c62 c63)
       [x div 4, (x mod 4) * 16 + y div 16, (y mod 16) * 4 + z div 64, z mod 64])
    @ b64_encode c62 c63 rest"

definition RawURLEncoding :: "bytes \<Rightarrow> string" where
  "RawURLEncoding = b64_encode (CHR ''-'') (CHR ''_'')"

definition RawStdEncoding :: "bytes \<Rightarrow> string" where
  "RawStdEncoding = b64_encode (CHR ''+'') (CHR ''/'')"

section \<open>Tokens\<close>

definition HashToken :: "env \<Rightarrow> string \<Rightarrow> bytes" where
  "HashToken e plaintext = sha256 e plaintext"

text \<open>\<open>rand.Read\<close> of \<open>n\<close> bytes: it may fail.\<close>

definition rand_Read :: "env \<Rightarrow> nat \<Rightarrow> bytes op" where
  "rand_Read e n = (\<lambda>w.
    (case rand_read e (reads w) n of
       None \<Rightarrow> Inl ErrRandom
     | Some buf \<Rightarrow> Inr buf,
     w\<lparr>reads := Suc (reads w)\<rparr>))"

definition NewToken :: "env \<Rightarrow> string \<Rightarrow> (string \<times> bytes) op" where
  "NewToken e pre =
    bind_op (rand_Read e tokenEntropyBytes) (\<lambda>buf.
    let plaintext = pre @ RawURLEncoding buf in
    return_op (plaintext, HashToken e plaintext))"

lemma NewToken_Inr_iff:
  "NewToken e pre w = (Inr (tok, digest), w') \<longleftrightarrow>
     (\<exists>buf. rand_read e (reads w) tokenEntropyBytes = Some buf
        \<and> tok = pre @ RawURLEncoding buf \<and> digest = HashToken e tok
        \<and> w' = w\<lparr>reads := Suc (reads w)\<rparr>)"
  by (auto simp: NewToken_def rand_Read_def bind_op_def Let_def split: option.splits)

lemma NewToken_db [simp]: "NewToken e pre w = (r, w') \<Longrightarrow> db w' = db w"
  by (auto simp: NewToken_def rand_Read_def bind_op_def Let_def split: option.splits)

context db_relation begin

lemma obeys_NewToken [obeys_intros]: "obeys R (NewToken e pre)"
  by (auto simp: obeys_def rel_refl)

end

end
