(* ===== verification/Password.thy ===== *)
theory Password
  imports Tokens
begin

text \<open>
  \<open>internal/auth/password.go\<close>: argon2id hashes in the PHC string format. argon2 itself is
  a field of the environment; the format is written out, with what the code uses of
  \<open>strings.Split\<close>, \<open>fmt.Sscanf\<close> and strict unpadded base64.
\<close>

definition argon2_Version :: nat where "argon2_Version = 19"
definition saltLength :: nat where "saltLength = 16"
definition keyLength :: nat where "keyLength = 32"

record Hasher =
  memoryKiB :: "32 word"
  iterations :: "32 word"
  parallelism :: "8 word"

definition NewHasher :: "32 word \<Rightarrow> 32 word \<Rightarrow> 8 word \<Rightarrow> Hasher" where
  "NewHasher m t p = \<lparr>memoryKiB = m, iterations = t, parallelism = p\<rparr>"

text \<open>The hasher \<open>NewService\<close> builds from the settings.\<close>

definition service_hasher :: "env \<Rightarrow> Hasher" where
  "service_hasher e = NewHasher (ArgonMemoryKiB (auth_cfg e)) (ArgonIterations (auth_cfg e))
     (ArgonParallelism (auth_cfg e))"

section \<open>Writing a hash\<close>

definition phc_encode :: "32 word \<Rightarrow> 32 word \<Rightarrow> 8 word \<Rightarrow> bytes \<Rightarrow> bytes \<Rightarrow> string" where
  "phc_encode m t p salt key =
    ''$argon2id$v='' @ dec_nat argon2_Version @ ''$m='' @ dec_nat (unat m)
    @ '',t='' @ dec_nat (unat t) @ '',p='' @ dec_nat (unat p)
    @ ''$'' @ RawStdEncoding salt @ ''$'' @ RawStdEncoding key"

definition Hash :: "env \<Rightarrow> Hasher \<Rightarrow> string \<Rightarrow> string op" where
  "Hash e h password =
    bind_op (rand_Read e saltLength) (\<lambda>salt.
    let key = argon2_IDKey e password salt (iterations h) (memoryKiB h) (parallelism h) keyLength
    in return_op (phc_encode (memoryKiB h) (iterations h) (parallelism h) salt key))"

section \<open>Reading a hash\<close>

text \<open>\<open>strings.Split(s, sep)\<close> for a one-byte separator.\<close>

fun Split :: "string \<Rightarrow> char \<Rightarrow> string list" where
  "Split [] sep = [[]]"
| "Split (c # s) sep =
    (case Split s sep of
       p # ps \<Rightarrow> if c = sep then [] # p # ps else (c # p) # ps
     | [] \<Rightarrow> [])"

text \<open>The number of bytes of the white-space rune a string starts with, 0 if it does not.\<close>

definition space_rune :: "string \<Rightarrow> nat" where
  "space_rune s =
    (case map byte_of (take 3 s) of
       a # rest \<Rightarrow>
         if a \<in> {9, 10, 11, 12, 13, 32} then 1
         else if a = 194 \<and> (case rest of b # _ \<Rightarrow> b \<in> {133, 160} | [] \<Rightarrow> False) then 2
         else if (case rest of
              [b, c] \<Rightarrow> (a = 225 \<and> b = 154 \<and> c = 128)
                 \<or> (a = 226 \<and> b = 128 \<and> (128 \<le> c \<and> c \<le> 138 \<or> c \<in> {168, 169, 175}))
                 \<or> (a = 226 \<and> b = 129 \<and> c = 159) \<or> (a = 227 \<and> b = 128 \<and> c = 128)
            | _ \<Rightarrow> False) then 3
         else 0
     | [] \<Rightarrow> 0)"

lemma space_rune_le: "space_rune s \<le> length s"
proof (cases "take 3 s")
  case Nil
  then show ?thesis by (simp add: space_rune_def)
next
  case (Cons a t)
  have "length (take 3 s) \<le> length s" by simp
  with Cons have len: "Suc (length t) \<le> length s" by (metis length_Cons)
  show ?thesis
    using len by (auto simp: space_rune_def Cons split: list.splits)
qed

text \<open>
  \<open>SkipSpace\<close> of \<open>fmt\<close>: a line end is an error (\<open>Sscanf\<close> does not take it for a space),
  and a carriage return in front of one belongs to it.
\<close>

function SkipSpace :: "string \<Rightarrow> string option" where
  "SkipSpace s =
    (let n = space_rune s in
     if n = 0 then Some s
     else if byte_of (hd s) = 10 then None
     else SkipSpace (drop n s))"
  by auto

termination
proof (relation "measure length")
  fix s :: string and n
  assume "n = space_rune s" "n \<noteq> 0"
  with space_rune_le [of s] show "(drop n s, s) \<in> measure length" by auto
qed simp

declare SkipSpace.simps [simp del]

definition is_digit :: "char \<Rightarrow> bool" where
  "is_digit c \<longleftrightarrow> 48 \<le> byte_of c \<and> byte_of c \<le> 57"

definition digits_value :: "string \<Rightarrow> nat" where
  "digits_value s = foldl (\<lambda>n c. n * 10 + (byte_of c - 48)) 0 s"

text \<open>The verb \<open>%d\<close> into an unsigned integer of so many bits, and into a signed one.\<close>

definition scan_digits :: "string \<Rightarrow> (nat \<times> string) option" where
  "scan_digits s =
    (case takeWhile is_digit s of
       [] \<Rightarrow> None
     | ds \<Rightarrow> Some (digits_value ds, dropWhile is_digit s))"

definition scanUint :: "nat \<Rightarrow> string \<Rightarrow> (nat \<times> string) option" where
  "scanUint bits s =
    (case SkipSpace s of
       None \<Rightarrow> None
     | Some s \<Rightarrow>
        (case scan_digits s of
           None \<Rightarrow> None
         | Some (n, rest) \<Rightarrow> if n < 2 ^ bits then Some (n, rest) else None))"

definition scanInt :: "string \<Rightarrow> (int \<times> string) option" where
  "scanInt s =
    (case SkipSpace s of
       None \<Rightarrow> None
     | Some s \<Rightarrow>
        (let neg = (HasPrefix s ''-''); s = (if neg \<or> HasPrefix s ''+'' then tl s else s) in
         case scan_digits s of
           None \<Rightarrow> None
         | Some (n, rest) \<Rightarrow>
             let i = (if neg then - int n else int n) in
             if - (2 ^ 63) \<le> i \<and> i < 2 ^ 63 then Some (i, rest) else None))"

text \<open>A literal piece of the format.\<close>

definition scan_lit :: "string \<Rightarrow> string \<Rightarrow> string option" where
  "scan_lit lit s = (if HasPrefix s lit then Some (drop (length lit) s) else None)"

definition Sscanf_v :: "string \<Rightarrow> int option" where
  "Sscanf_v s = Option.bind (scan_lit ''v='' s) (\<lambda>s. map_option fst (scanInt s))"

definition Sscanf_mtp :: "string \<Rightarrow> (nat \<times> nat \<times> nat) option" where
  "Sscanf_mtp s =
    Option.bind (scan_lit ''m='' s) (\<lambda>s.
    Option.bind (scanUint 32 s) (\<lambda>(m, s).
    Option.bind (scan_lit '',t='' s) (\<lambda>s.
    Option.bind (scanUint 32 s) (\<lambda>(t, s).
    Option.bind (scan_lit '',p='' s) (\<lambda>s.
    Option.bind (scanUint 8 s) (\<lambda>(p, s). Some (m, t, p)))))))"

text \<open>
  \<open>base64.RawStdEncoding.Strict()\<close>: line ends are dropped, the unused bits of the last
  character must be zero.
\<close>

definition b64_value :: "char \<Rightarrow> nat option" where
  "b64_value c =
    (let b = byte_of c in
     if 65 \<le> b \<and> b \<le> 90 then Some (b - 65)
     else if 97 \<le> b \<and> b \<le> 122 then Some (b - 97 + 26)
     else if 48 \<le> b \<and> b \<le> 57 then Some (b - 48 + 52)
     else if c = CHR ''+'' then Some 62
     else if c = CHR ''/'' then Some 63 else None)"

fun b64_groups :: "nat list \<Rightarrow> bytes option" where
  "b64_groups [] = Some []"
| "b64_groups [v] = None"
| "b64_groups [v, w] =
    (if w mod 16 = 0 then Some [char_of (v * 4 + w div 16)] else None)"
| "b64_groups [v, w, x] =
    (if x mod 4 = 0
     then Some [char_of (v * 4 + w div 16), char_of (w mod 16 * 16 + x div 4)] else None)"
| "b64_groups (v # w # x # y # rest) =
    map_option (\<lambda>bs. char_of (v * 4 + w div 16) # char_of (w mod 16 * 16 + x div 4)
        # char_of (x mod 4 * 64 + y) # bs) (b64_groups rest)"

definition DecodeString :: "string \<Rightarrow> bytes option" where
  "DecodeString s =
    (let vs = map b64_value (filter (\<lambda>c. byte_of c \<notin> {10, 13}) s) in
     if list_all (\<lambda>v. v \<noteq> None) vs then b64_groups (map the vs) else None)"

definition decodeHash :: "string \<Rightarrow> (32 word \<times> 32 word \<times> 8 word \<times> bytes \<times> bytes) option" where
  "decodeHash encodedHash =
    (let parts = Split encodedHash (CHR ''$'') in
     if length parts \<noteq> 6 \<or> parts ! 1 \<noteq> ''argon2id'' then None
     else if Sscanf_v (parts ! 2) \<noteq> Some (int argon2_Version) then None
     else
       Option.bind (Sscanf_mtp (parts ! 3)) (\<lambda>(m, t, p).
       Option.bind (DecodeString (parts ! 4)) (\<lambda>salt.
       Option.bind (DecodeString (parts ! 5)) (\<lambda>key.
       if key = [] then None
       else Some (word_of_nat m, word_of_nat t, word_of_nat p, salt, key)))))"

section \<open>Verify and NeedsRehash\<close>

datatype verdict = Match | ErrMismatch | Malformed

definition Verify :: "env \<Rightarrow> string \<Rightarrow> string \<Rightarrow> verdict" where
  "Verify e password encodedHash =
    (case decodeHash encodedHash of
       None \<Rightarrow> Malformed
     | Some (m, t, p, salt, want) \<Rightarrow>
         if argon2_IDKey e password salt t m p (length want) = want then Match else ErrMismatch)"

definition NeedsRehash :: "Hasher \<Rightarrow> string \<Rightarrow> bool" where
  "NeedsRehash h encodedHash =
    (case decodeHash encodedHash of
       None \<Rightarrow> True
     | Some (m, t, p, _, _) \<Rightarrow> m < memoryKiB h \<or> t < iterations h \<or> p < parallelism h)"

section \<open>Decimal numbers read back\<close>

lemma byte_digit: "d < 10 \<Longrightarrow> byte_of (digit_char d) = 48 + d"
  by (simp add: digit_char_def byte_of_char_of)

lemma dec_nat_small: "n < 10 \<Longrightarrow> dec_nat n = [digit_char n]"
  by (subst dec_nat.simps) simp

lemma dec_nat_large: "\<not> n < 10 \<Longrightarrow> dec_nat n = dec_nat (n div 10) @ [digit_char (n mod 10)]"
  by (subst dec_nat.simps) simp

lemma dec_nat_digits: "\<forall>c \<in> set (dec_nat n). is_digit c"
proof (induction n rule: dec_nat.induct)
  case (1 n)
  then show ?case
    by (cases "n < 10") (auto simp: dec_nat_small dec_nat_large is_digit_def byte_digit)
qed

lemma dec_nat_nonempty: "dec_nat n \<noteq> []"
  by (cases "n < 10") (simp_all add: dec_nat_small dec_nat_large)

lemma digits_value_snoc: "digits_value (s @ [c]) = digits_value s * 10 + (byte_of c - 48)"
  by (simp add: digits_value_def)

lemma digits_value_dec [simp]: "digits_value (dec_nat n) = n"
proof (induction n rule: dec_nat.induct)
  case (1 n)
  show ?case
  proof (cases "n < 10")
    case True
    then show ?thesis by (simp add: dec_nat_small digits_value_def byte_digit)
  next
    case False
    with 1 show ?thesis by (simp add: dec_nat_large digits_value_snoc byte_digit)
  qed
qed

definition no_digit :: "string \<Rightarrow> bool" where
  "no_digit s \<longleftrightarrow> s = [] \<or> \<not> is_digit (hd s)"

lemma scan_digits_dec:
  assumes "no_digit rest" shows "scan_digits (dec_nat n @ rest) = Some (n, rest)"
proof -
  from assms have "takeWhile is_digit rest = []" "dropWhile is_digit rest = rest"
    by (cases rest; simp add: no_digit_def)+
  then have "takeWhile is_digit (dec_nat n @ rest) = dec_nat n"
    "dropWhile is_digit (dec_nat n @ rest) = rest"
    using dec_nat_digits [of n]
    by (simp_all add: takeWhile_append2 dropWhile_append2)
  then show ?thesis
    using dec_nat_nonempty [of n] digits_value_dec [of n]
    by (cases "dec_nat n") (simp_all add: scan_digits_def)
qed

lemma dec_nat_hd: "\<exists>c r. dec_nat n @ rest = c # r \<and> is_digit c"
  using dec_nat_nonempty [of n] dec_nat_digits [of n]
  by (cases "dec_nat n") auto

lemma SkipSpace_digit: "is_digit c \<Longrightarrow> SkipSpace (c # r) = Some (c # r)"
  by (subst SkipSpace.simps) (auto simp: space_rune_def is_digit_def Let_def split: list.split)

lemma SkipSpace_dec: "SkipSpace (dec_nat n @ rest) = Some (dec_nat n @ rest)"
  using dec_nat_hd [of n rest] SkipSpace_digit by metis

lemma scanUint_dec:
  "no_digit rest \<Longrightarrow> n < 2 ^ bits \<Longrightarrow> scanUint bits (dec_nat n @ rest) = Some (n, rest)"
  by (simp add: scanUint_def SkipSpace_dec scan_digits_dec)

section \<open>Base64 read back\<close>

lemma b64_value_char: "v < 64 \<Longrightarrow> b64_value (b64_char (CHR ''+'') (CHR ''/'') v) = Some v"
proof -
  assume "v < 64"
  then consider "v < 26" | "26 \<le> v" "v < 52" | "52 \<le> v" "v < 62" | "v = 62" | "v = 63" by linarith
  then show ?thesis
    by cases (auto simp: b64_char_def b64_value_def byte_of_char_of Let_def, auto simp: byte_of_def)
qed

lemma b64_char_plain:
  "v < 64 \<Longrightarrow> byte_of (b64_char (CHR ''+'') (CHR ''/'') v) \<notin> {10, 13, 36}"
proof -
  assume "v < 64"
  then consider "v < 26" | "26 \<le> v" "v < 52" | "52 \<le> v" "v < 62" | "v = 62" | "v = 63" by linarith
  then show ?thesis
    by cases (auto simp: b64_char_def byte_of_char_of, auto simp: byte_of_def)
qed

text \<open>The sextets of a byte string; \<open>b64_encode\<close> writes one character for each.\<close>

fun sextets :: "bytes \<Rightarrow> nat list" where
  "sextets [] = []"
| "sextets [a] = (let x = byte_of a in [x div 4, (x mod 4) * 16])"
| "sextets [a, b] =
    (let x = byte_of a; y = byte_of b in [x div 4, (x mod 4) * 16 + y div 16, (y mod 16) * 4])"
| "sextets (a # b # c # rest) =
    (let x = byte_of a; y = byte_of b; z = byte_of c in
     [x div 4, (x mod 4) * 16 + y div 16, (y mod 16) * 4 + z div 64, z mod 64])
    @ sextets rest"

lemma b64_encode_sextets: "b64_encode c62 c63 bs = map (b64_char c62 c63) (sextets bs)"
  by (induction bs rule: sextets.induct) (simp_all add: Let_def)

lemma sextet_bounds:
  fixes x y z :: nat
  assumes "x < 256" "y < 256" "z < 256"
  shows "x div 4 < 64" "x mod 4 * 16 + y div 16 < 64" "y mod 16 * 4 + z div 64 < 64"
    "x mod 4 * 16 < 64" "y mod 16 * 4 < 64"
proof -
  have "x mod 4 < 4" "y div 16 < 16" "y mod 16 < 16" "z div 64 < 4"
    using assms by auto
  then show "x mod 4 * 16 + y div 16 < 64" "y mod 16 * 4 + z div 64 < 64"
    "x mod 4 * 16 < 64" "y mod 16 * 4 < 64" by linarith+
  show "x div 4 < 64" using assms by auto
qed

lemma sextets_bound: "\<forall>v \<in> set (sextets bs). v < 64"
  by (induction bs rule: sextets.induct)
    (auto simp: Let_def intro!: sextet_bounds sextet_bounds(1) [of _ 0 0] byte_of_bound)

lemma char_of_byte_of [simp]: "char_of (byte_of c) = c"
  by (simp add: byte_of_def)

lemma sextet_join:
  "y < 16 \<Longrightarrow> x div 4 * 4 + ((x mod 4) * 16 + y) div 16 = (x :: nat)"
  by (simp add: div_mult_mod_eq)

lemma sextet_join2:
  fixes x y z :: nat
  assumes "y < 256" "z < 4"
  shows "((x mod 4) * 16 + y div 16) mod 16 * 16 + ((y mod 16) * 4 + z) div 4 = y"
proof -
  have "y div 16 < 16" using assms by auto
  then have "((x mod 4) * 16 + y div 16) mod 16 = y div 16" by simp
  moreover have "((y mod 16) * 4 + z) div 4 = y mod 16" using assms by simp
  ultimately show ?thesis by (simp add: div_mult_mod_eq)
qed

lemma sextet_join3:
  fixes y z :: nat
  assumes "z < 256"
  shows "((y mod 16) * 4 + z div 64) mod 4 * 64 + z mod 64 = z"
proof -
  have "z div 64 < 4" using assms by auto
  then have "((y mod 16) * 4 + z div 64) mod 4 = z div 64" by simp
  then show ?thesis by (simp add: div_mult_mod_eq)
qed

lemma groups_sextets: "b64_groups (sextets bs) = Some bs"
proof (induction bs rule: sextets.induct)
  case (2 a)
  then show ?case using sextet_join [of 0 "byte_of a"] by (simp add: Let_def)
next
  case (3 a b)
  have "byte_of b div 16 < 16" using byte_of_bound [of b] by auto
  then show ?case
    using sextet_join [of "byte_of b div 16" "byte_of a"]
      sextet_join2 [of "byte_of b" 0 "byte_of a"] byte_of_bound [of b]
    by (simp add: Let_def)
next
  case (4 a b c rest)
  have "byte_of b div 16 < 16" "byte_of c div 64 < 4"
    using byte_of_bound [of b] byte_of_bound [of c] by auto
  then show ?case
    using sextet_join [of "byte_of b div 16" "byte_of a"] 4
      sextet_join2 [of "byte_of b" "byte_of c div 64" "byte_of a"]
      sextet_join3 [of "byte_of c" "byte_of b"] byte_of_bound [of b] byte_of_bound [of c]
    by (simp add: Let_def)
qed simp

lemma RawStd_plain: "\<forall>c \<in> set (RawStdEncoding bs). byte_of c \<notin> {10, 13, 36}"
  using sextets_bound [of bs] b64_char_plain
  unfolding RawStdEncoding_def b64_encode_sextets by (simp only: set_map) blast

lemma DecodeString_RawStd [simp]: "DecodeString (RawStdEncoding bs) = Some bs"
proof -
  have "filter (\<lambda>c. byte_of c \<notin> {10, 13}) (RawStdEncoding bs) = RawStdEncoding bs"
    using RawStd_plain [of bs] by (intro filter_True) blast
  moreover have "map b64_value (RawStdEncoding bs) = map Some (sextets bs)"
    using sextets_bound [of bs]
    by (simp add: RawStdEncoding_def b64_encode_sextets b64_value_char)
  ultimately show ?thesis
    by (simp add: DecodeString_def Let_def list_all_iff comp_def groups_sextets)
qed

section \<open>A stored hash reads back\<close>

lemma Split_no_sep: "sep \<notin> set s \<Longrightarrow> Split s sep = [s]"
  by (induction s) auto

lemma Split_nonempty: "Split s sep \<noteq> []"
  by (induction s) (auto split: list.split)

lemma Split_append: "sep \<notin> set a \<Longrightarrow> Split (a @ sep # b) sep = a # Split b sep"
proof (induction a)
  case Nil
  then show ?case using Split_nonempty [of b sep] by (cases "Split b sep") auto
qed auto

lemma Split_four:
  "sep \<notin> set a \<Longrightarrow> sep \<notin> set b \<Longrightarrow> sep \<notin> set c \<Longrightarrow> sep \<notin> set d \<Longrightarrow>
   Split (a @ sep # b @ sep # c @ sep # d) sep = [a, b, c, d]"
  by (simp add: Split_append Split_no_sep)

lemma dollar_free:
  "CHR ''$'' \<notin> set (dec_nat n)" "CHR ''$'' \<notin> set (RawStdEncoding bs)"
  using dec_nat_digits [of n] RawStd_plain [of bs]
  by (auto simp: is_digit_def byte_of_def)

lemma scan_lit_append: "scan_lit l (l @ s) = Some s"
  by (simp add: scan_lit_def HasPrefix_def)

lemma Sscanf_mtp_dec:
  assumes "m < 2 ^ 32" "t < 2 ^ 32" "p < 2 ^ 8"
  shows "Sscanf_mtp (''m='' @ dec_nat m @ '',t='' @ dec_nat t @ '',p='' @ dec_nat p)
       = Some (m, t, p)"
proof -
  have "no_digit ('',t='' @ s)" "no_digit ('',p='' @ s)" for s
    by (simp_all add: no_digit_def is_digit_def byte_of_def)
  with assms have
    "scanUint 32 (dec_nat m @ '',t='' @ s) = Some (m, '',t='' @ s)"
    "scanUint 32 (dec_nat t @ '',p='' @ s) = Some (t, '',p='' @ s)" for s
    by (simp_all only: scanUint_dec)
  moreover have "scanUint 8 (dec_nat p) = Some (p, [])"
    using scanUint_dec [of "[]" p 8] assms(3) by (simp add: no_digit_def)
  ultimately show ?thesis
    by (simp only: Sscanf_mtp_def scan_lit_append Option.bind.simps prod.case)
qed

lemma decodeHash_phc:
  assumes "key \<noteq> []"
  shows "decodeHash (phc_encode m t p salt key) = Some (m, t, p, salt, key)"
proof -
  let ?v = "''v='' @ dec_nat argon2_Version"
  let ?c = "''m='' @ dec_nat (unat m) @ '',t='' @ dec_nat (unat t) @ '',p='' @ dec_nat (unat p)"
  let ?tail = "?v @ CHR ''$'' # ?c @ CHR ''$'' # RawStdEncoding salt @ CHR ''$'' # RawStdEncoding key"
  have free: "CHR ''$'' \<notin> set ?v" "CHR ''$'' \<notin> set ?c" "CHR ''$'' \<notin> set ''argon2id''"
    using dollar_free by simp_all
  have tail: "Split ?tail (CHR ''$'') = ?v # ?c # [RawStdEncoding salt, RawStdEncoding key]"
    by (intro Split_four free dollar_free)
  have "phc_encode m t p salt key = [] @ CHR ''$'' # ''argon2id'' @ CHR ''$'' # ?tail"
    by (simp add: phc_encode_def)
  moreover have "Split ([] @ CHR ''$'' # ''argon2id'' @ CHR ''$'' # ?tail) (CHR ''$'')
      = '''' # ''argon2id'' # Split ?tail (CHR ''$'')"
    using free(3) by (simp only: Split_append list.set empty_iff simp_thms)
  ultimately have parts: "Split (phc_encode m t p salt key) (CHR ''$'')
      = ['''', ''argon2id'', ?v, ?c, RawStdEncoding salt, RawStdEncoding key]"
    by (simp only: tail)
  have "scanInt (dec_nat 19) = Some (19, [])"
    using SkipSpace_dec [of 19 "[]"] scan_digits_dec [of "[]" 19]
    by (simp add: scanInt_def dec_nat_large dec_nat_small digit_char_def HasPrefix_def no_digit_def
        Let_def char_of_def)
  then have "Sscanf_v ?v = Some (int argon2_Version)"
    by (simp only: Sscanf_v_def scan_lit_append argon2_Version_def) simp
  moreover have "Sscanf_mtp ?c = Some (unat m, unat t, unat p)"
    using unsigned_less [of m] unsigned_less [of t] unsigned_less [of p]
    by (intro Sscanf_mtp_dec) simp_all
  ultimately show ?thesis
    using assms by (simp add: decodeHash_def parts)
qed

section \<open>Hashing leaves the database alone\<close>

context db_relation begin

lemma obeys_rand_Read [obeys_intros]: "obeys R (rand_Read e n)"
  by (auto simp: obeys_def rand_Read_def rel_refl)

lemma obeys_Hash [obeys_intros]: "obeys R (Hash e h password)"
  unfolding Hash_def by (intro obeys_intros)

lemma obeys_verdict [obeys_intros]:
  "(v = Match \<Longrightarrow> obeys R a) \<Longrightarrow> (v = ErrMismatch \<Longrightarrow> obeys R b) \<Longrightarrow> (v = Malformed \<Longrightarrow> obeys R c) \<Longrightarrow>
   obeys R (case v of Match \<Rightarrow> a | ErrMismatch \<Rightarrow> b | Malformed \<Rightarrow> c)"
  by (cases v) auto

end

end
