(* ===== verification/Accounts.thy ===== *)
theory Accounts
  imports Links_Repo Audit_Trail Password
begin

text \<open>
  The account rules of the identity service: \<open>service.go\<close> up to the section on users,
  \<open>password_reset.go\<close> and \<open>email_verification.go\<close>. Log lines are left out; an error that
  the code only logs is an \<open>attempt\<close> whose result is dropped.
\<close>

section \<open>Validation\<close>

definition normalizeEmail :: "env \<Rightarrow> string \<Rightarrow> error + string" where
  "normalizeEmail e email0 =
    (let email = ToLower (ulower e) (TrimSpace (uspace e) email0) in
     if email = '''' then Inl (invalid ''email is required'')
     else if ParseAddress e email \<noteq> Some email
       then Inl (invalid ''email is not a valid address'')
     else if length email > 254 then Inl (invalid ''email is too long'')
     else Inr email)"

definition validatePassword :: "env \<Rightarrow> string \<Rightarrow> error + unit" where
  "validatePassword e password =
    (if int (length password) < MinPasswordLength (auth_cfg e)
     then Inl (invalid (''password must be at least '' @ dec_int (MinPasswordLength (auth_cfg e))
            @ '' characters''))
     else if length password > 1024
     then Inl (invalid ''password must be at most 1024 characters'')
     else Inr ())"

text \<open>\<open>int(d.Hours())\<close>: truncation toward zero.\<close>

definition Hours :: "duration \<Rightarrow> int" where
  "Hours d = (if d \<ge> 0 then d div hour else - ((- d) div hour))"

text \<open>\<open>RequestMeta\<close> of the service.\<close>

record login_meta =
  UserAgent :: string
  IPAddress :: string

definition send_op :: "env \<Rightarrow> message \<Rightarrow> mail_error option op" where
  "send_op e msg = (\<lambda>w. case Send e msg w of (r, w') \<Rightarrow> (Inr r, w'))"

section \<open>Email verification\<close>

definition issue_verification :: "env \<Rightarrow> user \<Rightarrow> bytes \<Rightarrow> unit op" where
  "issue_verification e u digest = InTx e (
     then_op (InvalidateEmailVerifications e (userID u))
       (CreateEmailVerification e (userID u) (Email u) digest
          (go_now e + EmailVerifyTTL (auth_cfg e))))"

definition SendVerificationEmail :: "env \<Rightarrow> user \<Rightarrow> unit op" where
  "SendVerificationEmail e u =
    (if IsVerified u then return_op ()
     else bind_op (attempt (NewToken e EmailVerifyTokenPrefix)) (\<lambda>tok.
       case tok of Inl _ \<Rightarrow> return_op () | Inr (plaintext, digest) \<Rightarrow>
       bind_op (attempt (issue_verification e u digest)) (\<lambda>r.
       case r of Inl _ \<Rightarrow> return_op () | Inr _ \<Rightarrow>
       let msg = (EmailVerification (BaseURL (mail_cfg e)) plaintext
                    (Hours (EmailVerifyTTL (auth_cfg e))))\<lparr>To := Email u\<rparr> in
       then_op (send_op e msg) (return_op ()))))"

definition VerifyEmail :: "env \<Rightarrow> string \<Rightarrow> user op" where
  "VerifyEmail e token = InTx e (
     bind_op (ConsumeEmailVerification e (HashToken e token)) (\<lambda>(uid, email).
     bind_op (MarkEmailVerified e uid email) (\<lambda>u.
     then_op (Record e (Event (Some uid) ActionEmailVerified ''user'' (uuid_String e uid)
         [(''email'', JStr email)]))
     (return_op u))))"

definition ResendVerification :: "env \<Rightarrow> user \<Rightarrow> unit op" where
  "ResendVerification e u =
    (if IsVerified u then fail_op (invalid ''this address is already verified'')
     else SendVerificationEmail e u)"

section \<open>Registration\<close>

definition Register :: "env \<Rightarrow> string \<Rightarrow> string \<Rightarrow> string \<Rightarrow> string \<Rightarrow> user op" where
  "Register e email0 password firstName lastName =
    bind_op (lift_op (normalizeEmail e email0)) (\<lambda>email.
    then_op (lift_op (validatePassword e password)) (
    bind_op (Hash e (service_hasher e) password) (\<lambda>hash.
    bind_op (InTx e (
        bind_op (CreateUser e email hash (TrimSpace (uspace e) firstName)
            (TrimSpace (uspace e) lastName)) (\<lambda>u.
        then_op (Record e (Event (Some (userID u)) ActionUserRegistered ''user''
            (uuid_String e (userID u)) [(''email'', JStr email)]))
        (return_op u)))) (\<lambda>u.
    then_op (SendVerificationEmail e u) (return_op u)))))"

section \<open>Sessions\<close>

definition recordFailedLogin :: "env \<Rightarrow> string \<Rightarrow> uuid option \<Rightarrow> string \<Rightarrow> unit op" where
  "recordFailedLogin e email uid reason =
    then_op (attempt (Record e (Event uid ActionLoginFailed ''user'' ''''
        [(''email'', JStr email), (''reason'', JStr reason)])))
      (return_op ())"

definition reject_login :: "env \<Rightarrow> string \<Rightarrow> uuid option \<Rightarrow> string \<Rightarrow> (string \<times> user) op" where
  "reject_login e email uid reason =
    then_op (recordFailedLogin e email uid reason) (fail_op ErrInvalidCredentials)"

definition dummy_hash :: "env \<Rightarrow> string \<Rightarrow> unit op" where
  "dummy_hash e password =
    then_op (attempt (Hash e (service_hasher e) password)) (return_op ())"

text \<open>The transparent upgrade of a weaker hash, and the issue of the session.\<close>

definition upgrade_hash :: "env \<Rightarrow> string \<Rightarrow> user \<Rightarrow> unit op" where
  "upgrade_hash e password u =
    (if NeedsRehash (service_hasher e) (PasswordHash u) then
       bind_op (attempt (Hash e (service_hasher e) password)) (\<lambda>h.
       case h of Inl _ \<Rightarrow> return_op ()
       | Inr newHash \<Rightarrow>
           then_op (attempt (UpdateUserPassword e (userID u) newHash)) (return_op ()))
     else return_op ())"

definition start_session :: "env \<Rightarrow> user \<Rightarrow> login_meta \<Rightarrow> (string \<times> user) op" where
  "start_session e u meta =
    bind_op (NewToken e SessionTokenPrefix) (\<lambda>(plaintext, digest).
    then_op (InTx e (
      then_op (CreateSession e (userID u) digest (go_now e + SessionTTL (auth_cfg e))
          (UserAgent meta) (IPAddress meta))
        (Record e (Event (Some (userID u)) ActionUserLoggedIn ''user''
          (uuid_String e (userID u))
          [(''ip'', JStr (IPAddress meta)), (''user_agent'', JStr (UserAgent meta))]))))
    (return_op (plaintext, u)))"

definition Login :: "env \<Rightarrow> string \<Rightarrow> string \<Rightarrow> login_meta \<Rightarrow> (string \<times> user) op" where
  "Login e email0 password meta =
    (let email = ToLower (ulower e) (TrimSpace (uspace e) email0) in
     bind_op (attempt (GetUserByEmail e email)) (\<lambda>found.
     case found of
       Inl err \<Rightarrow>
         if err = ErrNotFound
         then then_op (dummy_hash e password) (reject_login e email None ''unknown_email'')
         else fail_op err
     | Inr u \<Rightarrow>
         if PasswordHash u = '''' \<or> \<not> IsActive u then
           then_op (dummy_hash e password)
             (reject_login e email (Some (userID u))
                (if PasswordHash u = '''' then ''no_password_set'' else ''deactivated''))
         else
           (case Verify e password (PasswordHash u) of
              ErrMismatch \<Rightarrow> reject_login e email (Some (userID u)) ''wrong_password''
            | Malformed \<Rightarrow> reject_login e email (Some (userID u)) ''corrupt_hash''
            | Match \<Rightarrow> then_op (upgrade_hash e password u) (start_session e u meta))))"

definition Authenticate :: "env \<Rightarrow> string \<Rightarrow> (user \<times> session) op" where
  "Authenticate e token =
    (if token = '''' then fail_op ErrUnauthenticated
     else AuthenticateSession e (HashToken e token))"

definition Logout :: "env \<Rightarrow> string \<Rightarrow> uuid \<Rightarrow> unit op" where
  "Logout e token uid = InTx e (
     then_op (repo_RevokeSession e (HashToken e token))
       (Record e (Event (Some uid) ActionUserLoggedOut ''user'' (uuid_String e uid) [])))"

definition ListSessions :: "env \<Rightarrow> uuid \<Rightarrow> session list op" where
  "ListSessions e uid = ListUserSessions e uid"

definition RevokeSession :: "env \<Rightarrow> user \<Rightarrow> uuid \<Rightarrow> unit op" where
  "RevokeSession e actor sid = InTx e (
     then_op (RevokeSessionByID e (userID actor) sid)
       (Record e (Event (Some (userID actor)) ActionSessionRevoked ''session''
          (uuid_String e sid) [])))"

definition ChangePassword :: "env \<Rightarrow> uuid \<Rightarrow> string \<Rightarrow> string \<Rightarrow> unit op" where
  "ChangePassword e uid current new_pw =
    then_op (lift_op (validatePassword e new_pw)) (
    bind_op (GetUserByID e uid) (\<lambda>u.
    then_op (refuse_if (PasswordHash u = '''') ErrInvalidCredentials) (
    then_op (refuse_if (Verify e current (PasswordHash u) \<noteq> Match) ErrInvalidCredentials) (
    bind_op (Hash e (service_hasher e) new_pw) (\<lambda>hash.
    InTx e (
      then_op (UpdateUserPassword e uid hash) (
      bind_op (RevokeUserSessions e uid) (\<lambda>revoked.
      Record e (Event (Some uid) ActionPasswordChanged ''user'' (uuid_String e uid)
        [(''sessions_revoked'', JInt (int revoked))])))))))))"

definition CleanupSessions :: "env \<Rightarrow> duration \<Rightarrow> nat op" where
  "CleanupSessions e retain = DeleteDeadSessions e retain"

section \<open>Password reset\<close>

definition recordResetRequest :: "env \<Rightarrow> uuid option \<Rightarrow> string \<Rightarrow> string \<Rightarrow> unit op" where
  "recordResetRequest e uid email reason =
    then_op (attempt (Record e (Event uid ActionPasswordResetRejected ''user'' ''''
        [(''email'', JStr email), (''reason'', JStr reason)])))
      (return_op ())"

definition issue_reset :: "env \<Rightarrow> user \<Rightarrow> string \<Rightarrow> bytes \<Rightarrow> login_meta \<Rightarrow> unit op" where
  "issue_reset e u email digest meta = InTx e (
     then_op (InvalidatePasswordResets e (userID u)) (
     then_op (CreatePasswordReset e (userID u) digest
         (go_now e + PasswordResetTTL (auth_cfg e)) (IPAddress meta) (UserAgent meta))
       (Record e (Event (Some (userID u)) ActionPasswordResetRequested ''user''
         (uuid_String e (userID u)) [(''email'', JStr email)]))))"

definition RequestPasswordReset :: "env \<Rightarrow> string \<Rightarrow> login_meta \<Rightarrow> unit op" where
  "RequestPasswordReset e email0 meta =
    (let email = ToLower (ulower e) (TrimSpace (uspace e) email0) in
     bind_op (attempt (GetUserByEmail e email)) (\<lambda>found.
     case found of
       Inl err \<Rightarrow>
         if isNotFound err then recordResetRequest e None email ''unknown_email''
         else return_op ()
     | Inr u \<Rightarrow>
         if \<not> IsActive u then recordResetRequest e (Some (userID u)) email ''deactivated''
         else if PasswordHash u = ''''
           then recordResetRequest e (Some (userID u)) email ''no_password_set''
         else
           bind_op (attempt (NewToken e PasswordResetTokenPrefix)) (\<lambda>tok.
           case tok of Inl _ \<Rightarrow> return_op () | Inr (plaintext, digest) \<Rightarrow>
           bind_op (attempt (issue_reset e u email digest meta)) (\<lambda>r.
           case r of Inl _ \<Rightarrow> return_op () | Inr _ \<Rightarrow>
           let msg = (PasswordReset (BaseURL (mail_cfg e)) plaintext
                        (Hours (PasswordResetTTL (auth_cfg e))))\<lparr>To := email\<rparr> in
           then_op (send_op e msg) (return_op ())))))"

definition ResetPassword :: "env \<Rightarrow> string \<Rightarrow> string \<Rightarrow> unit op" where
  "ResetPassword e token newPassword =
    then_op (lift_op (validatePassword e newPassword)) (
    bind_op (Hash e (service_hasher e) newPassword) (\<lambda>hash.
    InTx e (
      bind_op (ConsumePasswordReset e (HashToken e token)) (\<lambda>uid.
      then_op (UpdateUserPassword e uid hash) (
      bind_op (RevokeUserSessions e uid) (\<lambda>revoked.
      then_op (InvalidatePasswordResets e uid) (
      Record e (Event (Some uid) ActionPasswordReset ''user'' (uuid_String e uid)
        [(''sessions_revoked'', JInt (int revoked))]))))))))"

definition CleanupPasswordResets :: "env \<Rightarrow> duration \<Rightarrow> nat op" where
  "CleanupPasswordResets e retain = DeleteDeadPasswordResets e retain"

definition CleanupEmailVerifications :: "env \<Rightarrow> duration \<Rightarrow> nat op" where
  "CleanupEmailVerifications e retain = DeleteDeadEmailVerifications e retain"

section \<open>Account operations hand out no authority\<close>

context db_relation begin

lemma obeys_send_op [obeys_intros]: "obeys R (send_op e msg)"
  by (auto simp: obeys_def send_op_def rel_refl split: prod.splits)

end

lemma keeps_mail_flows [obeys_intros]:
  "obeys (keeps p T) (SendVerificationEmail e u)"
  "obeys (keeps p T) (VerifyEmail e token)"
  "obeys (keeps p T) (ResendVerification e u)"
  "obeys (keeps p T) (RequestPasswordReset e email meta)"
  "obeys (keeps p T) (ResetPassword e token password)"
proof -
  show *: "obeys (keeps p T) (SendVerificationEmail e u)" for u
    unfolding SendVerificationEmail_def issue_verification_def by (intro obeys_intros)
  show "obeys (keeps p T) (VerifyEmail e token)"
    unfolding VerifyEmail_def by (intro obeys_intros)
  show "obeys (keeps p T) (ResendVerification e u)"
    unfolding ResendVerification_def by (intro obeys_intros *)
  show "obeys (keeps p T) (RequestPasswordReset e email meta)"
    unfolding RequestPasswordReset_def recordResetRequest_def issue_reset_def
    by (intro obeys_intros)
  show "obeys (keeps p T) (ResetPassword e token password)"
    unfolding ResetPassword_def by (intro obeys_intros)
qed

lemma keeps_account_ops [obeys_intros]:
  "obeys (keeps p T) (Register e email password fn ln)"
  "obeys (keeps p T) (Login e email password meta)"
  "obeys (keeps p T) (Authenticate e token)"
  "obeys (keeps p T) (Logout e token uid)"
  "obeys (keeps p T) (ListSessions e uid)"
  "obeys (keeps p T) (RevokeSession e actor sid)"
  "obeys (keeps p T) (ChangePassword e uid current new_pw)"
proof -
  show "obeys (keeps p T) (Register e email password fn ln)"
    unfolding Register_def by (intro obeys_intros)
  show "obeys (keeps p T) (Login e email password meta)"
    unfolding Login_def reject_login_def recordFailedLogin_def dummy_hash_def upgrade_hash_def
      start_session_def
    by (intro obeys_intros)
  show "obeys (keeps p T) (Authenticate e token)"
    unfolding Authenticate_def by (intro obeys_intros)
  show "obeys (keeps p T) (Logout e token uid)"
    unfolding Logout_def by (intro obeys_intros)
  show "obeys (keeps p T) (ListSessions e uid)"
    unfolding ListSessions_def by (intro obeys_intros)
  show "obeys (keeps p T) (RevokeSession e actor sid)"
    unfolding RevokeSession_def by (intro obeys_intros)
  show "obeys (keeps p T) (ChangePassword e uid current new_pw)"
    unfolding ChangePassword_def by (intro obeys_intros)
qed

lemma keeps_cleanups [obeys_intros]:
  "obeys (keeps p T) (CleanupSessions e retain)"
  "obeys (keeps p T) (CleanupPasswordResets e retain)"
  "obeys (keeps p T) (CleanupEmailVerifications e retain)"
  unfolding CleanupSessions_def CleanupPasswordResets_def CleanupEmailVerifications_def
  by (intro obeys_intros)+

lemmas lawful_accounts [obeys_intros] = keeps_mail_flows [THEN keeps_lawful]
  keeps_account_ops [THEN keeps_lawful] keeps_cleanups [THEN keeps_lawful]

end
