(* ===== verification/API_Keys_Repo.thy ===== *)
theory API_Keys_Repo
  imports Users_Repo
begin

text \<open>
  \<open>internal/identity/apikeys_repository.go\<close>: the statements on API keys and their frozen
  permissions. \<open>collectAPIKeys\<close> is the third user of the fan-in loop.
\<close>

definition key_of :: "api_key_row \<Rightarrow> permission_set \<Rightarrow> api_key" where
  "key_of k ps =
    \<lparr>keyID = k_id k, keyUserID = k_user_id k, keyName = k_name k, TokenPrefix = k_token_prefix k,
     keyPermissions = ps, keyExpiresAt = k_expires_at k, keyLastUsedAt = k_last_used_at k,
     keyRevokedAt = k_revoked_at k, keyCreatedAt = k_created_at k\<rparr>"

definition scan_key :: "api_key_row \<Rightarrow> api_key" where
  "scan_key k = key_of k {}"

definition add_key_permission :: "permission \<Rightarrow> api_key \<Rightarrow> api_key" where
  "add_key_permission p k = k\<lparr>keyPermissions := insert p (keyPermissions k)\<rparr>"

definition collectAPIKeys :: "api_key_row joined list \<Rightarrow> api_key list" where
  "collectAPIKeys rows = fan_in k_id scan_key add_key_permission rows"

interpretation key_rows: collector k_id scan_key add_key_permission key_of
  by unfold_locales (simp_all add: scan_key_def add_key_permission_def key_of_def)

definition perms_of_key :: "database \<Rightarrow> uuid \<Rightarrow> permission list" where
  "perms_of_key d kid = map snd (filter (\<lambda>(k, _). k = kid) (api_key_permissions d))"

section \<open>Creating, listing and revoking\<close>

definition insert_api_key ::
  "env \<Rightarrow> uuid \<Rightarrow> string \<Rightarrow> string \<Rightarrow> bytes \<Rightarrow> time option \<Rightarrow> api_key_row stmt" where
  "insert_api_key e uid name tokenPrefix digest expiresAt u d =
    (let row = \<lparr>k_id = u, k_user_id = uid, k_name = name, k_token_hash = digest,
                k_token_prefix = tokenPrefix, k_expires_at = expiresAt, k_last_used_at = None,
                k_revoked_at = None, k_created_at = sql_now e\<rparr> in
     if list_ex (\<lambda>x. k_id x = u) (api_keys d) then Inl (UniqueViolation ''api_keys_pkey'')
     else if list_ex (\<lambda>x. k_token_hash x = digest) (api_keys d)
       then Inl (UniqueViolation ''api_keys_token_hash_key'')
     else if \<not> list_ex (\<lambda>x. u_id x = uid) (users d)
       then Inl (ForeignKeyViolation ''api_keys_user_id_fkey'')
     else Inr (row, d\<lparr>api_keys := api_keys d @ [row]\<rparr>))"

definition insert_key_permission :: "uuid \<Rightarrow> permission \<Rightarrow> unit stmt" where
  "insert_key_permission kid p u d =
    (if (kid, p) \<in> set (api_key_permissions d)
       then Inl (UniqueViolation ''api_key_permissions_pkey'')
     else if \<not> list_ex (\<lambda>(k, _). k = p) (permissions d)
       then Inl (ForeignKeyViolation ''api_key_permissions_permission_fkey'')
     else if \<not> list_ex (\<lambda>x. k_id x = kid) (api_keys d)
       then Inl (ForeignKeyViolation ''api_key_permissions_api_key_id_fkey'')
     else Inr ((), d\<lparr>api_key_permissions := api_key_permissions d @ [(kid, p)]\<rparr>))"

definition repo_CreateAPIKey ::
  "env \<Rightarrow> uuid \<Rightarrow> string \<Rightarrow> string \<Rightarrow> bytes \<Rightarrow> permission_set \<Rightarrow> time option \<Rightarrow> api_key op" where
  "repo_CreateAPIKey e uid name tokenPrefix digest perms expiresAt =
    bind_op (query e [name, tokenPrefix]
        (insert_api_key e uid name tokenPrefix digest expiresAt) ErrSQL) (\<lambda>k.
    then_op
      (for_each (\<lambda>p. query e [p] (insert_key_permission (k_id k) p) (\<lambda>pe.
           if isForeignKeyViolation pe ''api_key_permissions_permission_fkey''
           then invalid (''identity: validation failed: '' @ not_enforced e p) else ErrSQL pe))
         (Slice perms))
      (return_op (key_of k perms)))"

text \<open>\<open>ORDER BY k.created_at DESC\<close>.\<close>

definition repo_ListAPIKeys :: "env \<Rightarrow> api_key list op" where
  "repo_ListAPIKeys e =
    bind_op (select e [] (\<lambda>d. left_joins (\<lambda>k. perms_of_key d (k_id k))
        (rev (sort_key k_created_at (filter (\<lambda>k. k_revoked_at k = None) (api_keys d))))))
      (\<lambda>rows. return_op (collectAPIKeys rows))"

definition live_key_id :: "uuid \<Rightarrow> api_key_row \<Rightarrow> bool" where
  "live_key_id kid k \<longleftrightarrow> k_id k = kid \<and> k_revoked_at k = None"

definition revoke_key :: "env \<Rightarrow> api_key_row \<Rightarrow> api_key_row" where
  "revoke_key e k = k\<lparr>k_revoked_at := Some (sql_now e)\<rparr>"

definition repo_RevokeAPIKey :: "env \<Rightarrow> uuid \<Rightarrow> api_key op" where
  "repo_RevokeAPIKey e kid =
    bind_op (exec e [] (\<lambda>d.
      (map_option (revoke_key e) (find (live_key_id kid) (api_keys d)),
       d\<lparr>api_keys := update_where (live_key_id kid) (revoke_key e) (api_keys d)\<rparr>))) (\<lambda>r.
    case r of None \<Rightarrow> fail_op ErrNotFound | Some k \<Rightarrow> return_op (scan_key k))"

section \<open>Authenticating\<close>

definition live_key :: "env \<Rightarrow> bytes \<Rightarrow> database \<Rightarrow> api_key_row \<Rightarrow> bool" where
  "live_key e digest d k \<longleftrightarrow>
     k_token_hash k = digest \<and> k_revoked_at k = None
   \<and> (case k_expires_at k of None \<Rightarrow> True | Some t \<Rightarrow> t > sql_now e)
   \<and> list_ex (\<lambda>x. u_id x = k_user_id k \<and> u_is_active x) (users d)"

definition auth_key :: "env \<Rightarrow> bytes \<Rightarrow> database \<Rightarrow> api_key_row option \<times> database" where
  "auth_key e digest d =
    (find (live_key e digest d) (api_keys d),
     d\<lparr>api_keys := update_where
         (\<lambda>k. live_key e digest d k \<and> touch_due e (k_last_used_at k))
         (\<lambda>k. k\<lparr>k_last_used_at := Some (sql_now e)\<rparr>) (api_keys d)\<rparr>)"

definition loadAPIKeyPermissions :: "env \<Rightarrow> uuid \<Rightarrow> permission_set op" where
  "loadAPIKeyPermissions e kid =
    bind_op (select e [] (\<lambda>d. perms_of_key d kid)) (\<lambda>ps. return_op (NewPermissionSet ps))"

definition repo_AuthenticateAPIKey :: "env \<Rightarrow> bytes \<Rightarrow> api_key op" where
  "repo_AuthenticateAPIKey e digest =
    bind_op (exec e [] (auth_key e digest)) (\<lambda>r.
    case r of
      None \<Rightarrow> fail_op ErrUnauthenticated
    | Some k \<Rightarrow>
        bind_op (loadAPIKeyPermissions e (k_id k)) (\<lambda>perms.
        return_op (key_of k perms)))"

section \<open>What the statements may do\<close>

context db_relation begin

lemma obeys_key_reads [obeys_intros]:
  "obeys R (repo_ListAPIKeys e)" "obeys R (loadAPIKeyPermissions e kid)"
  unfolding repo_ListAPIKeys_def loadAPIKeyPermissions_def
  by (intro obeys_intros)+

end

lemma update_keys_keeps:
  assumes "\<And>k. k_id (f k) = k_id k" "\<And>k. k_token_hash (f k) = k_token_hash k"
    and "\<And>k. k_revoked_at (f k) = None \<Longrightarrow> k_revoked_at k = None"
    and "\<And>k. k_user_id (f k) = k_user_id k"
  shows "keeps p T d (d\<lparr>api_keys := update_where P f (api_keys d)\<rparr>)"
proof (intro keeps_api_keys)
  have "map k_id (update_where P f (api_keys d)) = map k_id (api_keys d)"
    using assms(1) by simp
  then show "k_id ` set (api_keys d) \<subseteq> k_id ` set (update_where P f (api_keys d))"
    by (metis list.set_map order_refl)
  fix k assume "k \<in> set (update_where P f (api_keys d))" "k_revoked_at k = None"
  with assms(1,3,4) show "(\<exists>j \<in> set (api_keys d). k_revoked_at j = None \<and> k_id j = k_id k
      \<and> k_user_id j = k_user_id k)
      \<or> k_id k \<notin> k_id ` set (api_keys d)"
    by (elim in_update_whereE) (blast, metis)
qed (use assms in simp_all)

lemma insert_api_key_keeps:
  assumes "insert_api_key e uid name tp digest t u d = Inr (row, d')"
  shows "keeps p T d d'"
proof -
  from assms have "u \<notin> k_id ` set (api_keys d)" "digest \<notin> k_token_hash ` set (api_keys d)"
    and row: "k_id row = u" "k_token_hash row = digest"
    and d': "d' = d\<lparr>api_keys := api_keys d @ [row]\<rparr>"
    by (auto simp: insert_api_key_def Let_def list_ex_iff split: if_splits)
  then show ?thesis unfolding d' by (intro keeps_api_keys) auto
qed

lemma keeps_key_ops [obeys_intros]:
  "obeys (keeps p T) (repo_RevokeAPIKey e kid)"
  "obeys (keeps p T) (repo_AuthenticateAPIKey e digest)"
proof -
  show "obeys (keeps p T) (repo_RevokeAPIKey e kid)"
    unfolding repo_RevokeAPIKey_def revoke_key_def
    by (intro obeys_intros, unfold snd_conv, intro update_keys_keeps) simp_all
  have "keeps p T d (snd (auth_key e digest d))" for d
    unfolding auth_key_def snd_conv by (intro update_keys_keeps) simp_all
  then show "obeys (keeps p T) (repo_AuthenticateAPIKey e digest)"
    unfolding repo_AuthenticateAPIKey_def by (intro obeys_intros)
qed

lemmas lawful_key_ops [obeys_intros] = keeps_key_ops [THEN keeps_lawful]

lemma lawful_repo_CreateAPIKey [obeys_intros]:
  "obeys lawful (repo_CreateAPIKey e uid name tp digest perms t)"
  unfolding repo_CreateAPIKey_def
proof (intro obeys_intros)
  show "insert_api_key e uid name tp digest t u d = Inr (row, d') \<Longrightarrow> lawful d d'" for u d row d'
    using insert_api_key_keeps by (auto simp: keeps_def)
  show "insert_key_permission kid q u d = Inr (x, d') \<Longrightarrow> lawful d d'" for kid q u d x d'
    by (auto simp: insert_key_permission_def lawful_key_permissions split: if_splits)
qed

end
