(* ===== verification/Authority.thy ===== *)
theory Authority
  imports Accounts API_Keys_Repo
begin

text \<open>
  The rules that move authority: \<open>roles_service.go\<close>, \<open>apikeys_service.go\<close>, and the
  sections of \<open>service.go\<close> on authorization, users and invitations. The caller's \<open>access\<close>
  is an argument, as in the code; the guard \<open>checkEscalation\<close> compares it with what is
  handed out.
\<close>

section \<open>Authorization\<close>

definition Authorize :: "env \<Rightarrow> user \<Rightarrow> access op" where
  "Authorize e u =
    (if IsSuperuser u then return_op \<lparr>Roles = [], Permissions = AllPermissions,
        ViaSuperuser = True, ViaAPIKey = False\<rparr>
     else bind_op (LoadUserRoles e (userID u)) (\<lambda>rs.
        return_op \<lparr>Roles = rs, Permissions = unionPermissions rs,
          ViaSuperuser = False, ViaAPIKey = False\<rparr>))"

definition ListUsers :: "env \<Rightarrow> uuid \<Rightarrow> int \<Rightarrow> user_summary list op" where
  "ListUsers e before limit = repo_ListUsers e before limit"

section \<open>Validation\<close>

text \<open>\<open>^[a-z0-9]+(?:_[a-z0-9]+)*$\<close>: non-empty words joined by single underscores.\<close>

definition key_char :: "char \<Rightarrow> bool" where
  "key_char c \<longleftrightarrow> (97 \<le> byte_of c \<and> byte_of c \<le> 122) \<or> (48 \<le> byte_of c \<and> byte_of c \<le> 57)"

definition roleKeyPattern :: "string \<Rightarrow> bool" where
  "roleKeyPattern s \<longleftrightarrow> list_all (\<lambda>w. w \<noteq> [] \<and> list_all key_char w) (Split s (CHR ''_''))"

fun collect_permissions ::
  "env \<Rightarrow> permission list \<Rightarrow> permission_set \<Rightarrow> error + permission_set" where
  "collect_permissions e [] acc = Inr acc"
| "collect_permissions e (p # ps) acc =
    (if \<not> Valid p then Inl (invalid (not_enforced e p))
     else collect_permissions e ps (insert p acc))"

definition validateRoleInput ::
  "env \<Rightarrow> string \<Rightarrow> string \<Rightarrow> permission list \<Rightarrow> error + (string \<times> string \<times> permission_set)" where
  "validateRoleInput e key0 name0 perms =
    (let key = ToLower (ulower e) (TrimSpace (uspace e) key0);
         name = TrimSpace (uspace e) name0 in
     if key = '''' then Inl (invalid ''role key is required'')
     else if length key > 63 then Inl (invalid ''role key must be at most 63 characters'')
     else if \<not> roleKeyPattern key then Inl (invalid
       ''role key may contain only lowercase letters, digits, and single underscores between them'')
     else if name = '''' then Inl (invalid ''role name is required'')
     else if length name > 100 then Inl (invalid ''role name must be at most 100 characters'')
     else if perms = [] then Inl (invalid ''a role must grant at least one permission'')
     else (case collect_permissions e perms {} of
             Inl err \<Rightarrow> Inl err | Inr granting \<Rightarrow> Inr (key, name, granting)))"

definition validateAPIKeyInput ::
  "env \<Rightarrow> string \<Rightarrow> permission list \<Rightarrow> time option \<Rightarrow> error + (string \<times> permission_set)" where
  "validateAPIKeyInput e name0 perms expiresAt =
    (let name = TrimSpace (uspace e) name0 in
     if name = '''' then Inl (invalid ''api key name is required'')
     else if length name > 100 then Inl (invalid ''api key name must be at most 100 characters'')
     else if perms = [] then Inl (invalid ''an api key must grant at least one permission'')
     else if (case expiresAt of None \<Rightarrow> False | Some t \<Rightarrow> \<not> t > go_now e)
       then Inl (invalid ''api key expiry must be in the future'')
     else (case collect_permissions e perms {} of
             Inl err \<Rightarrow> Inl err | Inr granting \<Rightarrow> Inr (name, granting)))"

section \<open>Roles\<close>

definition ListRoles :: "env \<Rightarrow> role list op" where
  "ListRoles e = repo_ListRoles e"

definition refuse_key_taken :: "env \<Rightarrow> string \<Rightarrow> unit op" where
  "refuse_key_taken e key =
    bind_op (attempt (repo_GetRoleByKey e key)) (\<lambda>existing.
    case existing of
      Inr _ \<Rightarrow> fail_op ErrRoleKeyTaken
    | Inl err \<Rightarrow> if isNotFound err then return_op () else fail_op err)"

definition CreateRole ::
  "env \<Rightarrow> user \<Rightarrow> access \<Rightarrow> string \<Rightarrow> string \<Rightarrow> permission list \<Rightarrow> role op" where
  "CreateRole e actor access key0 name0 perms =
    bind_op (lift_op (validateRoleInput e key0 name0 perms)) (\<lambda>(key, name, granting).
    then_op (lift_op (checkEscalation access granting)) (
    InTx e (
      then_op (refuse_key_taken e key) (
      bind_op (repo_CreateRole e key name granting) (\<lambda>r.
      then_op (Record e (Event (Some (userID actor)) ActionRoleCreated ''role''
          (uuid_String e (roleID r))
          [(''key'', JStr key), (''name'', JStr name), (''permissions'', JStrs (Slice granting))]))
      (return_op r))))))"

definition UpdateRole ::
  "env \<Rightarrow> user \<Rightarrow> access \<Rightarrow> uuid \<Rightarrow> string \<Rightarrow> permission list \<Rightarrow> role op" where
  "UpdateRole e actor access rid name0 perms =
    bind_op (lift_op (validateRoleInput e ''placeholder'' name0 perms)) (\<lambda>(_, name, granting).
    then_op (lift_op (checkEscalation access granting)) (
    InTx e (
      bind_op (repo_GetRole e rid) (\<lambda>existing.
      then_op (refuse_if (IsSystem existing) ErrSystemRole) (
      then_op (lift_op (checkEscalation access (rolePermissions existing))) (
      bind_op (repo_UpdateRole e rid name granting) (\<lambda>r.
      then_op (Record e (Event (Some (userID actor)) ActionRoleUpdated ''role''
          (uuid_String e (roleID r))
          [(''key'', JStr (Key r)), (''from'', JStrs (Slice (rolePermissions existing))),
           (''to'', JStrs (Slice granting))]))
      (return_op r))))))))"

definition DeleteRole :: "env \<Rightarrow> user \<Rightarrow> access \<Rightarrow> uuid \<Rightarrow> unit op" where
  "DeleteRole e actor access rid = InTx e (
     bind_op (repo_GetRole e rid) (\<lambda>existing.
     then_op (refuse_if (IsSystem existing) ErrSystemRole) (
     then_op (lift_op (checkEscalation access (rolePermissions existing))) (
     then_op (repo_DeleteRole e rid)
       (Record e (Event (Some (userID actor)) ActionRoleDeleted ''role'' (uuid_String e rid)
         [(''key'', JStr (Key existing))]))))))"

definition last_admin_check :: "env \<Rightarrow> role list \<Rightarrow> role list \<Rightarrow> unit op" where
  "last_admin_check e before rs =
    (if hasRole before RoleKeyAdmin \<and> \<not> hasRole rs RoleKeyAdmin then
       bind_op (CountUsersWithRole e RoleKeyAdmin) (\<lambda>admins. refuse_if (admins \<le> 1) ErrLastAdmin)
     else return_op ())"

definition SetUserRoles :: "env \<Rightarrow> user \<Rightarrow> access \<Rightarrow> uuid \<Rightarrow> uuid list \<Rightarrow> unit op" where
  "SetUserRoles e actor access target rids = InTx e (
     bind_op (repo_GetRolesByIDs e rids) (\<lambda>rs.
     then_op (lift_op (checkEscalation access (unionPermissions rs))) (
     bind_op (LoadUserRoles e target) (\<lambda>before.
     then_op (refuse_if (hasRole before RoleKeyAdmin \<and> \<not> ViaSuperuser access
         \<and> \<not> actorHoldsRole access RoleKeyAdmin) ErrForbidden) (
     then_op (last_admin_check e before rs) (
     then_op (repo_SetUserRoles e target (rolesToIDs rs))
       (Record e (Event (Some (userID actor)) ActionUserRolesUpdated ''user''
         (uuid_String e target)
         [(''from'', JStrs (roleKeys before)), (''to'', JStrs (roleKeys rs))]))))))))"

section \<open>Users\<close>

definition last_active_admin_check :: "env \<Rightarrow> uuid \<Rightarrow> unit op" where
  "last_active_admin_check e target =
    bind_op (LoadUserRoles e target) (\<lambda>rs.
    if hasRole rs RoleKeyAdmin then
      bind_op (CountActiveUsersWithRole e RoleKeyAdmin) (\<lambda>n. refuse_if (n \<le> 1) ErrLastAdmin)
    else return_op ())"

definition SetUserActive :: "env \<Rightarrow> user \<Rightarrow> uuid \<Rightarrow> bool \<Rightarrow> user op" where
  "SetUserActive e actor target isActive =
    (if userID actor = target \<and> \<not> isActive
     then fail_op (invalid ''you cannot deactivate your own account'')
     else InTx e (
       then_op (if \<not> isActive \<and> \<not> IsSuperuser actor then last_active_admin_check e target
                else return_op ()) (
       bind_op (repo_SetUserActive e target isActive) (\<lambda>u.
       bind_op (if \<not> isActive
           then bind_op (RevokeUserSessions e target) (\<lambda>revoked. return_op
             (ActionUserDeactivated,
              [(''email'', JStr (Email u)), (''sessions_revoked'', JInt (int revoked))]))
           else return_op (ActionUserReactivated, [(''email'', JStr (Email u))])) (\<lambda>(action, md).
       then_op (Record e (Event (Some (userID actor)) action ''user'' (uuid_String e target) md))
       (return_op u))))))"

definition SetSuperuser :: "env \<Rightarrow> string \<Rightarrow> bool \<Rightarrow> user op" where
  "SetSuperuser e email0 flag =
    bind_op (lift_op (normalizeEmail e email0)) (\<lambda>email.
    InTx e (
      bind_op (repo_SetSuperuser e email flag) (\<lambda>u.
      then_op (Record e (Event None
          (if flag then ActionSuperuserGranted else ActionSuperuserRevoked) ''user''
          (uuid_String e (userID u)) [(''email'', JStr (Email u)), (''via'', JStr ''cli'')]))
      (return_op u))))"

definition GrantRoleByKey :: "env \<Rightarrow> string \<Rightarrow> string \<Rightarrow> (user \<times> role) op" where
  "GrantRoleByKey e email0 roleKey =
    bind_op (lift_op (normalizeEmail e email0)) (\<lambda>email.
    InTx e (
      bind_op (GetUserByEmail e email) (\<lambda>u.
      bind_op (repo_GetRoleByKey e roleKey) (\<lambda>r.
      then_op (AddUserRole e (userID u) (roleID r)) (
      then_op (Record e (Event None ActionUserRolesUpdated ''user''
          (uuid_String e (userID u))
          [(''email'', JStr (Email u)), (''granted'', JStr (Key r)), (''via'', JStr ''cli'')]))
      (return_op (u, r)))))))"

section \<open>Invitations\<close>

definition refuse_taken :: "env \<Rightarrow> string \<Rightarrow> unit op" where
  "refuse_taken e email =
    bind_op (attempt (GetUserByEmail e email)) (\<lambda>found.
    case found of
      Inr _ \<Rightarrow> fail_op ErrEmailTaken
    | Inl err \<Rightarrow> if isNotFound err then return_op () else fail_op err)"

definition issue_invitation :: "env \<Rightarrow> user \<Rightarrow> string \<Rightarrow> role \<Rightarrow> bytes \<Rightarrow> invitation op" where
  "issue_invitation e actor email r digest = InTx e (
     then_op (RevokePendingInvitationFor e email) (
     bind_op (CreateInvitation e email (roleID r) (userID actor) digest
         (go_now e + InvitationTTL (auth_cfg e))) (\<lambda>iid.
     bind_op (GetInvitation e iid) (\<lambda>iv.
     then_op (Record e (Event (Some (userID actor)) ActionInvitationCreated ''invitation''
         (uuid_String e (invID iv)) [(''email'', JStr email), (''role'', JStr (Key r))]))
     (return_op iv)))))"

definition Invite :: "env \<Rightarrow> user \<Rightarrow> access \<Rightarrow> string \<Rightarrow> uuid \<Rightarrow> invitation op" where
  "Invite e actor access email0 rid =
    bind_op (lift_op (normalizeEmail e email0)) (\<lambda>email.
    bind_op (repo_GetRole e rid) (\<lambda>r.
    then_op (lift_op (checkEscalation access (rolePermissions r))) (
    then_op (refuse_taken e email) (
    bind_op (NewToken e InvitationTokenPrefix) (\<lambda>(plaintext, digest).
    bind_op (issue_invitation e actor email r digest) (\<lambda>iv.
    let msg = (Invitation (BaseURL (mail_cfg e)) (Email actor) plaintext)\<lparr>To := email\<rparr> in
    bind_op (send_op e msg) (\<lambda>sent.
    then_op (refuse_if (sent \<noteq> None) ErrMailFailed)
      (return_op (iv\<lparr>invTokenHash := digest\<rparr>)))))))))"

definition ListInvitations :: "env \<Rightarrow> invitation list op" where
  "ListInvitations e = ListPendingInvitations e"

definition RevokeInvitation :: "env \<Rightarrow> user \<Rightarrow> uuid \<Rightarrow> unit op" where
  "RevokeInvitation e actor iid = InTx e (
     then_op (repo_RevokeInvitation e iid)
       (Record e (Event (Some (userID actor)) ActionInvitationRevoked ''invitation''
          (uuid_String e iid) [])))"

definition AcceptInvitation :: "env \<Rightarrow> string \<Rightarrow> string \<Rightarrow> string \<Rightarrow> string \<Rightarrow> user op" where
  "AcceptInvitation e token password firstName lastName =
    then_op (lift_op (validatePassword e password)) (
    bind_op (Hash e (service_hasher e) password) (\<lambda>hash.
    InTx e (
      bind_op (GetInvitationByTokenHash e (HashToken e token)) (\<lambda>iv.
      then_op (refuse_if (\<not> Pending iv (go_now e)) ErrInvitationInvalid) (
      then_op (repo_AcceptInvitation e (invID iv)) (
      bind_op (CreateUser e (invEmail iv) hash (TrimSpace (uspace e) firstName)
          (TrimSpace (uspace e) lastName)) (\<lambda>u.
      then_op (AddUserRole e (userID u) (roleID (invRole iv))) (
      bind_op (MarkEmailVerified e (userID u) (Email u)) (\<lambda>u.
      then_op (Record e (Event (Some (userID u)) ActionInvitationAccepted ''invitation''
          (uuid_String e (invID iv))
          [(''email'', JStr (invEmail iv)), (''role'', JStr (Key (invRole iv)))]))
      (return_op u))))))))))"

section \<open>API keys\<close>

definition apiKeyDisplayPrefixLen :: nat where
  "apiKeyDisplayPrefixLen = length APIKeyTokenPrefix + 4"

definition mint_api_key ::
  "env \<Rightarrow> user \<Rightarrow> string \<Rightarrow> permission_set \<Rightarrow> time option \<Rightarrow> (api_key \<times> string) op" where
  "mint_api_key e actor name granting expiresAt =
    bind_op (NewToken e APIKeyTokenPrefix) (\<lambda>(plaintext, digest).
    let displayPrefix = take apiKeyDisplayPrefixLen plaintext in
    bind_op (InTx e (
      bind_op (repo_CreateAPIKey e (userID actor) name displayPrefix digest granting expiresAt) (\<lambda>k.
      then_op (Record e (Event (Some (userID actor)) ActionAPIKeyCreated ''api_key''
          (uuid_String e (keyID k))
          [(''name'', JStr name), (''permissions'', JStrs (Slice granting))]))
      (return_op k)))) (\<lambda>k.
    return_op (k, plaintext)))"

definition CreateAPIKey ::
  "env \<Rightarrow> user \<Rightarrow> access \<Rightarrow> string \<Rightarrow> permission list \<Rightarrow> time option \<Rightarrow> (api_key \<times> string) op" where
  "CreateAPIKey e actor access name0 perms expiresAt =
    bind_op (lift_op (validateAPIKeyInput e name0 perms expiresAt)) (\<lambda>(name, granting).
    then_op (lift_op (checkEscalation access granting))
      (mint_api_key e actor name granting expiresAt))"

definition ListAPIKeys :: "env \<Rightarrow> api_key list op" where
  "ListAPIKeys e = repo_ListAPIKeys e"

definition RevokeAPIKey :: "env \<Rightarrow> user \<Rightarrow> uuid \<Rightarrow> unit op" where
  "RevokeAPIKey e actor kid = InTx e (
     bind_op (repo_RevokeAPIKey e kid) (\<lambda>k.
     Record e (Event (Some (userID actor)) ActionAPIKeyRevoked ''api_key''
       (uuid_String e (keyID k)) [(''name'', JStr (keyName k))])))"

definition AuthenticateAPIKey :: "env \<Rightarrow> string \<Rightarrow> (api_key \<times> user) op" where
  "AuthenticateAPIKey e token =
    (if token = '''' then fail_op ErrUnauthenticated
     else bind_op (repo_AuthenticateAPIKey e (HashToken e token)) (\<lambda>k.
          bind_op (GetUserByID e (keyUserID k)) (\<lambda>actor.
          return_op (k, actor))))"

section \<open>What validation accepts\<close>

lemma collect_permissions_Inr_iff:
  "collect_permissions e ps acc = Inr s \<longleftrightarrow> set ps \<subseteq> AllPermissions \<and> s = acc \<union> set ps"
  by (induction ps arbitrary: acc) (auto simp: Valid_iff)

lemma validateRoleInput_Inr:
  assumes "validateRoleInput e key0 name0 perms = Inr (key, name, s)"
  shows "s = set perms" "s \<subseteq> AllPermissions" "s \<noteq> {}" "roleKeyPattern key" "length key \<le> 63"
    "name \<noteq> ''''" "length name \<le> 100"
  using assms
  by (auto simp: validateRoleInput_def Let_def collect_permissions_Inr_iff
      split: if_splits sum.splits)

lemma validateAPIKeyInput_Inr:
  assumes "validateAPIKeyInput e name0 perms t = Inr (name, s)"
  shows "s = set perms" "s \<subseteq> AllPermissions" "s \<noteq> {}" "name \<noteq> ''''"
    "pred_option (\<lambda>t. t > go_now e) t"
  using assms
  by (auto simp: validateAPIKeyInput_def Let_def collect_permissions_Inr_iff
      split: if_splits sum.splits option.splits)

section \<open>Creating and editing a role\<close>

text \<open>A step of a transaction that only reads, and the entry at its end.\<close>

lemma read_db: "obeys (=) m \<Longrightarrow> m w = (r, w') \<Longrightarrow> db w' = db w"
  by (auto dest: obeysD)

definition logged :: "env \<Rightarrow> event \<Rightarrow> world \<Rightarrow> database \<Rightarrow> database" where
  "logged e ev w d = d\<lparr>audit_log := audit_entry_row e ev (uuidv7 e (steps w)) # audit_log d\<rparr>"

lemma Record_logged: "Record e ev w = (Inr x, w') \<Longrightarrow> db w' = logged e ev w (db w)"
  by (simp add: Record_db logged_def)

lemma keeps_logged: "keeps p T d (logged e ev w d)"
  by (simp add: logged_def keeps_audit)

context db_relation begin

lemma obeys_refusals [obeys_intros]:
  "obeys R (refuse_key_taken e key)" "obeys R (refuse_taken e email)"
  unfolding refuse_key_taken_def refuse_taken_def by (intro obeys_intros)+

end

lemma CreateRole_Inr:
  assumes "CreateRole e actor access key0 name0 perms w = (Inr r, w')"
  obtains key name s row ev w1 where
    "validateRoleInput e key0 name0 perms = Inr (key, name, s)" "s \<subseteq> Permissions access"
    "r_id row \<notin> r_id ` set (roles (db w))" "key \<notin> r_key ` set (roles (db w))"
    "r_key row = key" "r_name row = name" "\<not> r_is_system row" "r = role_of row s"
    "ActorUserID ev = Some (userID actor)" "Action ev = ActionRoleCreated"
    "db w' = logged e ev w1
       (put_permissions (r_id row) s ((db w)\<lparr>roles := roles (db w) @ [row]\<rparr>))"
proof -
  from assms obtain key name s w1 w2 w3 where
    v: "validateRoleInput e key0 name0 perms = Inr (key, name, s)" and
    g: "s \<subseteq> Permissions access" and
    look: "refuse_key_taken e key (tick w) = (Inr (), w1)" and
    make: "repo_CreateRole e key name s w1 = (Inr r, w2)" and
    log: "Record e (Event (Some (userID actor)) ActionRoleCreated ''role''
          (uuid_String e (roleID r))
          [(''key'', JStr key), (''name'', JStr name), (''permissions'', JStrs (Slice s))]) w2
        = (Inr (), w3)" and w': "w' = tick w3"
    by (auto simp: CreateRole_def bind_op_Inr_iff InTx_Inr_iff)
  have "db w1 = db w"
    using read_db [OF reading.obeys_refusals(1) look] by simp
  with make obtain row where row: "r_id row \<notin> r_id ` set (roles (db w))"
    "key \<notin> r_key ` set (roles (db w))"
    "r_key row = key" "r_name row = name" "\<not> r_is_system row" "r = role_of row s"
    "db w2 = put_permissions (r_id row) s ((db w)\<lparr>roles := roles (db w) @ [row]\<rparr>)"
    by (metis repo_CreateRole_Inr)
  show ?thesis
    by (rule that [OF v g row(1-6)]) (use Record_logged [OF log] row(7) w' in \<open>auto simp: Event_def\<close>)
qed

lemma UpdateRole_Inr:
  assumes "keys_ok (db w)" "UpdateRole e actor access rid name0 perms w = (Inr r, w')"
  obtains key name s row ev w1 where
    "validateRoleInput e ''placeholder'' name0 perms = Inr (key, name, s)"
    "s \<subseteq> Permissions access" "granted (db w) rid \<subseteq> Permissions access"
    "row \<in> set (roles (db w))" "r_id row = rid" "\<not> r_is_system row"
    "r = role_of (rename_role e name row) s"
    "ActorUserID ev = Some (userID actor)" "Action ev = ActionRoleUpdated"
    "db w' = logged e ev w1 (put_permissions rid s ((db w)\<lparr>roles :=
       update_where (custom_role rid) (rename_role e name) (roles (db w))\<rparr>))"
proof -
  from assms(2) obtain key name s ex w1 w2 w3 where
    v: "validateRoleInput e ''placeholder'' name0 perms = Inr (key, name, s)" and
    g: "s \<subseteq> Permissions access" and
    look: "repo_GetRole e rid (tick w) = (Inr ex, w1)" and
    held: "rolePermissions ex \<subseteq> Permissions access" and
    make: "repo_UpdateRole e rid name s w1 = (Inr r, w2)" and
    log: "Record e (Event (Some (userID actor)) ActionRoleUpdated ''role''
          (uuid_String e (roleID r))
          [(''key'', JStr (Key r)), (''from'', JStrs (Slice (rolePermissions ex))),
           (''to'', JStrs (Slice s))]) w2 = (Inr (), w3)" and w': "w' = tick w3"
    by (auto simp: UpdateRole_def bind_op_Inr_iff InTx_Inr_iff)
  have same: "db w1 = db w" using read_db [OF reading.obeys_role_reads(2) look] by simp
  from look assms(1) have "rolePermissions ex = granted (db w) rid"
    by (auto simp: repo_GetRole_Inr_iff)
  with held have h: "granted (db w) rid \<subseteq> Permissions access" by simp
  from make same obtain row where row: "row \<in> set (roles (db w))" "r_id row = rid"
    "\<not> r_is_system row" "r = role_of (rename_role e name row) s"
    "db w2 = put_permissions rid s ((db w)\<lparr>roles :=
       update_where (custom_role rid) (rename_role e name) (roles (db w))\<rparr>)"
    by (metis repo_UpdateRole_Inr)
  show ?thesis
    by (rule that [OF v g h row(1-4)]) (use Record_logged [OF log] row(5) w' in \<open>auto simp: Event_def\<close>)
qed

lemma finite_granting: "s \<subseteq> AllPermissions \<Longrightarrow> finite s"
  using finite_AllPermissions by (rule rev_finite_subset)

lemma fresh_not_system:
  "x \<notin> r_id ` set (roles d) \<Longrightarrow> \<forall>r \<in> set (system_roles d). r_id r \<noteq> x"
  by (auto simp: system_roles_def)

lemma CreateRole_success_keeps:
  assumes "CreateRole e actor access key0 name0 perms w = (Inr r, w')"
  shows "lawful (db w) (db w')"
    and "p \<notin> Permissions access \<Longrightarrow> keeps p T (db w) (db w')"
proof -
  from assms obtain key name s row ev w1 where
    v: "validateRoleInput e key0 name0 perms = Inr (key, name, s)" "s \<subseteq> Permissions access" and
    new: "r_id row \<notin> r_id ` set (roles (db w))" "key \<notin> r_key ` set (roles (db w))"
      "r_key row = key" "\<not> r_is_system row" and
    w': "db w' = logged e ev w1
       (put_permissions (r_id row) s ((db w)\<lparr>roles := roles (db w) @ [row]\<rparr>))"
    by (metis CreateRole_Inr)
  let ?d1 = "(db w)\<lparr>roles := roles (db w) @ [row]\<rparr>"
  have fin: "finite s" using validateRoleInput_Inr(2) [OF v(1)] by (rule finite_granting)
  have first: "keeps q T (db w) ?d1" for q using new by (intro add_role_keeps) simp_all
  have "system_roles ?d1 = system_roles (db w)" using new by (simp add: system_roles_def)
  moreover have "\<forall>r \<in> set (system_roles (db w)). r_id r \<noteq> r_id row"
    using new(1) by (rule fresh_not_system)
  ultimately have "\<forall>r \<in> set (system_roles ?d1). r_id r \<noteq> r_id row" by (simp only:)
  then have second: "lawful ?d1 (put_permissions (r_id row) s ?d1)"
    using fin by (intro put_permissions_lawful)
  have last: "keeps q T (put_permissions (r_id row) s ?d1) (db w')" for q
    unfolding w' by (rule keeps_logged)
  show "lawful (db w) (db w')"
    using law.rel_trans [OF keepsD [OF first] law.rel_trans [OF second keepsD [OF last]]] .
  assume "p \<notin> Permissions access"
  with v(2) have "p \<notin> s" by blast
  with fin second have "keeps p T ?d1 (put_permissions (r_id row) s ?d1)"
    by (intro put_permissions_keeps)
  from keep.rel_trans [OF first keep.rel_trans [OF this last]]
  show "keeps p T (db w) (db w')" .
qed

lemma atomic_role_ops [atomic_intros]:
  "atomic_op (CreateRole e actor access key0 name0 perms)"
  "atomic_op (UpdateRole e actor access rid name0 perms)"
  "atomic_op (DeleteRole e actor access rid)"
  "atomic_op (SetUserRoles e actor access target rids)"
proof -
  show "atomic_op (CreateRole e actor access key0 name0 perms)"
    unfolding CreateRole_def split_beta by (intro atomic_read_bind atomic_intros obeys_intros)
  show "atomic_op (UpdateRole e actor access rid name0 perms)"
    unfolding UpdateRole_def split_beta by (intro atomic_read_bind atomic_intros obeys_intros)
  show "atomic_op (DeleteRole e actor access rid)"
    unfolding DeleteRole_def by (intro atomic_intros)
  show "atomic_op (SetUserRoles e actor access target rids)"
    unfolding SetUserRoles_def by (intro atomic_intros)
qed

lemma UpdateRole_success_keeps:
  assumes "keys_ok (db w)" "UpdateRole e actor access rid name0 perms w = (Inr r, w')"
  shows "lawful (db w) (db w')"
    and "p \<notin> Permissions access \<Longrightarrow> keeps p T (db w) (db w')"
proof -
  from assms obtain key name s row ev w1 where
    v: "validateRoleInput e ''placeholder'' name0 perms = Inr (key, name, s)"
      "s \<subseteq> Permissions access" and
    row: "row \<in> set (roles (db w))" "r_id row = rid" "\<not> r_is_system row" and
    w': "db w' = logged e ev w1 (put_permissions rid s ((db w)\<lparr>roles :=
       update_where (custom_role rid) (rename_role e name) (roles (db w))\<rparr>))"
    by (metis UpdateRole_Inr)
  let ?d1 = "(db w)\<lparr>roles :=
       update_where (custom_role rid) (rename_role e name) (roles (db w))\<rparr>"
  have fin: "finite s" using validateRoleInput_Inr(2) [OF v(1)] by (rule finite_granting)
  have first: "keeps q T (db w) ?d1" for q by (rule rename_role_keeps)
  then have "system_roles ?d1 = system_roles (db w)"
    using assms(1) by (simp add: keeps_def lawful_def)
  moreover have "\<forall>r \<in> set (system_roles (db w)). r_id r \<noteq> rid"
    using row keys_okD(2) [OF assms(1)] by (auto simp: system_roles_def dest: distinct_map_eqD)
  ultimately have second: "lawful ?d1 (put_permissions rid s ?d1)"
    using fin by (intro put_permissions_lawful) simp_all
  have last: "keeps q T (put_permissions rid s ?d1) (db w')" for q
    unfolding w' by (rule keeps_logged)
  show "lawful (db w) (db w')"
    using law.rel_trans [OF keepsD [OF first] law.rel_trans [OF second keepsD [OF last]]] .
  assume "p \<notin> Permissions access"
  with v(2) have "p \<notin> s" by blast
  with fin second have "keeps p T ?d1 (put_permissions rid s ?d1)"
    by (intro put_permissions_keeps)
  from keep.rel_trans [OF first keep.rel_trans [OF this last]]
  show "keeps p T (db w) (db w')" .
qed

lemma keeps_needs_keys:
  "(keys_ok d \<Longrightarrow> keeps p T d d') \<Longrightarrow> keeps p T d d'"
  "(keys_ok d \<Longrightarrow> lawful d d') \<Longrightarrow> lawful d d'"
  by (auto simp: keeps_def lawful_def)

lemma lawful_role_edits [obeys_intros]:
  "obeys lawful (CreateRole e actor access key0 name0 perms)"
  "obeys lawful (UpdateRole e actor access rid name0 perms)"
proof -
  show "obeys lawful (CreateRole e actor access key0 name0 perms)"
    by (rule law.obeys_success [OF atomic_role_ops(1)]) (rule CreateRole_success_keeps(1))
  show "obeys lawful (UpdateRole e actor access rid name0 perms)"
    by (rule law.obeys_success [OF atomic_role_ops(2)], rule keeps_needs_keys(2))
      (rule UpdateRole_success_keeps(1))
qed

lemma keeps_role_edits:
  assumes "p \<notin> Permissions access"
  shows "obeys (keeps p T) (CreateRole e actor access key0 name0 perms)"
    and "obeys (keeps p T) (UpdateRole e actor access rid name0 perms)"
proof -
  show "obeys (keeps p T) (CreateRole e actor access key0 name0 perms)"
    by (rule keep.obeys_success [OF atomic_role_ops(1)])
      (rule CreateRole_success_keeps(2) [OF _ assms])
  show "obeys (keeps p T) (UpdateRole e actor access rid name0 perms)"
    by (rule keep.obeys_success [OF atomic_role_ops(2)], rule keeps_needs_keys(1))
      (rule UpdateRole_success_keeps(2) [OF _ _ assms])
qed

lemma keeps_DeleteRole [obeys_intros]: "obeys (keeps p T) (DeleteRole e actor access rid)"
  unfolding DeleteRole_def by (intro obeys_intros)

lemmas lawful_DeleteRole [obeys_intros] = keeps_DeleteRole [THEN keeps_lawful]

section \<open>Assigning roles\<close>

lemma union_full_roles:
  "set rs \<subseteq> full_role d ` set (roles d) \<Longrightarrow>
   unionPermissions rs = (\<Union>rid \<in> roleID ` set rs. granted d rid)"
proof -
  assume "set rs \<subseteq> full_role d ` set (roles d)"
  then have "\<forall>r \<in> set rs. rolePermissions r = granted d (roleID r)" by auto
  then show ?thesis by (simp add: unionPermissions_eq)
qed

definition assign_roles :: "uuid \<Rightarrow> uuid list \<Rightarrow> database \<Rightarrow> database" where
  "assign_roles target rids d = d\<lparr>user_roles :=
     delete_where (\<lambda>(u, _). u = target) (user_roles d) @ map (Pair target) rids\<rparr>"

definition holds_admin :: "database \<Rightarrow> uuid \<Rightarrow> bool" where
  "holds_admin d u \<longleftrightarrow> (\<exists>r \<in> set (roles d). admin_row r \<and> (u, r_id r) \<in> set (user_roles d))"

lemma admin_held_iff: "admin_held d \<longleftrightarrow> (\<exists>u. holds_admin d u)"
  unfolding admin_held_def holds_admin_def by force

lemma set_holders: "set (holders d RoleKeyAdmin) = {u. holds_admin d u}"
  by (force simp: holders_def holds_admin_def admin_row_def list_ex_iff)

lemma hasRole_before:
  assumes "set rs = full_role d ` set (roles_held d u)"
  shows "hasRole rs RoleKeyAdmin \<longleftrightarrow> holds_admin d u"
  using assms by (auto simp: hasRole_iff holds_admin_def admin_row_def roles_held_def)

lemma SetUserRoles_Inr:
  assumes "keys_ok (db w)" "SetUserRoles e actor access target rids w = (Inr x, w')"
  obtains rs ev w1 where
    "roleID ` set rs = set rids" "distinct (rolesToIDs rs)"
    "set rs \<subseteq> full_role (db w) ` set (roles (db w))"
    "unionPermissions rs \<subseteq> Permissions access"
    "holds_admin (db w) target \<Longrightarrow>
       ViaSuperuser access \<or> actorHoldsRole access RoleKeyAdmin"
    "holds_admin (db w) target \<Longrightarrow> \<not> hasRole rs RoleKeyAdmin \<Longrightarrow>
       1 < length (holders (db w) RoleKeyAdmin)"
    "ActorUserID ev = Some (userID actor)" "Action ev = ActionUserRolesUpdated"
    "db w' = logged e ev w1 (assign_roles target (rolesToIDs rs) (db w))"
proof -
  from assms(2) obtain rs before w1 w2 w3 w4 w5 where
    ids: "repo_GetRolesByIDs e rids (tick w) = (Inr rs, w1)" and
    guard: "unionPermissions rs \<subseteq> Permissions access" and
    held: "LoadUserRoles e target w1 = (Inr before, w2)" and
    admin: "hasRole before RoleKeyAdmin \<longrightarrow>
       ViaSuperuser access \<or> actorHoldsRole access RoleKeyAdmin" and
    count: "last_admin_check e before rs w2 = (Inr (), w3)" and
    put: "repo_SetUserRoles e target (rolesToIDs rs) w3 = (Inr (), w4)" and
    log: "Record e (Event (Some (userID actor)) ActionUserRolesUpdated ''user''
         (uuid_String e target)
         [(''from'', JStrs (roleKeys before)), (''to'', JStrs (roleKeys rs))]) w4
       = (Inr (), w5)" and w': "w' = tick w5"
    by (auto simp: SetUserRoles_def bind_op_Inr_iff InTx_Inr_iff split: if_splits)
  have d1: "db w1 = db w" using read_db [OF reading.obeys_role_reads(4) ids] by simp
  have d2: "db w2 = db w" using read_db [OF reading.obeys_role_reads(5) held] d1 by simp
  have d3: "db w3 = db w" using count d2
    by (auto simp: last_admin_check_def bind_op_Inr_iff CountUsersWithRole_def select_Inr_iff
        split: if_splits)
  have rs: "roleID ` set rs = set rids" "distinct (rolesToIDs rs)"
    "set rs \<subseteq> full_role (db w) ` set (roles (db w))"
    using repo_GetRolesByIDs_Inr [OF _ ids] assms(1) by simp_all
  have bef: "hasRole before RoleKeyAdmin \<longleftrightarrow> holds_admin (db w) target"
    using LoadUserRoles_Inr(2) [OF _ held] assms(1) d1 by (intro hasRole_before) simp
  have more: "holds_admin (db w) target \<Longrightarrow> \<not> hasRole rs RoleKeyAdmin \<Longrightarrow>
      1 < length (holders (db w) RoleKeyAdmin)"
    using count bef d2
    by (auto simp: last_admin_check_def bind_op_Inr_iff CountUsersWithRole_def select_Inr_iff
        split: if_splits)
  have "db w4 = assign_roles target (rolesToIDs rs) (db w)"
    using repo_SetUserRoles_db [OF put] d3 by (simp add: assign_roles_def)
  with Record_logged [OF log] w' have db: "db w' = logged e (Event (Some (userID actor))
      ActionUserRolesUpdated ''user'' (uuid_String e target)
      [(''from'', JStrs (roleKeys before)), (''to'', JStrs (roleKeys rs))]) w4
      (assign_roles target (rolesToIDs rs) (db w))"
    by simp
  show ?thesis
    by (rule that [OF rs guard _ more _ _ db]) (use admin bef in \<open>simp_all add: Event_def\<close>)
qed

lemma assign_roles_lawful:
  assumes "keys_ok d" "distinct rids"
    and "holds_admin d target \<Longrightarrow> (\<forall>rid \<in> set rids. \<forall>r \<in> set (roles d). r_id r = rid \<longrightarrow> \<not> admin_row r)
       \<Longrightarrow> \<exists>u. u \<noteq> target \<and> holds_admin d u"
  shows "lawful d (assign_roles target rids d)"
proof -
  have urs: "user_roles (assign_roles target rids d)
      = delete_where (\<lambda>(u, _). u = target) (user_roles d) @ map (Pair target) rids"
    by (simp add: assign_roles_def)
  have "distinct (user_roles (assign_roles target rids d))"
    using assms(1,2)
    by (auto simp: urs keys_ok_def delete_where_def distinct_map inj_on_def)
  moreover have "admin_held (assign_roles target rids d)" if "admin_held d"
  proof -
    have other: "holds_admin d u \<Longrightarrow> u \<noteq> target \<Longrightarrow> holds_admin (assign_roles target rids d) u" for u
      by (auto simp: holds_admin_def urs) (auto simp: assign_roles_def)
    have mine: "holds_admin (assign_roles target rids d) target"
      if "rid \<in> set rids" "r \<in> set (roles d)" "r_id r = rid" "admin_row r" for rid r
      using that by (auto simp: holds_admin_def urs) (auto simp: assign_roles_def)
    from that obtain u where u: "holds_admin d u" by (auto simp: admin_held_iff)
    show ?thesis
    proof (cases "u = target")
      case False
      with u other show ?thesis by (auto simp: admin_held_iff)
    next
      case True
      with u assms(3) mine other show ?thesis unfolding admin_held_iff by blast
    qed
  qed
  ultimately show ?thesis
    by (simp add: lawful_def keys_ok_def assign_roles_def superusers_def system_roles_def
        granted_def)
qed

lemma SetUserRoles_success_keeps:
  assumes "keys_ok (db w)" "SetUserRoles e actor access target rids w = (Inr x, w')"
  shows "lawful (db w) (db w')"
    and "p \<notin> Permissions access \<Longrightarrow> keeps p T (db w) (db w')"
proof -
  let ?d = "db w"
  from SetUserRoles_Inr [OF assms] obtain rs ev w1 where
    rs: "distinct (rolesToIDs rs)" "set rs \<subseteq> full_role ?d ` set (roles ?d)"
      "unionPermissions rs \<subseteq> Permissions access" and
    more: "holds_admin ?d target \<Longrightarrow> \<not> hasRole rs RoleKeyAdmin \<Longrightarrow>
       1 < length (holders ?d RoleKeyAdmin)" and
    w': "db w' = logged e ev w1 (assign_roles target (rolesToIDs rs) ?d)"
    by metis
  have "lawful ?d (assign_roles target (rolesToIDs rs) ?d)"
  proof (rule assign_roles_lawful [OF assms(1) rs(1)])
    assume held: "holds_admin ?d target" and
      none: "\<forall>rid \<in> set (rolesToIDs rs). \<forall>r \<in> set (roles ?d). r_id r = rid \<longrightarrow> \<not> admin_row r"
    have "\<not> hasRole rs RoleKeyAdmin"
      using none rs(2) by (fastforce simp: hasRole_iff rolesToIDs_def admin_row_def)
    with more held have "1 < length (holders ?d RoleKeyAdmin)" by blast
    moreover have "distinct (holders ?d RoleKeyAdmin)" by (simp add: holders_def)
    ultimately have "\<exists>u \<in> set (holders ?d RoleKeyAdmin). u \<noteq> target"
      by (metis (full_types) card_le_Suc0_iff_eq distinct_card finite_set
          not_less One_nat_def)
    then show "\<exists>u. u \<noteq> target \<and> holds_admin ?d u" by (auto simp: set_holders)
  qed
  then show law: "lawful ?d (db w')"
    unfolding w' using keepsD [OF keeps_logged] by (rule law.rel_trans)
  assume p: "p \<notin> Permissions access"
  have "\<forall>rid \<in> set (rolesToIDs rs). p \<notin> granted ?d rid"
    using p rs(3) union_full_roles [OF rs(2)] by (auto simp: rolesToIDs_def)
  then have "confined p T ?d \<Longrightarrow> confined p T (assign_roles target (rolesToIDs rs) ?d)"
    by (auto simp: confined_def assign_roles_def granted_def superusers_def)
  then have "confined p T ?d \<Longrightarrow> confined p T (db w')"
    using keeps_logged [of p T "assign_roles target (rolesToIDs rs) ?d" e ev w1] assms(1)
      \<open>lawful ?d (assign_roles target (rolesToIDs rs) ?d)\<close>
    by (auto simp: w' keeps_def lawful_def)
  with law show "keeps p T ?d (db w')" by (simp add: keeps_def)
qed

lemma lawful_SetUserRoles [obeys_intros]:
  "obeys lawful (SetUserRoles e actor access target rids)"
  by (rule law.obeys_success [OF atomic_role_ops(4)], rule keeps_needs_keys(2))
    (rule SetUserRoles_success_keeps(1))

lemma keeps_SetUserRoles:
  "p \<notin> Permissions access \<Longrightarrow> obeys (keeps p T) (SetUserRoles e actor access target rids)"
  by (rule keep.obeys_success [OF atomic_role_ops(4)], rule keeps_needs_keys(1))
    (rule SetUserRoles_success_keeps(2))

section \<open>Users, invitations and keys\<close>

context db_relation begin

lemma obeys_authority_reads [obeys_intros]:
  "obeys R (Authorize e u)" "obeys R (ListUsers e before limit)" "obeys R (ListRoles e)"
  "obeys R (ListInvitations e)" "obeys R (ListAPIKeys e)" "obeys R (last_active_admin_check e target)"
  unfolding Authorize_def ListUsers_def ListRoles_def ListInvitations_def ListAPIKeys_def
    last_active_admin_check_def
  by (intro obeys_intros)+

end

lemma keeps_user_admin [obeys_intros]:
  "obeys (keeps p T) (SetUserActive e actor target flag)"
  "obeys (keeps p T) (RevokeInvitation e actor iid)"
  "obeys (keeps p T) (RevokeAPIKey e actor kid)"
  "obeys (keeps p T) (AuthenticateAPIKey e token)"
proof -
  show "obeys (keeps p T) (SetUserActive e actor target flag)"
    unfolding SetUserActive_def by (intro obeys_intros)
  show "obeys (keeps p T) (RevokeInvitation e actor iid)"
    unfolding RevokeInvitation_def by (intro obeys_intros)
  show "obeys (keeps p T) (RevokeAPIKey e actor kid)"
    unfolding RevokeAPIKey_def by (intro obeys_intros)
  show "obeys (keeps p T) (AuthenticateAPIKey e token)"
    unfolding AuthenticateAPIKey_def by (intro obeys_intros)
qed

lemma lawful_grants [obeys_intros]:
  "obeys lawful (GrantRoleByKey e email key)"
  "obeys lawful (Invite e actor access email rid)"
  "obeys lawful (AcceptInvitation e token password fn ln)"
  "obeys lawful (CreateAPIKey e actor access name perms t)"
proof -
  note accounts = keeps_user_updates [THEN keeps_lawful]
  show "obeys lawful (GrantRoleByKey e email key)"
    unfolding GrantRoleByKey_def by (intro obeys_intros)
  show "obeys lawful (Invite e actor access email rid)"
    unfolding Invite_def issue_invitation_def by (intro obeys_intros)
  show "obeys lawful (AcceptInvitation e token password fn ln)"
    unfolding AcceptInvitation_def by (intro obeys_intros)
  show "obeys lawful (CreateAPIKey e actor access name perms t)"
    unfolding CreateAPIKey_def mint_api_key_def by (intro obeys_intros)
qed

lemmas lawful_user_admin [obeys_intros] = keeps_user_admin [THEN keeps_lawful]

text \<open>A key can carry a permission only if its creator holds it.\<close>

lemma insert_key_permission_keeps:
  assumes "insert_key_permission kid q u d = Inr (x, d')" "q \<noteq> p"
  shows "keeps p T d d'"
proof -
  from assms(1) have d': "d' = d\<lparr>api_key_permissions := api_key_permissions d @ [(kid, q)]\<rparr>"
    by (simp add: insert_key_permission_def split: if_splits)
  have "confined p T d' \<longleftrightarrow> confined p T d"
    using assms(2) by (simp add: d' confined_def granted_def superusers_def)
  then show ?thesis by (simp add: keeps_def d' lawful_key_permissions)
qed

lemma keeps_repo_CreateAPIKey:
  assumes "p \<notin> s" "finite s"
  shows "obeys (keeps p T) (repo_CreateAPIKey e uid name tp digest s t)"
  unfolding repo_CreateAPIKey_def
proof (intro obeys_intros)
  show "insert_api_key e uid name tp digest t u d = Inr (row, d') \<Longrightarrow> keeps p T d d'" for u d row d'
    by (rule insert_api_key_keeps)
  fix q kid u d x d'
  assume "q \<in> set (Slice s)" "insert_key_permission kid q u d = Inr (x, d')"
  with assms show "keeps p T d d'" by (auto intro: insert_key_permission_keeps)
qed

lemma keeps_CreateAPIKey:
  assumes "p \<notin> Permissions access"
  shows "obeys (keeps p T) (CreateAPIKey e actor access name perms t)"
  unfolding CreateAPIKey_def mint_api_key_def
proof (intro keep.obeys_lift_bind keep.obeys_prod)
  fix r name' s u
  assume "validateAPIKeyInput e name perms t = Inr r" "r = (name', s)"
    "checkEscalation access s = Inr u"
  then have "p \<notin> s" "finite s"
    using assms by (auto dest: validateAPIKeyInput_Inr(2) intro: finite_granting)
  then show "obeys (keeps p T) (bind_op (NewToken e APIKeyTokenPrefix) (\<lambda>(plaintext, digest).
    let displayPrefix = take apiKeyDisplayPrefixLen plaintext in
    bind_op (InTx e (
      bind_op (repo_CreateAPIKey e (userID actor) name' displayPrefix digest s t) (\<lambda>k.
      then_op (Record e (Event (Some (userID actor)) ActionAPIKeyCreated ''api_key''
          (uuid_String e (keyID k))
          [(''name'', JStr name'), (''permissions'', JStrs (Slice s))]))
      (return_op k)))) (\<lambda>k.
    return_op (k, plaintext))))"
    by (intro obeys_intros keeps_repo_CreateAPIKey)
qed

section \<open>Inviting and accepting\<close>

lemma RevokePending_Inr:
  assumes "RevokePendingInvitationFor e email w = (Inr x, w')"
  shows "\<exists>is. db w' = (db w)\<lparr>invitations := is\<rparr> \<and> map i_id is = map i_id (invitations (db w))
    \<and> (\<forall>i \<in> set is. open_invitation i \<longrightarrow> i \<in> set (invitations (db w))
         \<and> \<not> citext_eq e (i_email i) email)"
proof -
  let ?Q = "\<lambda>i. citext_eq e (i_email i) email \<and> open_invitation i"
  let ?f = "\<lambda>i. i\<lparr>i_revoked_at := Some (sql_now e)\<rparr>"
  let ?is = "update_where ?Q ?f (invitations (db w))"
  from assms have "db w' = (db w)\<lparr>invitations := ?is\<rparr>"
    by (auto simp: RevokePendingInvitationFor_def bind_op_Inr_iff exec_Inr_iff
        revoke_invitations_def Let_def)
  moreover have "map i_id ?is = map i_id (invitations (db w))" by simp
  moreover have "\<forall>i \<in> set ?is. open_invitation i \<longrightarrow> i \<in> set (invitations (db w))
      \<and> \<not> citext_eq e (i_email i) email"
    by (auto elim!: in_update_whereE) (auto simp: open_invitation_def)
  ultimately show ?thesis by blast
qed

lemma issue_invitation_Inr:
  assumes "issue_invitation e actor email r digest w = (Inr iv, w')"
  obtains "is" row ev w1 where
    "map i_id is = map i_id (invitations (db w))"
    "\<forall>i \<in> set is. open_invitation i \<longrightarrow> i \<in> set (invitations (db w))
       \<and> \<not> citext_eq e (i_email i) email"
    "i_id row \<notin> i_id ` set (invitations (db w))" "i_role_id row = roleID r"
    "i_email row = email" "i_token_hash row = digest" "i_invited_by row = Some (userID actor)"
    "i_expires_at row = go_now e + InvitationTTL (auth_cfg e)" "open_invitation row"
    "ActorUserID ev = Some (userID actor)" "Action ev = ActionInvitationCreated"
    "db w' = logged e ev w1 ((db w)\<lparr>invitations := is @ [row]\<rparr>)"
proof -
  from assms obtain x iid w1 w2 w3 w4 where
    rev: "RevokePendingInvitationFor e email (tick w) = (Inr x, w1)" and
    cre: "CreateInvitation e email (roleID r) (userID actor) digest
        (go_now e + InvitationTTL (auth_cfg e)) w1 = (Inr iid, w2)" and
    get: "GetInvitation e iid w2 = (Inr iv, w3)" and
    log: "Record e (Event (Some (userID actor)) ActionInvitationCreated ''invitation''
         (uuid_String e (invID iv)) [(''email'', JStr email), (''role'', JStr (Key r))]) w3
       = (Inr (), w4)" and w': "w' = tick w4"
    by (auto simp: issue_invitation_def bind_op_Inr_iff InTx_Inr_iff)
  from RevokePending_Inr [OF rev] obtain "is" where
    "is": "db w1 = (db w)\<lparr>invitations := is\<rparr>" "map i_id is = map i_id (invitations (db w))"
      "\<forall>i \<in> set is. open_invitation i \<longrightarrow> i \<in> set (invitations (db w))
         \<and> \<not> citext_eq e (i_email i) email"
    by auto
  from cre obtain row where row: "i_id row = iid" "iid \<notin> i_id ` set (invitations (db w1))"
    "i_role_id row = roleID r" "i_email row = email" "i_token_hash row = digest"
    "i_invited_by row = Some (userID actor)"
    "i_expires_at row = go_now e + InvitationTTL (auth_cfg e)" "open_invitation row"
    "db w2 = (db w1)\<lparr>invitations := invitations (db w1) @ [row]\<rparr>"
    by (rule CreateInvitation_Inr)
  have "i_id ` set (invitations (db w1)) = i_id ` set (invitations (db w))"
    using "is"(1,2) by (simp flip: set_map)
  with row have fresh: "i_id row \<notin> i_id ` set (invitations (db w))" by simp
  have "db w3 = (db w)\<lparr>invitations := is @ [row]\<rparr>"
    using read_db [OF reading.obeys_invitation_reads(2) get] row(9) "is"(1) by simp
  with Record_logged [OF log] w' have db: "db w' = logged e (Event (Some (userID actor))
      ActionInvitationCreated ''invitation'' (uuid_String e (invID iv))
      [(''email'', JStr email), (''role'', JStr (Key r))]) w3
      ((db w)\<lparr>invitations := is @ [row]\<rparr>)" by simp
  show ?thesis
    by (rule that [OF "is"(2,3) fresh row(3-8) _ _ db]) (simp_all add: Event_def)
qed

lemma keeps_issue_invitation:
  assumes "p \<notin> granted d (roleID r)"
  shows "obeys_from d (keeps p T) (issue_invitation e actor email r digest)"
  unfolding obeys_from_def
proof (intro allI impI)
  fix w x w'
  assume d: "db w = d" and run: "issue_invitation e actor email r digest w = (x, w')"
  show "keeps p T d (db w')"
  proof (cases x)
    case (Inl err)
    then have "db w' = d"
      using run d by (auto simp: issue_invitation_def dest: InTx_Inl_db)
    then show ?thesis by (simp add: keep.rel_refl)
  next
    case (Inr iv)
    with run obtain "is" row ev w1 where
      "is": "map i_id is = map i_id (invitations d)"
        "\<forall>i \<in> set is. open_invitation i \<longrightarrow> i \<in> set (invitations d)" and
      row: "i_id row \<notin> i_id ` set (invitations d)" "i_role_id row = roleID r" and
      w': "db w' = logged e ev w1 (d\<lparr>invitations := is @ [row]\<rparr>)"
      using d by (auto elim: issue_invitation_Inr)
    have "keeps p T d (d\<lparr>invitations := is\<rparr>)"
      using "is" by (intro keeps_invitations) (auto simp: open_invitation_def)
    moreover have "keeps p T (d\<lparr>invitations := is\<rparr>) (d\<lparr>invitations := is @ [row]\<rparr>)"
    proof -
      have "i_id row \<notin> i_id ` set is" using row(1) "is"(1) by (metis list.set_map)
      with add_invitation_keeps [of row "d\<lparr>invitations := is\<rparr>" p] assms row(2)
      show ?thesis by (simp add: granted_def)
    qed
    ultimately have "keeps p T d (d\<lparr>invitations := is @ [row]\<rparr>)" by (rule keep.rel_trans)
    then show ?thesis unfolding w' using keeps_logged by (rule keep.rel_trans)
  qed
qed

lemma keeps_Invite:
  assumes "p \<notin> Permissions access"
  shows "obeys (keeps p T) (Invite e actor access email0 rid)"
  unfolding obeys_iff_from
proof
  fix d
  show "obeys_from d (keeps p T) (Invite e actor access email0 rid)"
  proof (cases "keys_ok d")
    case False
    then show ?thesis by (simp add: obeys_from_def keeps_def lawful_def)
  next
    case keys: True
    show ?thesis
      unfolding Invite_def
    proof (rule keep.from_lift, rule keep.from_get [OF reading.obeys_role_reads(2)], goal_cases)
      case (1 email w r w1)
      show ?case
      proof (rule keep.from_lift, goal_cases)
        case guard: (1 u)
        from 1 keys have "roleID r = rid" "rolePermissions r = granted d rid"
          by (auto simp: repo_GetRole_Inr_iff)
        with guard assms have "p \<notin> granted d (roleID r)" by auto
        then have "obeys_from d (keeps p T) (issue_invitation e actor email r digest)" for digest
          by (rule keeps_issue_invitation)
        note issue = this
        show ?case
          by (rule keep.from_skip, intro obeys_intros, rule keep.from_skip, intro obeys_intros,
              rule keep.from_prod, rule keep.from_bind, rule issue, intro obeys_intros)
      qed
    qed
  qed
qed


text \<open>What accepting an invitation writes: the account, its role, the spent invitation.\<close>

definition accept_row :: "env \<Rightarrow> invitation_row \<Rightarrow> invitation_row" where
  "accept_row e i = i\<lparr>i_accepted_at := Some (sql_now e)\<rparr>"

definition admit :: "env \<Rightarrow> invitation_row \<Rightarrow> user_row \<Rightarrow> database \<Rightarrow> database" where
  "admit e i row d = d\<lparr>users := users d @ [row],
     invitations := update_where (acceptable e (i_id i)) (accept_row e) (invitations d),
     user_roles := (if (u_id row, i_role_id i) \<in> set (user_roles d) then user_roles d
                    else user_roles d @ [(u_id row, i_role_id i)])\<rparr>"

lemma repo_AcceptInvitation_Inr:
  assumes "repo_AcceptInvitation e iid w = (Inr x, w')"
  shows "\<exists>j \<in> set (invitations (db w)). acceptable e iid j"
    "db w' = (db w)\<lparr>invitations :=
       update_where (acceptable e iid) (accept_row e) (invitations (db w))\<rparr>"
  using assms
  by (auto simp: repo_AcceptInvitation_def bind_op_Inr_iff exec_Inr_iff accept_row_def [abs_def]
      count_where_0_iff split: if_splits)

lemma update_where_fresh:
  "\<forall>x \<in> set xs. \<not> P x \<Longrightarrow> update_where P f (xs @ [y]) = xs @ [if P y then f y else y]"
  by (induction xs) auto

lemma MarkEmailVerified_Inr:
  assumes "MarkEmailVerified e uid email w = (Inr u, w')"
    and "users (db w) = us @ [row]" "uid \<notin> u_id ` set us" "u_id row = uid" "u_email row = email"
  shows "u = scanUser (row\<lparr>u_email_verified_at := Some (sql_now e), u_updated_at := sql_now e\<rparr>)"
    "db w' = (db w)\<lparr>users := us
       @ [row\<lparr>u_email_verified_at := Some (sql_now e), u_updated_at := sql_now e\<rparr>]\<rparr>"
proof -
  let ?P = "\<lambda>x. u_id x = uid \<and> citext_eq e (u_email x) email"
  let ?f = "\<lambda>x. x\<lparr>u_email_verified_at := Some (sql_now e), u_updated_at := sql_now e\<rparr>"
  have old: "\<forall>x \<in> set us. \<not> ?P x" using assms(3) by auto
  then have "find ?P (us @ [row]) = Some row"
    using assms(4,5) by (induction us) (auto simp: citext_eq_def)
  moreover have "update_where ?P ?f (us @ [row]) = us @ [?f row]"
    using assms(4,5) by (subst update_where_fresh [OF old]) (simp add: citext_eq_def)
  ultimately show "u = scanUser (?f row)" "db w' = (db w)\<lparr>users := us @ [?f row]\<rparr>"
    using assms(1,2)
    by (auto simp: MarkEmailVerified_def bind_op_Inr_iff exec_Inr_iff update_user_def)
qed

lemma AcceptInvitation_Inr:
  assumes "keys_ok (db w)" "AcceptInvitation e token password fn ln w = (Inr u, w')"
  obtains i r row ev w1 where
    "i \<in> set (invitations (db w))" "i_token_hash i = HashToken e token"
    "open_invitation i" "i_expires_at i > go_now e" "i_expires_at i > sql_now e"
    "r \<in> set (roles (db w))" "r_id r = i_role_id i"
    "u = scanUser row" "u_id row \<notin> u_id ` set (users (db w))" "u_email row = i_email i"
    "u_is_active row" "\<not> u_is_superuser row" "u_email_verified_at row = Some (sql_now e)"
    "ActorUserID ev = Some (u_id row)" "Action ev = ActionInvitationAccepted"
    "db w' = logged e ev w1 (admit e i row (db w))"
proof -
  let ?d = "db w"
  from assms(2) obtain hash iv x0 x1 u0 w0 w1 w2 w3 w4 w5 w6 where
    hash: "Hash e (service_hasher e) password w = (Inr hash, w0)" and
    get: "GetInvitationByTokenHash e (HashToken e token) (tick w0) = (Inr iv, w1)" and
    pend: "Pending iv (go_now e)" and
    acc: "repo_AcceptInvitation e (invID iv) w1 = (Inr x0, w2)" and
    cre: "CreateUser e (invEmail iv) hash (TrimSpace (uspace e) fn)
          (TrimSpace (uspace e) ln) w2 = (Inr u0, w3)" and
    add: "AddUserRole e (userID u0) (roleID (invRole iv)) w3 = (Inr x1, w4)" and
    mark: "MarkEmailVerified e (userID u0) (Email u0) w4 = (Inr u, w5)" and
    log: "Record e (Event (Some (userID u)) ActionInvitationAccepted ''invitation''
          (uuid_String e (invID iv))
          [(''email'', JStr (invEmail iv)), (''role'', JStr (Key (invRole iv)))]) w5
        = (Inr (), w6)" and w': "w' = tick w6"
    by (auto simp: AcceptInvitation_def bind_op_Inr_iff InTx_Inr_iff split: if_splits)
  have d0: "db (tick w0) = ?d" using read_db [OF reading.obeys_Hash hash] by simp
  with assms(1) have keys: "keys_ok (db (tick w0))" by simp
  obtain i r where i: "i \<in> set (invitations ?d)" "i_token_hash i = HashToken e token"
    "r \<in> set (roles ?d)" "r_id r = i_role_id i"
    "iv = (full_invitation ?d (i, r))\<lparr>invTokenHash := HashToken e token\<rparr>" "db w1 = ?d"
    by (rule GetInvitationByTokenHash_Inr [OF keys get, unfolded d0])
  have iv: "invID iv = i_id i" "invEmail iv = i_email i" "roleID (invRole iv) = i_role_id i"
    "AcceptedAt iv = i_accepted_at i" "invRevokedAt iv = i_revoked_at i"
    "invExpiresAt iv = i_expires_at i"
    using i(4,5) by (simp_all add: full_invitation_def invitation_of_def role_of_def)
  with pend have op: "open_invitation i" "i_expires_at i > go_now e"
    by (simp_all add: Pending_def open_invitation_def)
  note acc' = repo_AcceptInvitation_Inr [OF acc, unfolded i(6) iv(1)]
  have exp: "i_expires_at i > sql_now e"
  proof -
    from acc'(1) obtain j where j: "j \<in> set (invitations ?d)" "acceptable e (i_id i) j" by blast
    then have "j = i" using i(1) keys_okD(7) [OF assms(1)]
      by (auto simp: acceptable_def dest: distinct_map_eqD)
    with j show ?thesis by (simp add: acceptable_def)
  qed
  from cre obtain row0 where row0: "u0 = scanUser row0" "u_id row0 \<notin> u_id ` set (users (db w2))"
    "u_email row0 = i_email i" "u_is_active row0" "\<not> u_is_superuser row0"
    "db w3 = (db w2)\<lparr>users := users (db w2) @ [row0]\<rparr>"
    unfolding iv by (rule CreateUser_Inr)
  let ?row = "row0\<lparr>u_email_verified_at := Some (sql_now e), u_updated_at := sql_now e\<rparr>"
  have d4: "users (db w4) = users ?d @ [row0]"
    using AddUserRole_Inr [OF add] row0(6) acc'(2) by simp
  have fresh: "u_id row0 \<notin> u_id ` set (users ?d)" using row0(2) acc'(2) by simp
  note ver = MarkEmailVerified_Inr [OF mark d4, unfolded row0(1) scanUser_sel, OF fresh refl refl]
  have "db w5 = admit e i ?row ?d"
    using ver(2) AddUserRole_Inr [OF add] row0(1,6) acc'(2) iv(3)
    by (simp add: admit_def)
  with Record_logged [OF log] w' have db: "db w' = logged e (Event (Some (userID u))
      ActionInvitationAccepted ''invitation'' (uuid_String e (invID iv))
      [(''email'', JStr (invEmail iv)), (''role'', JStr (Key (invRole iv)))]) w5
      (admit e i ?row ?d)" by simp
  show ?thesis
    by (rule that [OF i(1,2) op exp i(3,4) ver(1) _ _ _ _ _ _ _ db])
      (use fresh row0 ver(1) in \<open>simp_all add: Event_def\<close>)
qed


lemma keeps_admit:
  assumes "keys_ok d" "i \<in> set (invitations d)" "open_invitation i"
    and "u_id row \<notin> u_id ` set (users d)" "\<not> u_is_superuser row"
  shows "keeps p T d (admit e i row d)"
proof -
  let ?is = "update_where (acceptable e (i_id i)) (accept_row e) (invitations d)"
  let ?d1 = "d\<lparr>invitations := ?is\<rparr>" let ?d2 = "?d1\<lparr>users := users d @ [row]\<rparr>"
  let ?urs = "user_roles (admit e i row d)"
  have 1: "keeps p T d ?d1"
    by (rule close_invitations_keeps) (simp_all add: accept_row_def)
  have 2: "keeps p T ?d1 ?d2"
    using assms(4,5) by (intro keeps_users) (auto simp: superusers_def)
  have law: "lawful ?d2 (?d2\<lparr>user_roles := ?urs\<rparr>)"
    by (rule lawful_more_user_roles) (auto simp: admit_def)
  have "confined p T (?d2\<lparr>user_roles := ?urs\<rparr>)" if "confined p T d"
  proof -
    have "p \<notin> granted d (i_role_id i)"
      using that assms(2,3) by (auto simp: open_invitation_def dest: confinedD(3))
    moreover have "confined p T ?d2" using 1 2 that assms(1)
      by (auto simp: keeps_def lawful_def)
    ultimately show ?thesis
      by (auto simp: confined_def admit_def granted_def superusers_def split: if_splits)
  qed
  moreover have final: "admit e i row d = ?d2\<lparr>user_roles := ?urs\<rparr>"
    by (simp add: admit_def)
  moreover have "lawful d (admit e i row d)"
    using law.rel_trans [OF law.rel_trans [OF keepsD [OF 1] keepsD [OF 2]] law] final by metis
  ultimately show ?thesis by (auto simp: keeps_def)
qed

lemma atomic_AcceptInvitation [atomic_intros]:
  "atomic_op (AcceptInvitation e token password fn ln)"
  unfolding AcceptInvitation_def by (intro atomic_read_bind atomic_intros obeys_intros)

lemma keeps_AcceptInvitation [obeys_intros]:
  "obeys (keeps p T) (AcceptInvitation e token password fn ln)"
proof (rule keep.obeys_success [OF atomic_AcceptInvitation], rule keeps_needs_keys(1))
  fix w u w'
  assume run: "AcceptInvitation e token password fn ln w = (Inr u, w')" "keys_ok (db w)"
  then obtain i row ev w1 where "i \<in> set (invitations (db w))" "open_invitation i"
    "u_id row \<notin> u_id ` set (users (db w))" "\<not> u_is_superuser row"
    "db w' = logged e ev w1 (admit e i row (db w))"
    by (metis AcceptInvitation_Inr)
  with run(2) keep.rel_trans [OF keeps_admit keeps_logged] show "keeps p T (db w) (db w')"
    by metis
qed


section \<open>Who a request acts for, and with which permissions\<close>

lemma Authenticate_Inr:
  assumes "Authenticate e token w = (Inr (u, sess), w')"
  obtains s x where "s \<in> set (sessions (db w))" "live_session e (HashToken e token) s"
    "x \<in> set (users (db w))" "u_id x = s_user_id s" "u_is_active x" "u = scanUser x"
    "sess = (scanSession s)\<lparr>sessionTokenHash := HashToken e token\<rparr>"
    "users (db w') = users (db w)" "user_roles (db w') = user_roles (db w)"
    "role_permissions (db w') = role_permissions (db w)" "roles (db w') = roles (db w)"
proof -
  from assms obtain s x where
    "find (live_session e (HashToken e token)) (sessions (db w)) = Some s"
    "find (\<lambda>x. u_id x = s_user_id s \<and> u_is_active x) (users (db w)) = Some x"
    "u = scanUser x" "sess = (scanSession s)\<lparr>sessionTokenHash := HashToken e token\<rparr>"
    "users (db w') = users (db w)" "user_roles (db w') = user_roles (db w)"
    "role_permissions (db w') = role_permissions (db w)" "roles (db w') = roles (db w)"
    by (auto simp: Authenticate_def AuthenticateSession_def bind_op_Inr_iff exec_Inr_iff
        auth_session_def split: if_splits option.splits)
  with that show ?thesis by (auto dest!: find_SomeD)
qed

lemma perms_of_key_other [simp]:
  "perms_of_key (d\<lparr>api_keys := ks\<rparr>) kid = perms_of_key d kid"
  by (simp add: perms_of_key_def)

lemma AuthenticateAPIKey_Inr:
  assumes "keys_ok (db w)" "AuthenticateAPIKey e token w = (Inr (k, u), w')"
  obtains row x where "row \<in> set (api_keys (db w))" "live_key e (HashToken e token) (db w) row"
    "x \<in> set (users (db w))" "u_id x = k_user_id row" "u_is_active x" "u = scanUser x"
    "k = key_of row {q. (k_id row, q) \<in> set (api_key_permissions (db w))}"
proof -
  from assms(2) obtain row x where
    row: "find (live_key e (HashToken e token) (db w)) (api_keys (db w)) = Some row" and
    k: "k = key_of row (set (perms_of_key (db w) (k_id row)))" and
    x: "find (\<lambda>x. u_id x = keyUserID k) (users (db w)) = Some x" "u = scanUser x"
    by (auto simp: AuthenticateAPIKey_def repo_AuthenticateAPIKey_def bind_op_Inr_iff exec_Inr_iff
        auth_key_def loadAPIKeyPermissions_def select_Inr_iff GetUserByID_def
        scanUserOrNotFound_def split: if_splits option.splits)
  from row have r: "row \<in> set (api_keys (db w))" "live_key e (HashToken e token) (db w) row"
    by (auto dest: find_SomeD)
  from x(1) k have x': "x \<in> set (users (db w))" "u_id x = k_user_id row"
    by (auto simp: key_of_def dest: find_SomeD)
  from r(2) obtain y where "y \<in> set (users (db w))" "u_id y = k_user_id row" "u_is_active y"
    by (auto simp: live_key_def list_ex_iff)
  with x' keys_okD(1) [OF assms(1)] have "u_is_active x" by (metis distinct_map_eqD)
  moreover have "set (perms_of_key (db w) (k_id row))
      = {q. (k_id row, q) \<in> set (api_key_permissions (db w))}"
    by (force simp: perms_of_key_def)
  ultimately show ?thesis using that r x' x(2) k by metis
qed

lemma Authorize_Inr:
  assumes "keys_ok (db w)" "Authorize e u w = (Inr a, w')" "\<not> IsSuperuser u"
  shows "Permissions a = (\<Union>r \<in> set (roles_held (db w) (userID u)). granted (db w) (r_id r))"
    and "db w' = db w"
proof -
  from assms(2,3) obtain rs where rs: "LoadUserRoles e (userID u) w = (Inr rs, w')"
    "Permissions a = unionPermissions rs"
    by (auto simp: Authorize_def bind_op_Inr_iff)
  from LoadUserRoles_Inr [OF assms(1) rs(1)]
  show "Permissions a = (\<Union>r \<in> set (roles_held (db w) (userID u)). granted (db w) (r_id r))"
    "db w' = db w"
    by (auto simp: rs(2) unionPermissions_eq)
qed

lemma Authorize_confined:
  assumes "keys_ok (db w)" "confined p T (db w)" "userID u \<notin> T" "\<not> IsSuperuser u"
    and "Authorize e u w = (Inr a, w')"
  shows "p \<notin> Permissions a"
proof -
  have "p \<notin> granted (db w) (r_id r)" if "r \<in> set (roles_held (db w) (userID u))" for r
    using that confinedD(2) [OF assms(2)] assms(3) by (auto simp: roles_held_def)
  then show ?thesis by (simp add: Authorize_Inr [OF assms(1,5,4)])
qed

lemma Authenticate_confined:
  assumes "confined p T (db w)" "userID u \<notin> T"
    and "Authenticate e token w = (Inr (u, sess), w')"
  shows "\<not> IsSuperuser u"
  using confinedD(1) [OF assms(1)] assms(2)
  by (rule_tac Authenticate_Inr [OF assms(3)]) (auto simp: superusers_def)

lemma AuthenticateAPIKey_confined:
  assumes "keys_ok (db w)" "confined p T (db w)" "userID u \<notin> T"
    and "AuthenticateAPIKey e token w = (Inr (k, u), w')"
  shows "p \<notin> keyPermissions k"
proof (rule AuthenticateAPIKey_Inr [OF assms(1,4)])
  fix row x
  assume "row \<in> set (api_keys (db w))" "live_key e (HashToken e token) (db w) row"
    "u_id x = k_user_id row" "u = scanUser x"
    "k = key_of row {q. (k_id row, q) \<in> set (api_key_permissions (db w))}"
  with confinedD(5) [OF assms(2)] assms(3) show ?thesis
    by (fastforce simp: key_of_def live_key_def)
qed

end
