(* ===== verification/Server.thy ===== *)
theory Server
  imports Authority
begin

text \<open>
  \<open>internal/server\<close>: the error responses, the middleware, the handlers and the route
  table. A request arrives routed and decoded: chi has matched a route, whose URL
  parameters and query values are raw strings, and \<open>decodeJSON\<close> has either filled the
  handler's struct or failed (\<open>None\<close>); \<open>Wire\<close> takes it from the bytes of the body.
\<close>

section \<open>Requests and responses\<close>

datatype route =
    Healthz | Readyz
  | PostRegister "(string \<times> string \<times> string \<times> string) option"
  | PostLogin "(string \<times> string) option"
  | PostReset "string option"
  | PostResetConfirm "(string \<times> string) option"
  | PostVerify "string option"
  | PostAccept "(string \<times> string \<times> string \<times> string) option"
  | GetPermissions
  | PostLogout | GetMe | PostPassword "(string \<times> string) option"
  | GetSessions | DeleteSession string | PostResend
  | GetUsers string | PutUserRoles string "uuid list option" | PatchUser string "bool option"
  | GetInvitations | PostInvitation "(string \<times> uuid) option" | DeleteInvitation string
  | GetRoles | PostRole "(string \<times> string \<times> permission list) option"
  | PutRole string "(string \<times> permission list) option" | DeleteRoleByID string
  | GetAudit string string string string string
  | GetAPIKeys | PostAPIKey "(string \<times> permission list \<times> time option) option"
  | DeleteAPIKey string

text \<open>\<open>rq_email\<close> is the email that \<open>peekEmail\<close> unmarshals from the body (\<open>Wire\<close>).\<close>

record http_request =
  rq_method :: string
  rq_path :: string
  rq_header :: "string \<Rightarrow> string"    \<comment> \<open>\<open>Header.Get\<close>\<close>
  RemoteAddr :: string
  rq_id :: string                   \<comment> \<open>chi's request id\<close>
  rq_email :: "string option"
  rq_route :: route
  rq_clock2 :: time                 \<comment> \<open>the limiter's second reading of the clock\<close>

datatype payload =
    NoBody | PError string | PStatus string | PUser user | PLogin string user
  | PSessions "(session \<times> bool) list" | PUsers "user_summary list" string
  | PInvitation invitation | PInvitations "invitation list"
  | PPermissions "(permission \<times> string) list" | PRoles "role list" | PRole role
  | PAudit "audit_entry list" string | PKeys "api_key list" | PKeyToken api_key string

record response =
  status :: nat
  headers :: "(string \<times> string) list"
  payload :: payload

record server =
  srv_config :: server_settings
  srv_debug :: bool
  AllowedOrigins :: "string list"
  error_text :: "error \<Rightarrow> string"    \<comment> \<open>\<open>err.Error()\<close> of an error no case names\<close>

text \<open>The values the middleware puts on the request context.\<close>

record ctx =
  ctx_user :: "user option"
  ctx_session :: "session option"
  ctx_access :: "access option"
  ctx_key :: "api_key option"

definition no_ctx :: ctx where
  "no_ctx = \<lparr>ctx_user = None, ctx_session = None, ctx_access = None, ctx_key = None\<rparr>"

type_synonym handler = "env \<Rightarrow> ctx \<Rightarrow> response op"

definition writeJSON :: "nat \<Rightarrow> payload \<Rightarrow> response op" where
  "writeJSON code v = return_op
     \<lparr>status = code, headers = [(''Content-Type'', ''application/json'')], payload = v\<rparr>"

definition writeError :: "nat \<Rightarrow> string \<Rightarrow> response op" where
  "writeError code msg = writeJSON code (PError msg)"

definition noContent :: "response op" where
  "noContent = return_op \<lparr>status = 204, headers = [], payload = NoBody\<rparr>"

text \<open>A panic on a missing context value; chi's \<open>Recoverer\<close> turns it into a 500.\<close>

definition panic :: "response op" where
  "panic = return_op \<lparr>status = 500, headers = [], payload = NoBody\<rparr>"

definition with_header :: "string \<times> string \<Rightarrow> response op \<Rightarrow> response op" where
  "with_header h m = bind_op m (\<lambda>r. return_op (r\<lparr>headers := h # headers r\<rparr>))"

definition userFrom :: "ctx \<Rightarrow> (user \<Rightarrow> response op) \<Rightarrow> response op" where
  "userFrom c k = (case ctx_user c of None \<Rightarrow> panic | Some u \<Rightarrow> k u)"

definition sessionFrom :: "ctx \<Rightarrow> (session \<Rightarrow> response op) \<Rightarrow> response op" where
  "sessionFrom c k = (case ctx_session c of None \<Rightarrow> panic | Some s \<Rightarrow> k s)"

definition accessFrom :: "ctx \<Rightarrow> (access \<Rightarrow> response op) \<Rightarrow> response op" where
  "accessFrom c k = (case ctx_access c of None \<Rightarrow> panic | Some a \<Rightarrow> k a)"

section \<open>Errors\<close>

definition escalation_text :: "permission list \<Rightarrow> string" where
  "escalation_text missing =
    ''identity: you cannot grant a permission you do not hold: you do not hold ''
    @ Join missing '', ''"

definition denial_action :: "error \<Rightarrow> string option" where
  "denial_action err =
    (case err of
       ErrEscalation _ \<Rightarrow> Some ActionEscalationDenied
     | ErrForbidden \<Rightarrow> Some ActionAccessDenied
     | ErrInvitationInvalid \<Rightarrow> Some ActionInvitationRejected
     | ErrRateLimited \<Rightarrow> Some ActionRateLimited
     | _ \<Rightarrow> None)"

definition denial_metadata :: "http_request \<Rightarrow> ctx \<Rightarrow> error \<Rightarrow> metadata" where
  "denial_metadata rq c err =
    [(''method'', JStr (rq_method rq)), (''path'', JStr (rq_path rq))]
    @ (case err of ErrEscalation missing \<Rightarrow> [(''detail'', JStr (escalation_text missing))] | _ \<Rightarrow> [])
    @ (case ctx_user c of Some u \<Rightarrow> [(''email'', JStr (Email u))] | None \<Rightarrow> [])"

definition auditDenial :: "env \<Rightarrow> http_request \<Rightarrow> ctx \<Rightarrow> error \<Rightarrow> unit op" where
  "auditDenial e rq c err =
    (case denial_action err of
       None \<Rightarrow> return_op ()
     | Some action \<Rightarrow>
         then_op (attempt (Record e (Event (map_option userID (ctx_user c)) action '''' ''''
             (denial_metadata rq c err))))
           (return_op ()))"

definition error_response :: "server \<Rightarrow> error \<Rightarrow> nat \<times> string" where
  "error_response s err =
    (case err of
       ErrUnauthenticated \<Rightarrow> (401, ''authentication required'')
     | ErrInvalidCredentials \<Rightarrow> (401, ''invalid email or password'')
     | ErrForbidden \<Rightarrow> (403, ''you do not have permission to do that'')
     | ErrNotFound \<Rightarrow> (404, ''not found'')
     | ErrEmailTaken \<Rightarrow> (409, ''that email is already registered'')
     | ErrLastAdmin \<Rightarrow> (409, ''this installation must always have at least one admin'')
     | ErrEscalation missing \<Rightarrow> (403, escalation_text missing)
     | ErrSystemRole \<Rightarrow> (403, ''the admin and member roles are built in and cannot be changed -- create a custom role instead'')
     | ErrRoleInUse \<Rightarrow> (409, ''this role is still assigned to users -- reassign them before deleting it'')
     | ErrRoleKeyTaken \<Rightarrow> (409, ''a role with that key already exists'')
     | ErrInvitationInvalid \<Rightarrow> (400, ''this invitation is invalid or has expired'')
     | ErrInvalidToken \<Rightarrow> (400, ''this link is invalid or has expired -- request a new one'')
     | ErrRateLimited \<Rightarrow> (429, ''too many attempts -- try again shortly'')
     | ErrMailFailed \<Rightarrow> (502, ''created, but the email could not be sent -- check your mail configuration and resend'')
     | ErrValidation msg \<Rightarrow> (400, msg)
     | _ \<Rightarrow> (500, if srv_debug s then error_text s err else ''internal server error''))"

definition handle :: "server \<Rightarrow> http_request \<Rightarrow> env \<Rightarrow> ctx \<Rightarrow> error \<Rightarrow> response op" where
  "handle s rq e c err =
    then_op (auditDenial e rq c err)
      (case error_response s err of (code, msg) \<Rightarrow>
        if err = ErrUnauthenticated
        then with_header (''WWW-Authenticate'', ''Bearer realm='' @ [CHR 0x22] @ ''api'' @ [CHR 0x22])
               (writeError code msg)
        else writeError code msg)"

text \<open>\<open>x, err := m; if err != nil { s.errors.handle(w, r, err); return }; k x\<close>.\<close>

definition run_or_handle ::
  "server \<Rightarrow> http_request \<Rightarrow> env \<Rightarrow> ctx \<Rightarrow> 'a op \<Rightarrow> ('a \<Rightarrow> response op) \<Rightarrow> response op" where
  "run_or_handle s rq e c m k =
    bind_op (attempt m) (\<lambda>r. case r of Inl err \<Rightarrow> handle s rq e c err | Inr a \<Rightarrow> k a)"

section \<open>Middleware\<close>

text \<open>\<open>strings.Cut\<close> at a one-byte separator: before, after, and whether it was found.\<close>

definition Cut :: "string \<Rightarrow> char \<Rightarrow> string \<times> string \<times> bool" where
  "Cut s sep =
    (case dropWhile (\<lambda>c. c \<noteq> sep) s of
       [] \<Rightarrow> (s, '''', False)
     | _ # after \<Rightarrow> (takeWhile (\<lambda>c. c \<noteq> sep) s, after, True))"

text \<open>\<open>strings.EqualFold(scheme, "bearer")\<close>: no letter of it has a fold outside ASCII.\<close>

definition bearerToken :: "env \<Rightarrow> http_request \<Rightarrow> string" where
  "bearerToken e rq =
    (case Cut (rq_header rq ''Authorization'') (CHR '' '') of
       (scheme, token, found) \<Rightarrow>
         if \<not> found \<or> map ascii_lower scheme \<noteq> ''bearer'' then ''''
         else TrimSpace (uspace e) token)"

text \<open>\<open>net.SplitHostPort\<close>, its host, or None for an error.\<close>

definition SplitHostPort :: "string \<Rightarrow> string option" where
  "SplitHostPort s =
    (if CHR '':'' \<notin> set s then None
     else
       let port = rev (takeWhile (\<lambda>c. c \<noteq> CHR '':'') (rev s));
           front = take (length s - length port - 1) s in
       if HasPrefix s ''['' then
         (if last front = CHR '']'' \<and> CHR '']'' \<notin> set (butlast front)
             \<and> CHR ''['' \<notin> set (tl front) \<and> CHR ''['' \<notin> set port \<and> CHR '']'' \<notin> set port
          then Some (tl (butlast front)) else None)
       else if CHR '':'' \<in> set front \<or> CHR ''['' \<in> set s \<or> CHR '']'' \<in> set s then None
       else Some front)"

definition clientIP :: "server \<Rightarrow> env \<Rightarrow> http_request \<Rightarrow> string" where
  "clientIP s e rq =
    (let fwd = rq_header rq ''X-Forwarded-For'';
         first = TrimSpace (uspace e) (fst (Cut fwd (CHR '','')));
         real = TrimSpace (uspace e) (rq_header rq ''X-Real-IP'') in
     if TrustProxyHeaders (srv_config s) \<and> fwd \<noteq> '''' \<and> first \<noteq> '''' then first
     else if TrustProxyHeaders (srv_config s) \<and> real \<noteq> '''' then real
     else (case SplitHostPort (RemoteAddr rq) of None \<Rightarrow> RemoteAddr rq | Some host \<Rightarrow> host))"

definition requestMeta :: "server \<Rightarrow> env \<Rightarrow> http_request \<Rightarrow> login_meta" where
  "requestMeta s e rq =
    \<lparr>UserAgent = cap_user_agent (rq_header rq ''User-Agent''), IPAddress = clientIP s e rq\<rparr>"

definition withAuditMeta :: "server \<Rightarrow> http_request \<Rightarrow> handler \<Rightarrow> handler" where
  "withAuditMeta s rq next e c =
    next (e\<lparr>req_meta := \<lparr>RequestID = rq_id rq, metaIPAddress = clientIP s e rq,
        metaUserAgent = rq_header rq ''User-Agent'', APIKeyID = None\<rparr>\<rparr>) c"

definition requireAuth :: "server \<Rightarrow> http_request \<Rightarrow> handler \<Rightarrow> handler" where
  "requireAuth s rq next e c =
    (let token = bearerToken e rq in
     if token = '''' then handle s rq e c ErrUnauthenticated
     else if HasPrefix token APIKeyTokenPrefix then
       run_or_handle s rq e c (AuthenticateAPIKey e token) (\<lambda>(key, actor).
         next (e\<lparr>req_meta := \<lparr>RequestID = rq_id rq, metaIPAddress = clientIP s e rq,
              metaUserAgent = rq_header rq ''User-Agent'', APIKeyID = Some (keyID key)\<rparr>\<rparr>)
           (c\<lparr>ctx_user := Some actor, ctx_session := Some zero_session, ctx_key := Some key\<rparr>))
     else
       run_or_handle s rq e c (Authenticate e token) (\<lambda>(u, sess).
         next e (c\<lparr>ctx_user := Some u, ctx_session := Some sess\<rparr>)))"

definition sessionOnly :: "handler \<Rightarrow> handler" where
  "sessionOnly next e c =
    (if ctx_key c \<noteq> None then writeError 403
       ''API keys cannot be used on this endpoint; authenticate with a user session''
     else next e c)"

definition requireAccess :: "server \<Rightarrow> http_request \<Rightarrow> handler \<Rightarrow> handler" where
  "requireAccess s rq next e c =
    (case ctx_key c of
       Some key \<Rightarrow> next e (c\<lparr>ctx_access := Some \<lparr>Roles = [], Permissions = keyPermissions key,
           ViaSuperuser = False, ViaAPIKey = True\<rparr>\<rparr>)
     | None \<Rightarrow> userFrom c (\<lambda>u.
         run_or_handle s rq e c (Authorize e u) (\<lambda>access.
           next e (c\<lparr>ctx_access := Some access\<rparr>))))"

definition requirePermission :: "server \<Rightarrow> http_request \<Rightarrow> permission \<Rightarrow> handler \<Rightarrow> handler" where
  "requirePermission s rq p next e c =
    accessFrom c (\<lambda>access.
      if \<not> Can access p then handle s rq e c ErrForbidden else next e c)"

definition peekEmail :: "env \<Rightarrow> http_request \<Rightarrow> string" where
  "peekEmail e rq =
    (case rq_email rq of None \<Rightarrow> ''''
     | Some email \<Rightarrow> ToLower (ulower e) (TrimSpace (uspace e) email))"

text \<open>\<open>strconv.Itoa(int(retryAfter.Seconds())+1)\<close>: truncation toward zero.\<close>

definition retry_after :: "duration \<Rightarrow> string" where
  "retry_after d = dec_int ((if d \<ge> 0 then d div second else - ((- d) div second)) + 1)"

definition rateLimit :: "server \<Rightarrow> http_request \<Rightarrow> string list \<Rightarrow> handler \<Rightarrow> handler" where
  "rateLimit s rq keys next e c = (\<lambda>w.
    (case limits w of
       None \<Rightarrow> next e c w
     | Some l \<Rightarrow>
        (case check_keys (go_now e) (rq_clock2 rq) keys l of
           (None, l') \<Rightarrow> next e c (w\<lparr>limits := Some l'\<rparr>)
         | (Some wait, l') \<Rightarrow>
             with_header (''Retry-After'', retry_after wait) (handle s rq e c ErrRateLimited)
               (w\<lparr>limits := Some l'\<rparr>))))"

definition limit_ip :: "server \<Rightarrow> http_request \<Rightarrow> string \<Rightarrow> handler \<Rightarrow> handler" where
  "limit_ip s rq pre next e c = rateLimit s rq (byIP pre (clientIP s e rq)) next e c"

definition limit_ip_email :: "server \<Rightarrow> http_request \<Rightarrow> string \<Rightarrow> handler \<Rightarrow> handler" where
  "limit_ip_email s rq pre next e c =
    rateLimit s rq (byIPAndEmail pre (clientIP s e rq) (peekEmail e rq)) next e c"

section \<open>Security headers and CORS\<close>

definition security_headers :: "(string \<times> string) list" where
  "security_headers =
    [(''X-Content-Type-Options'', ''nosniff''),
     (''Content-Security-Policy'', ''default-src '' @ [CHR 0x27] @ ''none'' @ [CHR 0x27]
        @ ''; frame-ancestors '' @ [CHR 0x27] @ ''none'' @ [CHR 0x27]),
     (''X-Frame-Options'', ''DENY''),
     (''Referrer-Policy'', ''no-referrer''),
     (''Strict-Transport-Security'', ''max-age=31536000; includeSubDomains'')]"

definition securityHeaders :: "response op \<Rightarrow> response op" where
  "securityHeaders m = bind_op m (\<lambda>r. return_op (r\<lparr>headers := security_headers @ headers r\<rparr>))"

definition cors :: "server \<Rightarrow> http_request \<Rightarrow> response op \<Rightarrow> response op" where
  "cors s rq next =
    (let origin = rq_header rq ''Origin'';
         allowed = [(''Access-Control-Allow-Origin'', origin),
                    (''Access-Control-Allow-Credentials'', ''true''), (''Vary'', ''Origin'')] in
     if origin = '''' \<or> AllowedOrigins s = [] then next
     else if origin \<notin> set (AllowedOrigins s) then next
     else if rq_method rq = ''OPTIONS'' then return_op \<lparr>status = 204,
       headers = allowed @
         [(''Access-Control-Allow-Methods'', ''GET, POST, PUT, PATCH, DELETE, OPTIONS''),
          (''Access-Control-Allow-Headers'', ''Authorization, Content-Type''),
          (''Access-Control-Max-Age'', dec_int (24 * hour div second))],
       payload = NoBody\<rparr>
     else bind_op next (\<lambda>r. return_op (r\<lparr>headers := allowed
         @ [(''Access-Control-Expose-Headers'', Join [''Retry-After'', ''X-Request-Id''] '', '')]
         @ headers r\<rparr>)))"

end
