(* ===== verification/Handlers.thy ===== *)
theory Handlers
  imports Server
begin

text \<open>
  The handlers (\<open>handlers.go\<close>, \<open>handlers_roles.go\<close>, \<open>handlers_password.go\<close>,
  \<open>handlers_apikeys.go\<close>) and the route table of \<open>server.go\<close>, with the middleware in
  front of each route in the order \<open>routes\<close> installs it.
\<close>

section \<open>Account handlers\<close>

definition badJSON :: "response op" where
  "badJSON = writeError 400 ''invalid JSON body''"

definition handleRegister ::
  "server \<Rightarrow> http_request \<Rightarrow> (string \<times> string \<times> string \<times> string) option \<Rightarrow> handler" where
  "handleRegister s rq body e c =
    (case body of None \<Rightarrow> badJSON | Some (email, password, fn, ln) \<Rightarrow>
     run_or_handle s rq e c (Register e email password fn ln) (\<lambda>u. writeJSON 201 (PUser u)))"

definition handleLogin :: "server \<Rightarrow> http_request \<Rightarrow> (string \<times> string) option \<Rightarrow> handler" where
  "handleLogin s rq body e c =
    (case body of None \<Rightarrow> badJSON | Some (email, password) \<Rightarrow>
     run_or_handle s rq e c (Login e email password (requestMeta s e rq)) (\<lambda>(token, u).
       writeJSON 200 (PLogin token u)))"

definition handleLogout :: "server \<Rightarrow> http_request \<Rightarrow> handler" where
  "handleLogout s rq e c = userFrom c (\<lambda>u.
     run_or_handle s rq e c (Logout e (bearerToken e rq) (userID u)) (\<lambda>_. noContent))"

definition handleMe :: "handler" where
  "handleMe e c = userFrom c (\<lambda>u. writeJSON 200 (PUser u))"

definition handleChangePassword ::
  "server \<Rightarrow> http_request \<Rightarrow> (string \<times> string) option \<Rightarrow> handler" where
  "handleChangePassword s rq body e c =
    (case body of None \<Rightarrow> badJSON | Some (current, next) \<Rightarrow> userFrom c (\<lambda>u.
     run_or_handle s rq e c (ChangePassword e (userID u) current next) (\<lambda>_. noContent)))"

definition handleListSessions :: "server \<Rightarrow> http_request \<Rightarrow> handler" where
  "handleListSessions s rq e c = userFrom c (\<lambda>u. sessionFrom c (\<lambda>cur.
     run_or_handle s rq e c (ListSessions e (userID u)) (\<lambda>ss.
       writeJSON 200 (PSessions (map (\<lambda>x. (x, sessionID x = sessionID cur)) ss)))))"

definition handleRevokeSession :: "server \<Rightarrow> http_request \<Rightarrow> string \<Rightarrow> handler" where
  "handleRevokeSession s rq raw e c =
    (case uuid_Parse e raw of None \<Rightarrow> writeError 400 ''sessionID must be a UUID''
     | Some sid \<Rightarrow> userFrom c (\<lambda>u.
         run_or_handle s rq e c (RevokeSession e u sid) (\<lambda>_. noContent)))"

definition handleRequestPasswordReset ::
  "server \<Rightarrow> http_request \<Rightarrow> string option \<Rightarrow> handler" where
  "handleRequestPasswordReset s rq body e c =
    (case body of None \<Rightarrow> badJSON | Some email \<Rightarrow>
     then_op (attempt (RequestPasswordReset e email (requestMeta s e rq))) noContent)"

definition handleResetPassword ::
  "server \<Rightarrow> http_request \<Rightarrow> (string \<times> string) option \<Rightarrow> handler" where
  "handleResetPassword s rq body e c =
    (case body of None \<Rightarrow> badJSON | Some (token, newPassword) \<Rightarrow>
     if token = '''' then writeError 400 ''token is required''
     else run_or_handle s rq e c (ResetPassword e token newPassword) (\<lambda>_. noContent))"

definition handleVerifyEmail :: "server \<Rightarrow> http_request \<Rightarrow> string option \<Rightarrow> handler" where
  "handleVerifyEmail s rq body e c =
    (case body of None \<Rightarrow> badJSON | Some token \<Rightarrow>
     if token = '''' then writeError 400 ''token is required''
     else run_or_handle s rq e c (VerifyEmail e token) (\<lambda>u. writeJSON 200 (PUser u)))"

definition handleResendVerification :: "server \<Rightarrow> http_request \<Rightarrow> handler" where
  "handleResendVerification s rq e c = userFrom c (\<lambda>u.
     run_or_handle s rq e c (ResendVerification e u) (\<lambda>_. noContent))"

section \<open>Users and invitations\<close>

definition usersPageSize :: nat where "usersPageSize = 50"

definition pageBefore :: "env \<Rightarrow> string \<Rightarrow> uuid option" where
  "pageBefore e raw = (if raw = '''' then Some uuid_Nil else uuid_Parse e raw)"

definition handleListUsers :: "server \<Rightarrow> http_request \<Rightarrow> string \<Rightarrow> handler" where
  "handleListUsers s rq raw e c =
    (case pageBefore e raw of None \<Rightarrow> writeError 400 ''before must be a UUID''
     | Some before \<Rightarrow>
         run_or_handle s rq e c (ListUsers e before (int usersPageSize)) (\<lambda>us.
           writeJSON 200 (PUsers us
             (if length us = usersPageSize
              then uuid_String e (userID (summaryUser (last us))) else ''''))))"

definition handleSetUserActive :: "server \<Rightarrow> http_request \<Rightarrow> string \<Rightarrow> bool option \<Rightarrow> handler" where
  "handleSetUserActive s rq raw body e c =
    (case uuid_Parse e raw of None \<Rightarrow> writeError 400 ''userID must be a UUID''
     | Some target \<Rightarrow>
         (case body of None \<Rightarrow> badJSON | Some isActive \<Rightarrow> userFrom c (\<lambda>u.
          run_or_handle s rq e c (SetUserActive e u target isActive) (\<lambda>x.
            writeJSON 200 (PUser x)))))"

definition handleCreateInvitation ::
  "server \<Rightarrow> http_request \<Rightarrow> (string \<times> uuid) option \<Rightarrow> handler" where
  "handleCreateInvitation s rq body e c =
    (case body of None \<Rightarrow> badJSON | Some (email, rid) \<Rightarrow>
     if rid = uuid_Nil
     then writeError 400 ''role_id is required -- GET /roles to list the roles you can offer''
     else userFrom c (\<lambda>u. accessFrom c (\<lambda>access.
       run_or_handle s rq e c (Invite e u access email rid) (\<lambda>iv.
         writeJSON 201 (PInvitation iv)))))"

definition handleListInvitations :: "server \<Rightarrow> http_request \<Rightarrow> handler" where
  "handleListInvitations s rq e c =
    run_or_handle s rq e c (ListInvitations e) (\<lambda>is. writeJSON 200 (PInvitations is))"

definition handleRevokeInvitation :: "server \<Rightarrow> http_request \<Rightarrow> string \<Rightarrow> handler" where
  "handleRevokeInvitation s rq raw e c =
    (case uuid_Parse e raw of None \<Rightarrow> writeError 400 ''invitationID must be a UUID''
     | Some iid \<Rightarrow> userFrom c (\<lambda>u.
         run_or_handle s rq e c (RevokeInvitation e u iid) (\<lambda>_. noContent)))"

definition handleAcceptInvitation ::
  "server \<Rightarrow> http_request \<Rightarrow> (string \<times> string \<times> string \<times> string) option \<Rightarrow> handler" where
  "handleAcceptInvitation s rq body e c =
    (case body of None \<Rightarrow> badJSON | Some (token, password, fn, ln) \<Rightarrow>
     run_or_handle s rq e c (AcceptInvitation e token password fn ln) (\<lambda>u.
       writeJSON 201 (PUser u)))"

section \<open>The audit log\<close>

definition auditPageSize :: nat where "auditPageSize = 50"

text \<open>Go's zero time, the value \<open>IsZero\<close> looks for, in nanoseconds from the epoch.\<close>

definition zero_time :: time where "zero_time = - 62135596800 * second"

definition parse_bound :: "env \<Rightarrow> string \<Rightarrow> time option option" where
  "parse_bound e raw =
    (if raw = '''' then Some None
     else case time_Parse e raw of None \<Rightarrow> None
          | Some t \<Rightarrow> Some (if t = zero_time then None else Some t))"

definition parse_actor :: "env \<Rightarrow> string \<Rightarrow> uuid option option" where
  "parse_actor e raw = (if raw = '''' then Some None else map_option Some (uuid_Parse e raw))"

definition handleListAuditLog ::
  "server \<Rightarrow> http_request \<Rightarrow> string \<Rightarrow> string \<Rightarrow> string \<Rightarrow> string \<Rightarrow> string \<Rightarrow> handler" where
  "handleListAuditLog s rq action rawBefore rawActor rawFrom rawTo e c =
    (case pageBefore e rawBefore of None \<Rightarrow> writeError 400 ''before must be a UUID''
     | Some before \<Rightarrow>
    (case parse_actor e rawActor of None \<Rightarrow> writeError 400 ''actor must be a user UUID''
     | Some actor \<Rightarrow>
    (case parse_bound e rawFrom of None \<Rightarrow> writeError 400 ''from must be an RFC 3339 timestamp''
     | Some fromT \<Rightarrow>
    (case parse_bound e rawTo of None \<Rightarrow> writeError 400 ''to must be an RFC 3339 timestamp''
     | Some toT \<Rightarrow>
       run_or_handle s rq e c (ListEntries e \<lparr>fAction = action, fActor = actor, fFrom = fromT,
           fTo = toT, fBefore = before, fLimit = int auditPageSize\<rparr>) (\<lambda>entries.
         writeJSON 200 (PAudit entries
           (if length entries = auditPageSize then uuid_String e (entryID (last entries))
            else '''')))))))"

section \<open>Roles\<close>

definition handleListRoles :: "server \<Rightarrow> http_request \<Rightarrow> handler" where
  "handleListRoles s rq e c =
    run_or_handle s rq e c (ListRoles e) (\<lambda>rs. writeJSON 200 (PRoles rs))"

definition handleCreateRole ::
  "server \<Rightarrow> http_request \<Rightarrow> (string \<times> string \<times> permission list) option \<Rightarrow> handler" where
  "handleCreateRole s rq body e c =
    (case body of None \<Rightarrow> badJSON | Some (key, name, perms) \<Rightarrow>
     userFrom c (\<lambda>u. accessFrom c (\<lambda>access.
       run_or_handle s rq e c (CreateRole e u access key name perms) (\<lambda>r.
         writeJSON 201 (PRole r)))))"

definition handleUpdateRole ::
  "server \<Rightarrow> http_request \<Rightarrow> string \<Rightarrow> (string \<times> permission list) option \<Rightarrow> handler" where
  "handleUpdateRole s rq raw body e c =
    (case uuid_Parse e raw of None \<Rightarrow> writeError 400 ''roleID must be a UUID''
     | Some rid \<Rightarrow>
         (case body of None \<Rightarrow> badJSON | Some (name, perms) \<Rightarrow>
          userFrom c (\<lambda>u. accessFrom c (\<lambda>access.
            run_or_handle s rq e c (UpdateRole e u access rid name perms) (\<lambda>r.
              writeJSON 200 (PRole r))))))"

definition handleDeleteRole :: "server \<Rightarrow> http_request \<Rightarrow> string \<Rightarrow> handler" where
  "handleDeleteRole s rq raw e c =
    (case uuid_Parse e raw of None \<Rightarrow> writeError 400 ''roleID must be a UUID''
     | Some rid \<Rightarrow> userFrom c (\<lambda>u. accessFrom c (\<lambda>access.
         run_or_handle s rq e c (DeleteRole e u access rid) (\<lambda>_. noContent))))"

definition handleSetUserRoles ::
  "server \<Rightarrow> http_request \<Rightarrow> string \<Rightarrow> uuid list option \<Rightarrow> handler" where
  "handleSetUserRoles s rq raw body e c =
    (case uuid_Parse e raw of None \<Rightarrow> writeError 400 ''userID must be a UUID''
     | Some target \<Rightarrow>
         (case body of None \<Rightarrow> badJSON | Some rids \<Rightarrow>
          userFrom c (\<lambda>u. accessFrom c (\<lambda>access.
            run_or_handle s rq e c (SetUserRoles e u access target rids) (\<lambda>_. noContent)))))"

section \<open>API keys\<close>

definition handleListAPIKeys :: "server \<Rightarrow> http_request \<Rightarrow> handler" where
  "handleListAPIKeys s rq e c =
    run_or_handle s rq e c (ListAPIKeys e) (\<lambda>ks. writeJSON 200 (PKeys ks))"

definition handleCreateAPIKey ::
  "server \<Rightarrow> http_request \<Rightarrow> (string \<times> permission list \<times> time option) option \<Rightarrow> handler" where
  "handleCreateAPIKey s rq body e c =
    (case body of None \<Rightarrow> badJSON | Some (name, perms, expiresAt) \<Rightarrow>
     userFrom c (\<lambda>u. accessFrom c (\<lambda>access.
       run_or_handle s rq e c (CreateAPIKey e u access name perms expiresAt) (\<lambda>(k, token).
         writeJSON 201 (PKeyToken k token)))))"

definition handleRevokeAPIKey :: "server \<Rightarrow> http_request \<Rightarrow> string \<Rightarrow> handler" where
  "handleRevokeAPIKey s rq raw e c =
    (case uuid_Parse e raw of None \<Rightarrow> writeError 400 ''keyID must be a UUID''
     | Some kid \<Rightarrow> userFrom c (\<lambda>u. 
         run_or_handle s rq e c (RevokeAPIKey e u kid) (\<lambda>_. noContent)))"

section \<open>Probes and routes\<close>

definition handleReady :: "handler" where
  "handleReady e c =
    bind_op (attempt (select e [] (\<lambda>_. ()))) (\<lambda>r.
    case r of Inl _ \<Rightarrow> writeError 503 ''database unavailable''
            | Inr _ \<Rightarrow> writeJSON 200 (PStatus ''ready''))"

abbreviation handleHealth :: handler where
  "handleHealth \<equiv> \<lambda>e c. writeJSON 200 (PStatus ''ok'')"

abbreviation handleListPermissions :: handler where
  "handleListPermissions \<equiv> \<lambda>e c. writeJSON 200 (PPermissions Catalog)"

text \<open>The group of routes for a human session, and the permission-gated group.\<close>

definition account :: "server \<Rightarrow> http_request \<Rightarrow> handler \<Rightarrow> handler" where
  "account s rq h = requireAuth s rq (sessionOnly h)"

definition gated :: "server \<Rightarrow> http_request \<Rightarrow> permission \<Rightarrow> handler \<Rightarrow> handler" where
  "gated s rq p h = requireAuth s rq (requireAccess s rq (requirePermission s rq p h))"

definition dispatch :: "server \<Rightarrow> http_request \<Rightarrow> handler" where
  "dispatch s rq =
    (case rq_route rq of
       Healthz \<Rightarrow> handleHealth
     | Readyz \<Rightarrow> handleReady
     | PostRegister b \<Rightarrow> limit_ip_email s rq ''register'' (handleRegister s rq b)
     | PostLogin b \<Rightarrow> limit_ip_email s rq ''login'' (handleLogin s rq b)
     | PostReset b \<Rightarrow> limit_ip_email s rq ''reset'' (handleRequestPasswordReset s rq b)
     | PostResetConfirm b \<Rightarrow> limit_ip s rq ''reset-confirm'' (handleResetPassword s rq b)
     | PostVerify b \<Rightarrow> limit_ip s rq ''verify'' (handleVerifyEmail s rq b)
     | PostAccept b \<Rightarrow> limit_ip s rq ''invitation-accept'' (handleAcceptInvitation s rq b)
     | GetPermissions \<Rightarrow> handleListPermissions
     | PostLogout \<Rightarrow> account s rq (handleLogout s rq)
     | GetMe \<Rightarrow> account s rq handleMe
     | PostPassword b \<Rightarrow> account s rq (handleChangePassword s rq b)
     | GetSessions \<Rightarrow> account s rq (handleListSessions s rq)
     | DeleteSession sid \<Rightarrow> account s rq (handleRevokeSession s rq sid)
     | PostResend \<Rightarrow>
         account s rq (limit_ip s rq ''verify-resend'' (handleResendVerification s rq))
     | GetUsers before \<Rightarrow> gated s rq PermUsersRead (handleListUsers s rq before)
     | PutUserRoles uid b \<Rightarrow> gated s rq PermUsersUpdate (handleSetUserRoles s rq uid b)
     | PatchUser uid b \<Rightarrow> gated s rq PermUsersUpdate (handleSetUserActive s rq uid b)
     | GetInvitations \<Rightarrow> gated s rq PermInvitationsRead (handleListInvitations s rq)
     | PostInvitation b \<Rightarrow> gated s rq PermInvitationsCreate (handleCreateInvitation s rq b)
     | DeleteInvitation iid \<Rightarrow> gated s rq PermInvitationsDelete (handleRevokeInvitation s rq iid)
     | GetRoles \<Rightarrow> gated s rq PermRolesRead (handleListRoles s rq)
     | PostRole b \<Rightarrow> gated s rq PermRolesCreate (handleCreateRole s rq b)
     | PutRole rid b \<Rightarrow> gated s rq PermRolesUpdate (handleUpdateRole s rq rid b)
     | DeleteRoleByID rid \<Rightarrow> gated s rq PermRolesDelete (handleDeleteRole s rq rid)
     | GetAudit action before actor fromT toT \<Rightarrow>
         gated s rq PermAuditRead (handleListAuditLog s rq action before actor fromT toT)
     | GetAPIKeys \<Rightarrow> gated s rq PermAPIKeysRead (handleListAPIKeys s rq)
     | PostAPIKey b \<Rightarrow> gated s rq PermAPIKeysCreate (handleCreateAPIKey s rq b)
     | DeleteAPIKey kid \<Rightarrow> gated s rq PermAPIKeysDelete (handleRevokeAPIKey s rq kid))"

text \<open>The whole chain: the headers, CORS, the audit metadata, the route.\<close>

definition serve :: "server \<Rightarrow> env \<Rightarrow> http_request \<Rightarrow> response op" where
  "serve s e rq =
    securityHeaders (cors s rq (withAuditMeta s rq (dispatch s rq) e no_ctx))"

end
