(* ===== verification/Http_Laws.thy ===== *)
theory Http_Laws
  imports Handlers
begin

text \<open>
  The laws of \<open>Laws\<close> for whole requests: whatever a client sends, the server obeys
  \<open>lawful\<close>; and a request that is not authenticated as one of the users in \<open>T\<close> keeps
  every permission confined to \<open>T\<close>. The runs of the server are the reachability relation
  \<open>http_run\<close>.
\<close>

section \<open>Responses and errors\<close>

context db_relation begin

lemma obeys_responses [obeys_intros]:
  "obeys R (writeJSON code v)" "obeys R (writeError code msg)" "obeys R noContent"
  "obeys R panic" "obeys R badJSON"
  unfolding writeJSON_def writeError_def noContent_def panic_def badJSON_def
  by (intro obeys_intros)+

lemma obeys_with_header [obeys_intros]: "obeys R m \<Longrightarrow> obeys R (with_header h m)"
  unfolding with_header_def by (intro obeys_intros)

lemma obeys_securityHeaders [obeys_intros]: "obeys R m \<Longrightarrow> obeys R (securityHeaders m)"
  unfolding securityHeaders_def by (intro obeys_intros)

lemma obeys_cors [obeys_intros]: "obeys R m \<Longrightarrow> obeys R (cors s rq m)"
  unfolding cors_def Let_def by (intro obeys_intros)

lemma obeys_contexts [obeys_intros]:
  "(\<And>u. ctx_user c = Some u \<Longrightarrow> obeys R (k1 u)) \<Longrightarrow> obeys R (userFrom c k1)"
  "(\<And>x. ctx_session c = Some x \<Longrightarrow> obeys R (k2 x)) \<Longrightarrow> obeys R (sessionFrom c k2)"
  "(\<And>a. ctx_access c = Some a \<Longrightarrow> obeys R (k3 a)) \<Longrightarrow> obeys R (accessFrom c k3)"
  unfolding userFrom_def sessionFrom_def accessFrom_def by (intro obeys_intros; simp)+

lemma obeys_rateLimit [obeys_intros]:
  assumes "obeys R (next e c)" "obeys R (handle s rq e c ErrRateLimited)"
  shows "obeys R (rateLimit s rq keys next e c)"
  unfolding obeys_def
proof (intro allI impI)
  fix w r w'
  assume run: "rateLimit s rq keys next e c w = (r, w')"
  show "R (db w) (db w')"
  proof (cases "limits w")
    case None
    with run have "next e c w = (r, w')" by (simp add: rateLimit_def)
    with assms(1) show ?thesis by (rule obeysD)
  next
    case (Some l)
    obtain x l' where check: "check_keys (go_now e) (rq_clock2 rq) keys l = (x, l')"
      by fastforce
    let ?w = "w\<lparr>limits := Some l'\<rparr>"
    have "R (db ?w) (db w')"
    proof (cases x)
      case None
      with run Some check have "next e c ?w = (r, w')" by (simp add: rateLimit_def)
      with assms(1) show ?thesis by (rule obeysD)
    next
      case (Some wait)
      with run check \<open>limits w = Some l\<close>
      have "with_header (''Retry-After'', retry_after wait) (handle s rq e c ErrRateLimited) ?w
          = (r, w')"
        by (simp add: rateLimit_def)
      with obeys_with_header [OF assms(2)] show ?thesis by (rule obeysD)
    qed
    then show ?thesis by simp
  qed
qed

end

lemma keeps_handle [obeys_intros]: "obeys (keeps p T) (handle s rq e c err)"
  unfolding handle_def auditDenial_def by (intro obeys_intros)

lemmas lawful_handle [obeys_intros] = keeps_handle [THEN keeps_lawful]

lemma obeys_run_or_handle [obeys_intros]:
  "obeys (keeps p T) m \<Longrightarrow> (\<And>a. obeys (keeps p T) (k a)) \<Longrightarrow>
     obeys (keeps p T) (run_or_handle s rq e c m k)"
  "obeys lawful m' \<Longrightarrow> (\<And>a. obeys lawful (k' a)) \<Longrightarrow>
     obeys lawful (run_or_handle s rq e c m' k')"
  unfolding run_or_handle_def by (intro obeys_intros; assumption)+


section \<open>Handlers\<close>

lemmas plain_handler_defs = handleRegister_def handleLogin_def handleLogout_def handleMe_def
  handleChangePassword_def handleListSessions_def handleRevokeSession_def
  handleRequestPasswordReset_def handleResetPassword_def handleVerifyEmail_def
  handleResendVerification_def handleListUsers_def handleSetUserActive_def
  handleListInvitations_def handleRevokeInvitation_def handleAcceptInvitation_def
  handleListAuditLog_def handleListRoles_def handleDeleteRole_def handleListAPIKeys_def
  handleRevokeAPIKey_def handleReady_def

lemma keeps_account_handlers [obeys_intros]:
  "obeys (keeps p T) (handleRegister s rq b1 e c)"
  "obeys (keeps p T) (handleLogin s rq b2 e c)"
  "obeys (keeps p T) (handleLogout s rq e c)"
  "obeys (keeps p T) (handleMe e c)"
  "obeys (keeps p T) (handleChangePassword s rq b2 e c)"
  "obeys (keeps p T) (handleListSessions s rq e c)"
  "obeys (keeps p T) (handleRevokeSession s rq raw e c)"
  "obeys (keeps p T) (handleRequestPasswordReset s rq b3 e c)"
  "obeys (keeps p T) (handleResetPassword s rq b2 e c)"
  "obeys (keeps p T) (handleVerifyEmail s rq b3 e c)"
  "obeys (keeps p T) (handleResendVerification s rq e c)"
  "obeys (keeps p T) (handleAcceptInvitation s rq b1 e c)"
  "obeys (keeps p T) (handleReady e c)"
  unfolding plain_handler_defs by (intro obeys_intros)+

lemma keeps_read_handlers [obeys_intros]:
  "obeys (keeps p T) (handleListUsers s rq raw e c)"
  "obeys (keeps p T) (handleListInvitations s rq e c)"
  "obeys (keeps p T) (handleListRoles s rq e c)"
  "obeys (keeps p T) (handleListAPIKeys s rq e c)"
  "obeys (keeps p T) (handleListAuditLog s rq action before actor from_t to_t e c)"
  unfolding plain_handler_defs by (intro obeys_intros)+

lemma keeps_revoking_handlers [obeys_intros]:
  "obeys (keeps p T) (handleSetUserActive s rq raw b4 e c)"
  "obeys (keeps p T) (handleRevokeInvitation s rq raw e c)"
  "obeys (keeps p T) (handleDeleteRole s rq raw e c)"
  "obeys (keeps p T) (handleRevokeAPIKey s rq raw e c)"
  unfolding plain_handler_defs by (intro obeys_intros)+

text \<open>The handlers that hand out permissions are safe for a caller who lacks \<open>p\<close>.\<close>

lemma keeps_granting_handlers:
  assumes "\<forall>a. ctx_access c = Some a \<longrightarrow> p \<notin> Permissions a"
  shows "obeys (keeps p T) (handleCreateRole s rq b5 e c)"
    "obeys (keeps p T) (handleUpdateRole s rq raw b6 e c)"
    "obeys (keeps p T) (handleSetUserRoles s rq raw b7 e c)"
    "obeys (keeps p T) (handleCreateInvitation s rq b8 e c)"
    "obeys (keeps p T) (handleCreateAPIKey s rq b9 e c)"
proof -
  note grants = keeps_role_edits keeps_SetUserRoles keeps_Invite keeps_CreateAPIKey
  show "obeys (keeps p T) (handleCreateRole s rq b5 e c)"
    unfolding handleCreateRole_def by (intro obeys_intros grants) (use assms in auto)
  show "obeys (keeps p T) (handleUpdateRole s rq raw b6 e c)"
    unfolding handleUpdateRole_def by (intro obeys_intros grants) (use assms in auto)
  show "obeys (keeps p T) (handleSetUserRoles s rq raw b7 e c)"
    unfolding handleSetUserRoles_def by (intro obeys_intros grants) (use assms in auto)
  show "obeys (keeps p T) (handleCreateInvitation s rq b8 e c)"
    unfolding handleCreateInvitation_def by (intro obeys_intros grants) (use assms in auto)
  show "obeys (keeps p T) (handleCreateAPIKey s rq b9 e c)"
    unfolding handleCreateAPIKey_def by (intro obeys_intros grants) (use assms in auto)
qed

lemma lawful_granting_handlers [obeys_intros]:
  "obeys lawful (handleCreateRole s rq b5 e c)"
  "obeys lawful (handleUpdateRole s rq raw b6 e c)"
  "obeys lawful (handleSetUserRoles s rq raw b7 e c)"
  "obeys lawful (handleCreateInvitation s rq b8 e c)"
  "obeys lawful (handleCreateAPIKey s rq b9 e c)"
  unfolding handleCreateRole_def handleUpdateRole_def handleSetUserRoles_def
    handleCreateInvitation_def handleCreateAPIKey_def
  by (intro obeys_intros)+

lemmas lawful_plain_handlers [obeys_intros] = keeps_account_handlers [THEN keeps_lawful]
  keeps_read_handlers [THEN keeps_lawful] keeps_revoking_handlers [THEN keeps_lawful]


section \<open>Middleware\<close>

lemma lawful_middleware [obeys_intros]:
  assumes "\<And>e c. obeys lawful (next e c)"
  shows "obeys lawful (requireAuth s rq next e c)" "obeys lawful (sessionOnly next e c)"
    "obeys lawful (requireAccess s rq next e c)" "obeys lawful (requirePermission s rq q next e c)"
    "obeys lawful (withAuditMeta s rq next e c)" "obeys lawful (limit_ip s rq pre next e c)"
    "obeys lawful (limit_ip_email s rq pre next e c)"
proof -
  show "obeys lawful (requireAuth s rq next e c)"
    unfolding requireAuth_def Let_def by (intro obeys_intros assms)
  show "obeys lawful (sessionOnly next e c)"
    unfolding sessionOnly_def by (intro obeys_intros assms)
  show "obeys lawful (requireAccess s rq next e c)"
    unfolding requireAccess_def by (intro obeys_intros assms)
  show "obeys lawful (requirePermission s rq q next e c)"
    unfolding requirePermission_def by (intro obeys_intros assms)
  show "obeys lawful (withAuditMeta s rq next e c)"
    unfolding withAuditMeta_def by (intro obeys_intros assms)
  show "obeys lawful (limit_ip s rq pre next e c)"
    "obeys lawful (limit_ip_email s rq pre next e c)"
    unfolding limit_ip_def limit_ip_email_def by (intro obeys_intros assms)+
qed

lemma lawful_serve [obeys_intros]: "obeys lawful (serve s e rq)"
proof -
  have "obeys lawful (dispatch s rq e c)" for e c
    unfolding dispatch_def account_def gated_def
    by (cases "rq_route rq") (simp, intro obeys_intros)+
  then show ?thesis unfolding serve_def by (intro obeys_intros)
qed

text \<open>The user a request acts for, when its token is good.\<close>

definition authenticated :: "env \<Rightarrow> http_request \<Rightarrow> world \<Rightarrow> user option" where
  "authenticated e rq w =
    (let token = bearerToken e rq in
     if token = '''' then None
     else if HasPrefix token APIKeyTokenPrefix
     then (case AuthenticateAPIKey e token w of (Inr (_, u), _) \<Rightarrow> Some u | _ \<Rightarrow> None)
     else (case Authenticate e token w of (Inr (u, _), _) \<Rightarrow> Some u | _ \<Rightarrow> None))"

definition outsider :: "permission \<Rightarrow> uuid set \<Rightarrow> ctx \<Rightarrow> bool" where
  "outsider p T c \<longleftrightarrow>
     (\<forall>u. ctx_user c = Some u \<longrightarrow> userID u \<notin> T \<and> \<not> IsSuperuser u)
   \<and> (\<forall>k. ctx_key c = Some k \<longrightarrow> p \<notin> keyPermissions k)"

definition lacks :: "permission \<Rightarrow> ctx \<Rightarrow> bool" where
  "lacks p c \<longleftrightarrow> (\<forall>a. ctx_access c = Some a \<longrightarrow> p \<notin> Permissions a)"

lemma requireAccess_keeps:
  assumes "outsider p T c" "\<And>e c. obeys lawful (next e c)"
    and "\<And>e c. lacks p c \<Longrightarrow> obeys (keeps p T) (next e c)"
  shows "obeys (keeps p T) (requireAccess s rq next e c)"
proof (cases "ctx_key c")
  case (Some k)
  with assms(1) have "lacks p (c\<lparr>ctx_access := Some \<lparr>Roles = [],
      Permissions = keyPermissions k, ViaSuperuser = False, ViaAPIKey = True\<rparr>\<rparr>)"
    by (simp add: outsider_def lacks_def)
  with Some assms(3) show ?thesis by (simp add: requireAccess_def)
next
  case None
  show ?thesis unfolding requireAccess_def None option.case
  proof (intro keep.obeys_contexts(1))
    fix u assume u: "ctx_user c = Some u"
    let ?k = "\<lambda>r. case r of Inl err \<Rightarrow> handle s rq e c err
      | Inr access \<Rightarrow> next e (c\<lparr>ctx_access := Some access\<rparr>)"
    have law: "obeys lawful (bind_op (attempt (Authorize e u)) ?k)"
      by (intro obeys_intros assms(2))
    show "obeys (keeps p T) (run_or_handle s rq e c (Authorize e u)
        (\<lambda>access. next e (c\<lparr>ctx_access := Some access\<rparr>)))"
      unfolding run_or_handle_def
    proof (rule keeps_bind_post [OF _ law, where
          post = "\<lambda>r. \<forall>a. r = Inr a \<longrightarrow> p \<notin> Permissions a"])
      show "obeys (keeps p T) (attempt (Authorize e u))" by (intro obeys_intros)
      show "\<forall>a. x = Inr a \<longrightarrow> p \<notin> Permissions a"
        if "attempt (Authorize e u) w = (Inr x, w1)" "keys_ok (db w)" "confined p T (db w)"
        for x w w1
        using that assms(1) u
        by (auto simp: attempt_iff outsider_def dest: Authorize_confined)
      show "obeys (keeps p T) (?k x)" if "\<forall>a. x = Inr a \<longrightarrow> p \<notin> Permissions a" for x
        using that by (intro obeys_intros assms(3)) (simp add: lacks_def)
    qed
  qed
qed

text \<open>A call whose outcome in this world is known.\<close>

lemma keeps_run_or_handle:
  assumes "run_or_handle s rq e c m k w = (r, w')" "obeys (keeps p T) m"
    and "\<And>a w1. m w = (Inr a, w1) \<Longrightarrow> obeys (keeps p T) (k a)"
  shows "keeps p T (db w) (db w')"
proof (cases "m w")
  case (Pair x w1)
  with assms(2) have first: "keeps p T (db w) (db w1)" by (rule obeysD)
  have "keeps p T (db w1) (db w')"
  proof (cases x)
    case (Inl err)
    with assms(1) Pair have "handle s rq e c err w1 = (r, w')"
      by (simp add: run_or_handle_def bind_op_def attempt_def)
    then show ?thesis by (rule obeysD [OF keeps_handle])
  next
    case (Inr a)
    with assms(1) Pair have "k a w1 = (r, w')"
      by (simp add: run_or_handle_def bind_op_def attempt_def)
    with assms(3) Pair Inr show ?thesis by (blast dest: obeysD)
  qed
  with first show ?thesis by (rule keep.rel_trans)
qed

lemma requireAuth_keeps:
  assumes run: "requireAuth s rq next e c w = (r, w')"
    and no_key: "ctx_key c = None" and law: "\<And>e c. obeys lawful (next e c)"
    and untrusted: "\<forall>u. authenticated e rq w = Some u \<longrightarrow> userID u \<notin> T"
    and safe: "\<And>e c. outsider p T c \<Longrightarrow> obeys (keeps p T) (next e c)"
  shows "keeps p T (db w) (db w')"
proof (cases "keys_ok (db w) \<and> confined p T (db w)")
  case False
  have "lawful (db w) (db w')" using run lawful_middleware(1) [OF law] by (rule_tac obeysD)
  with False show ?thesis by (auto simp: keeps_def)
next
  case True
  let ?t = "bearerToken e rq"
  consider "?t = ''''" | "?t \<noteq> ''''" "HasPrefix ?t APIKeyTokenPrefix"
    | "?t \<noteq> ''''" "\<not> HasPrefix ?t APIKeyTokenPrefix" by blast
  then show ?thesis
  proof cases
    case 1
    with run have "handle s rq e c ErrUnauthenticated w = (r, w')"
      by (simp add: requireAuth_def)
    then show ?thesis by (rule obeysD [OF keeps_handle])
  next
    case 2
    with run show ?thesis unfolding requireAuth_def Let_def
    proof (simp, elim keeps_run_or_handle, intro obeys_intros, clarify, intro safe)
      fix k u w1
      assume auth: "AuthenticateAPIKey e ?t w = (Inr (k, u), w1)"
      with 2 untrusted have u: "userID u \<notin> T" by (simp add: authenticated_def Let_def)
      have "\<not> IsSuperuser u"
        using True u confinedD(1) [of p T "db w"]
        by (rule_tac AuthenticateAPIKey_Inr [OF _ auth]) (auto simp: superusers_def)
      moreover have "p \<notin> keyPermissions k"
        using True u auth by (intro AuthenticateAPIKey_confined) auto
      ultimately show "outsider p T (c\<lparr>ctx_user := Some u, ctx_session := Some zero_session,
          ctx_key := Some k\<rparr>)" using u by (simp add: outsider_def)
    qed
  next
    case 3
    with run show ?thesis unfolding requireAuth_def Let_def
    proof (simp, elim keeps_run_or_handle, intro obeys_intros, clarify, intro safe)
      fix u sess w1
      assume auth: "Authenticate e ?t w = (Inr (u, sess), w1)"
      with 3 untrusted have u: "userID u \<notin> T" by (simp add: authenticated_def Let_def)
      with True auth have "\<not> IsSuperuser u" by (intro Authenticate_confined) auto
      with u no_key show "outsider p T (c\<lparr>ctx_user := Some u, ctx_session := Some sess\<rparr>)"
        by (simp add: outsider_def)
    qed
  qed
qed

text \<open>The audit metadata of a request plays no part in authenticating it.\<close>

lemma meta_statements:
  "query (e\<lparr>req_meta := m\<rparr>) ts st onerr = query e ts st onerr"
  "select (e\<lparr>req_meta := m\<rparr>) ts f = select e ts f"
  "exec (e\<lparr>req_meta := m\<rparr>) ts g = exec e ts g"
  "HashToken (e\<lparr>req_meta := m\<rparr>) token = HashToken e token"
  "touch_due (e\<lparr>req_meta := m\<rparr>) = touch_due e"
  "live_session (e\<lparr>req_meta := m\<rparr>) digest = live_session e digest"
  "live_key (e\<lparr>req_meta := m\<rparr>) digest = live_key e digest"
  by (simp_all add: query_def select_def exec_def HashToken_def touch_due_def live_session_def
      live_key_def fun_eq_iff cong: option.case_cong if_cong)

lemma meta_auth_statements:
  "auth_session (e\<lparr>req_meta := m\<rparr>) digest = auth_session e digest"
  "auth_key (e\<lparr>req_meta := m\<rparr>) digest = auth_key e digest"
  "bearerToken (e\<lparr>req_meta := m\<rparr>) rq = bearerToken e rq"
  by (simp_all add: auth_session_def auth_key_def bearerToken_def meta_statements TrimSpace_def
      fun_eq_iff cong: option.case_cong if_cong prod.case_cong)

lemma meta_authenticate:
  "Authenticate (e\<lparr>req_meta := m\<rparr>) token = Authenticate e token"
  "AuthenticateAPIKey (e\<lparr>req_meta := m\<rparr>) token = AuthenticateAPIKey e token"
  unfolding Authenticate_def AuthenticateSession_def AuthenticateAPIKey_def GetUserByID_def
    repo_AuthenticateAPIKey_def loadAPIKeyPermissions_def meta_statements meta_auth_statements
  by (rule refl)+

lemma authenticated_meta: "authenticated (e\<lparr>req_meta := m\<rparr>) rq w = authenticated e rq w"
  unfolding authenticated_def meta_authenticate meta_auth_statements by (rule refl)


section \<open>Whole requests\<close>

lemma keeps_middleware [obeys_intros]:
  assumes "\<And>e c. obeys (keeps p T) (next e c)"
  shows "obeys (keeps p T) (sessionOnly next e c)"
    "obeys (keeps p T) (requirePermission s rq q next e c)"
    "obeys (keeps p T) (limit_ip s rq pre next e c)"
    "obeys (keeps p T) (limit_ip_email s rq pre next e c)"
  unfolding sessionOnly_def requirePermission_def limit_ip_def limit_ip_email_def
  by (intro obeys_intros assms)+

lemma serve_result:
  assumes "serve s e rq w = (r, w')"
  obtains "w' = w"
  | r0 m where "dispatch s rq (e\<lparr>req_meta := m\<rparr>) no_ctx w = (r0, w')"
proof -
  let ?e = "e\<lparr>req_meta := \<lparr>RequestID = rq_id rq, metaIPAddress = clientIP s e rq,
        metaUserAgent = rq_header rq ''User-Agent'', APIKeyID = None\<rparr>\<rparr>"
  have bind: "\<exists>x. m w = (x, w')" if "bind_op m (\<lambda>r. return_op (f r)) w = (y, w')" for m f y
  proof (cases "m w")
    case (Pair x w1)
    with that show ?thesis by (cases x) (simp_all add: bind_op_def)
  qed
  let ?next = "dispatch s rq ?e no_ctx"
  from assms have "\<exists>x. cors s rq ?next w = (x, w')"
    unfolding serve_def securityHeaders_def withAuditMeta_def by (rule bind)
  then obtain x where x: "cors s rq ?next w = (x, w')" ..
  have "\<exists>h. cors s rq ?next = ?next \<or> cors s rq ?next = return_op h
      \<or> (\<exists>f. cors s rq ?next = bind_op ?next (\<lambda>r. return_op (f r)))"
    unfolding cors_def Let_def by (auto split: if_splits)
  then consider "?next w = (x, w')" | h where "return_op h w = (x, w')"
    | f where "bind_op ?next (\<lambda>r. return_op (f r)) w = (x, w')"
    using x by metis
  then show ?thesis
  proof cases
    case 1
    then show ?thesis by (rule that(2))
  next
    case (2 h)
    then show ?thesis by (intro that(1)) simp
  next
    case (3 f)
    then show ?thesis using bind that(2) by blast
  qed
qed

lemma keeps_account_group:
  assumes "account s rq h e c w = (r, w')" "ctx_key c = None"
    and "\<forall>u. authenticated e rq w = Some u \<longrightarrow> userID u \<notin> T"
    and "\<And>e c. obeys (keeps p T) (h e c)"
  shows "keeps p T (db w) (db w')"
  using assms(1) [unfolded account_def] assms(2)
proof (rule requireAuth_keeps)
  show "obeys lawful (sessionOnly h e c)" for e c
    by (intro obeys_intros assms(4) [THEN keeps_lawful])
  show "obeys (keeps p T) (sessionOnly h e c)" for e c
    by (intro obeys_intros assms(4))
qed (rule assms(3))

lemma keeps_gated_group:
  assumes "gated s rq q h e c w = (r, w')" "ctx_key c = None"
    and "\<forall>u. authenticated e rq w = Some u \<longrightarrow> userID u \<notin> T"
    and "\<And>e c. obeys lawful (h e c)" "\<And>e c. lacks p c \<Longrightarrow> obeys (keeps p T) (h e c)"
  shows "keeps p T (db w) (db w')"
  using assms(1) [unfolded gated_def] assms(2)
proof (rule requireAuth_keeps)
  show "obeys lawful (requireAccess s rq (requirePermission s rq q h) e c)" for e c
    by (intro obeys_intros assms(4))
  show "obeys (keeps p T) (requireAccess s rq (requirePermission s rq q h) e c)"
    if "outsider p T c" for e c
    using that
  proof (rule requireAccess_keeps)
    show "obeys lawful (requirePermission s rq q h e c)" for e c
      by (intro obeys_intros assms(4))
    show "obeys (keeps p T) (requirePermission s rq q h e c)" if "lacks p c" for e c
      unfolding requirePermission_def by (intro obeys_intros assms(5) that)
  qed
qed (rule assms(3))

lemma serve_keeps:
  assumes "serve s e rq w = (r, w')"
    and "\<forall>u. authenticated e rq w = Some u \<longrightarrow> userID u \<notin> T"
  shows "keeps p T (db w) (db w')"
  using assms(1)
proof (cases rule: serve_result)
  case 1
  then show ?thesis by (simp add: keep.rel_refl)
next
  case (2 r0 m)
  let ?e = "e\<lparr>req_meta := m\<rparr>"
  have u: "\<forall>u. authenticated ?e rq w = Some u \<longrightarrow> userID u \<notin> T"
    using assms(2) by (simp add: authenticated_meta)
  have key: "ctx_key no_ctx = None" by (simp add: no_ctx_def)
  have direct: "h ?e no_ctx w = (r0, w') \<Longrightarrow> obeys (keeps p T) (h ?e no_ctx) \<Longrightarrow> ?thesis" for h
    by (erule obeysD [rotated])
  note account = keeps_account_group [OF _ key u]
  have plain: "gated s rq q h ?e no_ctx w = (r0, w') \<Longrightarrow> (\<And>e c. obeys (keeps p T) (h e c)) \<Longrightarrow> ?thesis"
    for q h
    by (erule keeps_gated_group [OF _ key u]) (blast intro: keeps_lawful)+
  note granting = keeps_gated_group [OF _ key u _ keeps_granting_handlers(1) [OF iffD1 [OF lacks_def]]]
    keeps_gated_group [OF _ key u _ keeps_granting_handlers(2) [OF iffD1 [OF lacks_def]]]
    keeps_gated_group [OF _ key u _ keeps_granting_handlers(3) [OF iffD1 [OF lacks_def]]]
    keeps_gated_group [OF _ key u _ keeps_granting_handlers(4) [OF iffD1 [OF lacks_def]]]
    keeps_gated_group [OF _ key u _ keeps_granting_handlers(5) [OF iffD1 [OF lacks_def]]]
  note run = 2 [unfolded dispatch_def]
  show ?thesis using run
  proof (cases "rq_route rq")
    case (PutUserRoles uid b)
    with run show ?thesis by (simp, elim granting) (intro obeys_intros)+
  next
    case (PostInvitation b)
    with run show ?thesis by (simp, elim granting) (intro obeys_intros)+
  next
    case (PostRole b)
    with run show ?thesis by (simp, elim granting) (intro obeys_intros)+
  next
    case (PutRole rid b)
    with run show ?thesis by (simp, elim granting) (intro obeys_intros)+
  next
    case (PostAPIKey b)
    with run show ?thesis by (simp, elim granting) (intro obeys_intros)+
  qed (simp, (erule account | erule plain | erule direct), intro obeys_intros)+
qed

end
