(* ===== verification/Commands.thy ===== *)
theory Commands
  imports Handlers
begin

text \<open>
  \<open>cmd/server/main.go\<close>: the subcommands, the start of the server and one tick of the
  reaper; with \<open>NewPool\<close> and \<open>Migrate\<close> of \<open>internal/database\<close> and \<open>New\<close> of
  \<open>internal/server\<close>, which they call. The packages underneath (the environment parser,
  pgxpool, database/sql and goose) are the fields of \<open>outside\<close>.
\<close>

definition sessionRetention :: duration where "sessionRetention = 720 * hour"

section \<open>What the process finds outside\<close>

record pool_config =
  poolDSN :: string
  poolMaxConns :: int
  poolMinConns :: int
  poolMaxConnLifetime :: duration
  poolMaxConnIdleTime :: duration

datatype goose_command = GooseUp | GooseDown | GooseStatus | GooseReset

datatype pool_error = ParseConfigFailed | CreatePoolFailed | PingFailed

datatype migrate_error =
    OpenFailed | MigrationPingFailed | SetDialectFailed | GooseFailed | UnknownDirection string

datatype cli_error =
    Usage string | BadSettings settings_error | NoPool pool_error | ServiceError error
  | NoSuch string | PurgeFailed error | MigrateFailed migrate_error | ListenFailed | ShutdownFailed

record outside =
  parsed_environment :: "string + settings"     \<comment> \<open>\<open>env.Parse\<close> and \<open>godotenv.Load\<close>\<close>
  ParseConfig :: "string \<Rightarrow> bool"                \<comment> \<open>pgxpool: the DSN parses\<close>
  NewWithConfig :: "pool_config \<Rightarrow> bool"
  Ping :: bool
  sql_Open :: "string \<Rightarrow> bool"                   \<comment> \<open>database/sql\<close>
  sql_Ping :: bool
  SetDialect :: bool                            \<comment> \<open>goose\<close>
  goose :: "goose_command \<Rightarrow> world \<Rightarrow> bool \<times> world"
  cli_text :: "cli_error \<Rightarrow> string"              \<comment> \<open>\<open>err.Error()\<close>\<close>
  service_text :: "error \<Rightarrow> string"

type_synonym 'a command = "world \<Rightarrow> (cli_error + 'a) \<times> world"

definition NewPool :: "outside \<Rightarrow> postgres_settings \<Rightarrow> pool_error + pool_config" where
  "NewPool x cfg =
    (if \<not> ParseConfig x (DSN cfg) then Inl ParseConfigFailed
     else
       let poolCfg = \<lparr>poolDSN = DSN cfg, poolMaxConns = MaxConns cfg, poolMinConns = MinConns cfg,
             poolMaxConnLifetime = MaxConnLifetime cfg, poolMaxConnIdleTime = MaxConnIdleTime cfg\<rparr> in
       if \<not> NewWithConfig x poolCfg then Inl CreatePoolFailed
       else if \<not> Ping x then Inl PingFailed
       else Inr poolCfg)"

text \<open>\<open>identity.NewService\<close>: the settings and the mailer the service keeps.\<close>

definition NewService :: "env \<Rightarrow> settings \<Rightarrow> mailer \<Rightarrow> env" where
  "NewService e s m = e\<lparr>auth_cfg := Auth s, mail_cfg := Mail s, the_mailer := m\<rparr>"

text \<open>The beginning of every command that talks to the database.\<close>

definition with_pool :: "outside \<Rightarrow> (settings \<Rightarrow> 'a command) \<Rightarrow> 'a command" where
  "with_pool x k w =
    (case Load (parsed_environment x) of
       Inl err \<Rightarrow> (Inl (BadSettings err), w)
     | Inr s \<Rightarrow>
         (case NewPool x (Postgres s) of
            Inl err \<Rightarrow> (Inl (NoPool err), w)
          | Inr _ \<Rightarrow> k s w))"

section \<open>The subcommands\<close>

text \<open>The commands return the line they print.\<close>

definition runSetSuperuser :: "outside \<Rightarrow> env \<Rightarrow> string list \<Rightarrow> bool \<Rightarrow> string command" where
  "runSetSuperuser x e args grant w =
    (case args of
       [email] \<Rightarrow>
         if email = '''' then (Inl (Usage ''expected exactly one argument: an email address''), w)
         else with_pool x (\<lambda>s w.
           case SetSuperuser (NewService e s LogMailer) email grant w of
             (Inr u, w') \<Rightarrow>
               (Inr ((if grant then ''granted superuser to'' else ''revoked superuser from'')
                  @ '' '' @ Email u @ '' ('' @ uuid_String e (userID u) @ '')''), w')
           | (Inl err, w') \<Rightarrow>
               (Inl (if err = ErrNotFound
                     then NoSuch (''no user with email '' @ Quote (uquote e) email
                            @ '' -- they must register first'')
                     else ServiceError err), w')) w
     | _ \<Rightarrow> (Inl (Usage ''expected exactly one argument: an email address''), w))"

definition runGrantRole :: "outside \<Rightarrow> env \<Rightarrow> string list \<Rightarrow> string command" where
  "runGrantRole x e args w =
    (let usage = Inl (Usage ''expected exactly two arguments: an email address and a role key'') in
     case args of
       [email, roleKey] \<Rightarrow>
         if email = '''' \<or> roleKey = '''' then (usage, w)
         else with_pool x (\<lambda>s w.
           case GrantRoleByKey (NewService e s LogMailer) email roleKey w of
             (Inr (u, r), w') \<Rightarrow>
               (Inr (''granted '' @ Quote (uquote e) (Key r) @ '' to '' @ Email u
                  @ '' ('' @ uuid_String e (userID u) @ '')''), w')
           | (Inl err, w') \<Rightarrow>
               (Inl (if err = ErrNotFound
                     then NoSuch (''no user with email '' @ Quote (uquote e) email
                            @ '', or no role with key '' @ Quote (uquote e) roleKey)
                     else ServiceError err), w')) w
     | _ \<Rightarrow> (usage, w))"

text \<open>The retention is looked at before the database is.\<close>

definition purge_command :: "outside \<Rightarrow> env \<Rightarrow> nat command" where
  "purge_command x e w =
    (case Load (parsed_environment x) of
       Inl err \<Rightarrow> (Inl (BadSettings err), w)
     | Inr s \<Rightarrow>
         if Retention s \<le> 0 then (Inr 0, w)
         else
           (case NewPool x (Postgres s) of
              Inl err \<Rightarrow> (Inl (NoPool err), w)
            | Inr _ \<Rightarrow>
                (case runPurge e (Retention s) w of
                   (Inl err, w') \<Rightarrow> (Inl (PurgeFailed err), w')
                 | (Inr n, w') \<Rightarrow> (Inr n, w'))))"

definition Migrate ::
  "outside \<Rightarrow> postgres_settings \<Rightarrow> string \<Rightarrow> world \<Rightarrow> (migrate_error + unit) \<times> world" where
  "Migrate x cfg direction w =
    (let run = (\<lambda>c. case goose x c w of (ok, w') \<Rightarrow> (if ok then Inr () else Inl GooseFailed, w')) in
     if \<not> sql_Open x (DSN cfg) then (Inl OpenFailed, w)
     else if \<not> sql_Ping x then (Inl MigrationPingFailed, w)
     else if \<not> SetDialect x then (Inl SetDialectFailed, w)
     else if direction = ''up'' then run GooseUp
     else if direction = ''down'' then run GooseDown
     else if direction = ''status'' then run GooseStatus
     else if direction = ''reset'' then run GooseReset
     else (Inl (UnknownDirection direction), w))"

definition runMigrate :: "outside \<Rightarrow> string list \<Rightarrow> unit command" where
  "runMigrate x args w =
    (let direction = (case args of [] \<Rightarrow> ''up'' | d # _ \<Rightarrow> d) in
     case Load (parsed_environment x) of
       Inl err \<Rightarrow> (Inl (BadSettings err), w)
     | Inr s \<Rightarrow>
         (case Migrate x (Postgres s) direction w of
            (Inl err, w') \<Rightarrow> (Inl (MigrateFailed err), w')
          | (Inr _, w') \<Rightarrow> (Inr (), w')))"

section \<open>The server process\<close>

record listener =
  listenAddr :: string
  listenReadTimeout :: duration
  listenWriteTimeout :: duration
  listenIdleTimeout :: duration

text \<open>\<open>server.New\<close>: the server, its limiter if there is one, and where it listens.\<close>

definition NewServer ::
  "server_settings \<Rightarrow> ratelimit_settings \<Rightarrow> string list \<Rightarrow> bool \<Rightarrow> (error \<Rightarrow> string)
    \<Rightarrow> server \<times> limiter option \<times> listener" where
  "NewServer cfg rateCfg origins debug txt =
    (\<lparr>srv_config = cfg, srv_debug = debug, AllowedOrigins = origins, error_text = txt\<rparr>,
     if Enabled rateCfg then Some (newLimiter rateCfg) else None,
     \<lparr>listenAddr = Addr cfg, listenReadTimeout = ReadTimeout cfg,
      listenWriteTimeout = WriteTimeout cfg, listenIdleTimeout = IdleTimeout cfg\<rparr>)"

text \<open>
  \<open>run\<close> up to the point where it serves: the server, the environment its requests run in,
  and the listener.
\<close>

definition run_start :: "outside \<Rightarrow> env \<Rightarrow> (server \<times> env \<times> listener) command" where
  "run_start x e =
    with_pool x (\<lambda>s w.
      let e' = NewService e s (newMailer (Mail s)) in
      case SyncPermissions e' w of
        (Inl err, w') \<Rightarrow> (Inl (ServiceError err), w')
      | (Inr _, w') \<Rightarrow>
          (case NewServer (Server s) (RateLimit s) (settings.AllowedOrigins s) (Debug (App s))
                 (service_text x) of
             (srv, lim, listen) \<Rightarrow> (Inr (srv, e', listen), w'\<lparr>limits := lim\<rparr>)))"

text \<open>\<open>Start\<close>: the error of \<open>ListenAndServe\<close>, but not the one that a shutdown causes.\<close>

datatype listen_error = ErrServerClosed | ListenError

definition Start :: "listen_error option \<Rightarrow> listen_error option" where
  "Start returned = (if returned = Some ErrServerClosed then None else returned)"

text \<open>
  How serving ends: the listener returns, or a signal asks for a graceful shutdown, which
  succeeds or not.
\<close>

datatype ending = ListenReturned "listen_error option" | SignalThenShutdown bool

definition run_end :: "ending \<Rightarrow> cli_error + unit" where
  "run_end how =
    (case how of
       ListenReturned returned \<Rightarrow> if Start returned \<noteq> None then Inl ListenFailed else Inr ()
     | SignalThenShutdown failed \<Rightarrow> if failed then Inl ShutdownFailed else Inr ())"

text \<open>One tick: three sweeps, each of whose errors is only logged.\<close>

definition reap_tick :: "env \<Rightarrow> unit op" where
  "reap_tick e =
    then_op (attempt (CleanupSessions e sessionRetention)) (
    then_op (attempt (CleanupPasswordResets e sessionRetention)) (
    then_op (attempt (CleanupEmailVerifications e sessionRetention))
      (return_op ())))"

text \<open>The loop of the reaper over its ticks, until the context is done; each reads its own clock.\<close>

fun reap_loop :: "env list \<Rightarrow> unit op" where
  "reap_loop [] = return_op ()"
| "reap_loop (e # ticks) = then_op (reap_tick e) (reap_loop ticks)"

section \<open>The switch of main\<close>

datatype subcommand =
    MigrateCmd "string list" | GrantSuperuser "string list" | RevokeSuperuser "string list"
  | GrantRoleCmd "string list" | PurgeCmd | Serve | Unknown string

text \<open>The switch of \<open>main\<close> on \<open>os.Args\<close>.\<close>

definition main_subcommand :: "string list \<Rightarrow> subcommand" where
  "main_subcommand args =
    (case args of
       [] \<Rightarrow> Serve
     | cmd # rest \<Rightarrow>
         if cmd = ''migrate'' then MigrateCmd rest
         else if cmd = ''grant-superuser'' then GrantSuperuser rest
         else if cmd = ''revoke-superuser'' then RevokeSuperuser rest
         else if cmd = ''grant-role'' then GrantRoleCmd rest
         else if cmd = ''purge'' then PurgeCmd
         else if cmd = '''' then Serve
         else Unknown cmd)"

definition usage_text :: string where
  "usage_text = ''usage:'' @ [CHR 0x0A]
    @ ''  server                            start the HTTP API'' @ [CHR 0x0A]
    @ ''  server migrate [up|down|status|reset]'' @ [CHR 0x0A]
    @ ''  server grant-superuser <email>    make a user a global superuser'' @ [CHR 0x0A]
    @ ''  server revoke-superuser <email>   take it away'' @ [CHR 0x0A]
    @ ''  server grant-role <email> <role>  bootstrap: assign a role (e.g. '' @ [CHR 0x22]
    @ ''admin'' @ [CHR 0x22] @ '')'' @ [CHR 0x0A]
    @ ''  server purge                      DESTROY data past its retention (privileged)'' @ [CHR 0x0A]"

text \<open>
  The exit code and what goes to standard error; serving ends as \<open>how\<close> says, in the state
  that serving left (\<open>served\<close>).
\<close>

definition exit_of :: "outside \<Rightarrow> cli_error + 'a \<Rightarrow> nat \<times> string" where
  "exit_of x r =
    (case r of Inr _ \<Rightarrow> (0, '''') | Inl err \<Rightarrow> (1, ''fatal: '' @ cli_text x err @ [CHR 0x0A]))"

definition main ::
  "outside \<Rightarrow> env \<Rightarrow> string list \<Rightarrow> (world \<Rightarrow> world) \<Rightarrow> ending \<Rightarrow> world \<Rightarrow> (nat \<times> string) \<times> world" where
  "main x e args served how w =
    (case main_subcommand args of
       MigrateCmd rest \<Rightarrow> map_prod (exit_of x) id (runMigrate x rest w)
     | GrantSuperuser rest \<Rightarrow> map_prod (exit_of x) id (runSetSuperuser x e rest True w)
     | RevokeSuperuser rest \<Rightarrow> map_prod (exit_of x) id (runSetSuperuser x e rest False w)
     | GrantRoleCmd rest \<Rightarrow> map_prod (exit_of x) id (runGrantRole x e rest w)
     | PurgeCmd \<Rightarrow> map_prod (exit_of x) id (purge_command x e w)
     | Serve \<Rightarrow>
         (case run_start x e w of
            (Inl err, w') \<Rightarrow> (exit_of x (Inl err :: cli_error + unit), w')
          | (Inr _, w') \<Rightarrow> (exit_of x (run_end how), served w'))
     | Unknown cmd \<Rightarrow>
         ((2, ''unknown subcommand '' @ cmd @ [CHR 0x0A] @ usage_text), w))"

end
