(* ===== verification/Demo.thy ===== *)
theory Demo
  imports Http_Laws Commands
begin

text \<open>
  A concrete installation on which the witnesses run the model: an environment in which
  no statement fails, and a database with an administrator (Ann), a member (Bob) who also
  holds a custom role, one session each, one API key and one open invitation.
\<close>

definition uid :: "int \<Rightarrow> uuid" where
  "uid n = UUID (word_of_int n)"

definition demo_auth :: auth_settings where
  "demo_auth = \<lparr>SessionTTL = 100, InvitationTTL = 100, PasswordResetTTL = 100,
     EmailVerifyTTL = 100, MinPasswordLength = 8, ArgonMemoryKiB = 2, ArgonIterations = 1,
     ArgonParallelism = 1\<rparr>"

definition demo_mail :: mail_settings where
  "demo_mail = \<lparr>Backend = ''log'', From = ''app'', BaseURL = ''http://app'', SMTPHost = '''',
     SMTPPort = 25, SMTPUsername = '''', SMTPPassword = ''''\<rparr>"

text \<open>Tokens hash to themselves, and argon2 pads the password.\<close>

definition demo_env :: env where
  "demo_env = \<lparr>go_now = 10, sql_now = 10, fault = (\<lambda>_. False), uuidv7 = (\<lambda>n. uid (1000 + int (n mod 1000))),
     rand_read = (\<lambda>i n. Some (replicate n (if i = 0 then CHR ''A'' else if i = 1 then CHR ''B''
        else CHR ''C''))),
     sha256 = (\<lambda>s. s),
     argon2_IDKey = (\<lambda>p s t m q n. take n (p @ replicate n (CHR ''0''))),
     ParseAddress = Some, ParseAddr = (\<lambda>_. None), uuid_String = (\<lambda>_. ''id''),
     ulower = (\<lambda>s. s), uspace = (\<lambda>s. s), uquote = (\<lambda>s. s),
     uuid_Parse = (\<lambda>s. if s = ''ann'' then Some (uid 1) else if s = ''bob'' then Some (uid 2)
                       else None),
     time_Parse = (\<lambda>_. None), pg_text_ok = (\<lambda>_. True), pg_json_ok = (\<lambda>_. True),
     pg_lower = (\<lambda>s. s), pg_collate = (\<lambda>s. s), SendMail = (\<lambda>_ _ _ _ _. True),
     req_meta = \<lparr>RequestID = ''r'', metaIPAddress = '''', metaUserAgent = '''', APIKeyID = None\<rparr>,
     auth_cfg = demo_auth, mail_cfg = demo_mail, the_mailer = LogMailer\<rparr>"

text \<open>Everybody's password is \<open>password\<close>.\<close>

definition demo_key :: bytes where
  "demo_key = take 32 (''password'' @ replicate 32 (CHR ''0''))"

definition demo_hash :: string where
  "demo_hash = phc_encode 2 1 1 ''salt'' demo_key"

definition demo_user :: "int \<Rightarrow> string \<Rightarrow> user_row" where
  "demo_user n email = \<lparr>u_id = uid n, u_email = email, u_password_hash = Some demo_hash,
     u_first_name = ''F'', u_last_name = ''L'', u_is_superuser = False, u_is_active = True,
     u_created_at = 0, u_updated_at = 0, u_email_verified_at = None\<rparr>"

definition demo_role :: "int \<Rightarrow> string \<Rightarrow> bool \<Rightarrow> role_row" where
  "demo_role n key sys = \<lparr>r_id = uid n, r_key = key, r_name = key, r_is_system = sys,
     r_created_at = 0, r_updated_at = 0\<rparr>"

definition demo_session :: "int \<Rightarrow> int \<Rightarrow> string \<Rightarrow> session_row" where
  "demo_session n u tok = \<lparr>s_id = uid n, s_user_id = uid u, s_token_hash = tok,
     s_expires_at = 100, s_revoked_at = None, s_user_agent = '''', s_ip_address = None,
     s_last_used_at = None, s_created_at = 0\<rparr>"

definition demo_db :: database where
  "demo_db = \<lparr>users = [demo_user 1 ''ann@x'', demo_user 2 ''bob@x''],
     sessions = [demo_session 21 1 ''ann-token'', demo_session 22 2 ''bob-token''],
     password_resets = [\<lparr>pr_id = uid 31, pr_user_id = uid 2, pr_token_hash = ''reset'',
        pr_expires_at = 100, pr_used_at = None, pr_created_at = 0, pr_ip_address = None,
        pr_user_agent = ''''\<rparr>],
     email_verifications = [\<lparr>ev_id = uid 41, ev_user_id = uid 2, ev_email = ''bob@x'',
        ev_token_hash = ''verify'', ev_expires_at = 100, ev_used_at = None, ev_created_at = 0\<rparr>],
     invitations = [\<lparr>i_id = uid 51, i_email = ''eve@x'', i_token_hash = ''invite'',
        i_invited_by = Some (uid 1), i_expires_at = 100, i_accepted_at = None,
        i_revoked_at = None, i_created_at = 0, i_role_id = uid 12\<rparr>],
     permissions = Catalog,
     roles = [demo_role 11 ''admin'' True, demo_role 12 ''member'' True,
        demo_role 13 ''support'' False],
     role_permissions = [(uid 11, ''users.read''), (uid 11, ''users.update''),
        (uid 13, ''users.read'')],
     user_roles = [(uid 1, uid 11), (uid 2, uid 12), (uid 2, uid 13)],
     api_keys = [\<lparr>k_id = uid 61, k_user_id = uid 1, k_name = ''ci'', k_token_hash = ''mtt_key_1'',
        k_token_prefix = ''mtt_key_1'', k_expires_at = None, k_last_used_at = None,
        k_revoked_at = None, k_created_at = 0\<rparr>],
     api_key_permissions = [(uid 61, ''users.read'')],
     audit_log = []\<rparr>"

definition demo_world :: world where
  "demo_world = \<lparr>db = demo_db, outbox = [], limits = None, steps = 0, reads = 0, sends = 0\<rparr>"

lemma quiet_demo [simp]: "quiet demo_env"
  by (simp add: quiet_def demo_env_def)

lemma keys_ok_demo [simp]: "keys_ok demo_db"
  by code_simp

lemma db_demo_world [simp]: "db demo_world = demo_db"
  by (simp add: demo_world_def)

definition ann_access :: access where
  "ann_access = \<lparr>Roles = [], Permissions = AllPermissions, ViaSuperuser = False, ViaAPIKey = False\<rparr>"


lemma uid_eq [simp]:
  assumes "0 \<le> m" "m < 2 ^ 32" "0 \<le> n" "n < 2 ^ 32"
  shows "uid m = uid n \<longleftrightarrow> m = n"
proof -
  have "(2 :: int) ^ 32 \<le> 2 ^ 128" by simp
  with assms have "m < 2 ^ 128" "n < 2 ^ 128" by linarith+
  with assms show ?thesis by (simp add: uid_def word_of_int_eq_iff take_bit_int_eq_self)
qed

lemmas demo_defs = demo_db_def demo_world_def demo_user_def demo_role_def demo_session_def

lemma demo_env_simps [simp]:
  "sql_now demo_env = 10" "go_now demo_env = 10" "uuidv7 demo_env n = uid (1000 + int (n mod 1000))"
  "rand_read demo_env i n = Some (replicate n (if i = 0 then CHR ''A''
     else if i = 1 then CHR ''B'' else CHR ''C''))"
  "sha256 demo_env t = t"
  "uuid_String demo_env u = ''id''" "auth_cfg demo_env = demo_auth"
  "pg_lower demo_env t = t" "ParseAddr demo_env t = None" "pg_collate demo_env t = t"
  "ulower demo_env t = t" "uspace demo_env t = t" "pg_json_ok demo_env m" "pg_text_ok demo_env t"
  by (simp_all add: demo_env_def)

lemma demo_uuid_fresh: "0 \<le> m \<Longrightarrow> m < 1000 \<Longrightarrow> uid (1000 + int n mod 1000) \<noteq> uid m"
proof -
  assume m: "0 \<le> m" "m < 1000"
  have "0 \<le> int n mod 1000" "int n mod 1000 < 1000" by simp_all
  moreover have "(2 :: int) ^ 32 = 4294967296" by simp
  ultimately show ?thesis using m by (subst uid_eq) linarith+
qed

lemmas op_simps = bind_op_def query_quiet exec_quiet select_quiet InTx_quiet refuse_if_def
  lift_op_def attempt_def Record_def insert_audit_def audit_entry_row_def Let_def

lemma demo_reads [simp]: "reads demo_world = 0" "limits demo_world = None"
  by (simp_all add: demo_world_def)

lemma demo_hash_decoded: "decodeHash demo_hash = Some (2, 1, 1, ''salt'', demo_key)"
  by (simp add: demo_hash_def demo_key_def decodeHash_phc)

lemma demo_Verify: "Verify demo_env p demo_hash =
    (if take 32 (p @ replicate 32 (CHR ''0'')) = demo_key then Match else ErrMismatch)"
  by (simp add: Verify_def demo_hash_decoded demo_env_def) (simp add: demo_key_def)

lemma demo_Verify_password [simp]: "Verify demo_env ''password'' demo_hash = Match"
  by (simp add: demo_Verify demo_key_def)

lemma demo_hash_nonempty [simp]: "demo_hash \<noteq> []"
  by (simp add: demo_hash_def phc_encode_def)

lemma demo_no_rehash [simp]: "\<not> NeedsRehash (service_hasher demo_env) demo_hash"
  by (simp add: NeedsRehash_def demo_hash_decoded service_hasher_def NewHasher_def demo_auth_def)

definition ann :: user where "ann = scanUser (demo_user 1 ''ann@x'')"

definition bob :: user where "bob = scanUser (demo_user 2 ''bob@x'')"

text \<open>Bob's browser asks to become an administrator.\<close>

definition demo_server :: server where
  "demo_server = \<lparr>srv_config = \<lparr>Host = '''', Port = 80, ReadTimeout = 1, WriteTimeout = 1,
       IdleTimeout = 1, ShutdownTimeout = 1, TrustProxyHeaders = False\<rparr>,
     srv_debug = False, AllowedOrigins = [], error_text = (\<lambda>_. '''')\<rparr>"

definition demo_request :: "string \<Rightarrow> route \<Rightarrow> http_request" where
  "demo_request token r = \<lparr>rq_method = ''PUT'', rq_path = ''/'',
     rq_header = (\<lambda>h. if h = ''Authorization'' then ''Bearer '' @ token else ''''),
     RemoteAddr = ''1.2.3.4:5'', rq_id = ''r'', rq_email = None, rq_route = r, rq_clock2 = 10\<rparr>"

definition bob_request :: http_request where
  "bob_request = demo_request ''bob-token'' (PutUserRoles ''bob'' (Some [uid 11]))"

lemma bob_bearer: "bearerToken demo_env bob_request = ''bob-token''"
  by code_simp

lemma bob_authenticated: "authenticated demo_env bob_request demo_world = Some bob"
  by (simp add: authenticated_def bob_bearer Authenticate_def AuthenticateSession_def op_simps
      auth_session_def live_session_def HashToken_def demo_defs bob_def HasPrefix_def
      APIKeyTokenPrefix_def)

lemma confined_demo: "confined ''users.update'' {uid 1} demo_db"
  by (auto simp: confined_def demo_defs superusers_def granted_def)

lemma lawful_demo: "admin_held demo_db"
  by (auto simp: admin_held_def admin_row_def demo_defs RoleKeyAdmin_def)

definition key_request :: http_request where
  "key_request = demo_request ''mtt_key_1'' PostLogout"

lemma key_bearer: "bearerToken demo_env key_request = ''mtt_key_1''"
  by code_simp

end
