(* ===== verification/Http_Access.thy ===== *)
theory Http_Access
  imports Demo
begin

text \<open>
  What the middleware in front of a handler guarantees: a caller without the permission of
  a route never reaches its handler, an API key never reaches the account routes, and a
  handler that is reached finds the context values it reads.
\<close>

section \<open>Refusals\<close>

text \<open>
  \<open>refused m w\<close>: the response is an error, and the database changed at most in the
  last-used times and the audit log.
\<close>

definition refused :: "response op \<Rightarrow> world \<Rightarrow> bool" where
  "refused m w \<longleftrightarrow> (\<exists>r w'. m w = (Inr r, w') \<and> 400 \<le> status r
     \<and> changes_only {TSessions, TApiKeys, TAudit} (db w) (db w'))"

lemma error_status: "400 \<le> fst (error_response s err)" "fst (error_response s err) \<le> 502"
  by (cases err; simp add: error_response_def)+

lemma auditDenial_run:
  "\<exists>w'. auditDenial e rq c err w = (Inr (), w') \<and> changes_only {TAudit} (db w) (db w')"
proof -
  have "obeys (changes_only {TAudit}) (auditDenial e rq c err)"
    unfolding auditDenial_def by (intro obeys_intros) simp
  moreover have "infallible (auditDenial e rq c err)"
    unfolding auditDenial_def
    by (cases "denial_action err") (simp_all, (intro atomic_intros)+)
  ultimately show ?thesis
    unfolding infallible_def obeys_def by (cases "auditDenial e rq c err w") (metis sumE old.unit.exhaust)
qed

lemma handle_run:
  "\<exists>r w'. handle s rq e c err w = (Inr r, w') \<and> status r = fst (error_response s err)
     \<and> changes_only {TAudit} (db w) (db w')"
proof -
  obtain w' where "auditDenial e rq c err w = (Inr (), w')"
    "changes_only {TAudit} (db w) (db w')" using auditDenial_run by blast
  then show ?thesis
    by (auto simp: handle_def bind_op_def with_header_def writeError_def writeJSON_def
        split: prod.split)
qed

lemma refused_handle: "refused (handle s rq e c err) w"
  using handle_run [of s rq e c err w] error_status(1) [of s err] changes_only_mono
  unfolding refused_def by fastforce

lemma refused_writeError: "400 \<le> code \<Longrightarrow> refused (writeError code msg) w"
  by (simp add: refused_def writeError_def writeJSON_def frame.rel_refl)

lemma refused_run_or_handle:
  assumes "obeys (changes_only {TSessions, TApiKeys, TAudit}) m"
    and "\<And>a w1. m w = (Inr a, w1) \<Longrightarrow> refused (k a) w1"
  shows "refused (run_or_handle s rq e c m k) w"
proof (cases "m w")
  case (Pair x w1)
  have "changes_only {TSessions, TApiKeys, TAudit} (db w) (db w1)"
    using assms(1) Pair by (rule obeysD)
  moreover have "refused (case x of Inl err \<Rightarrow> handle s rq e c err | Inr a \<Rightarrow> k a) w1"
    using assms(2) Pair refused_handle by (cases x) auto
  ultimately show ?thesis using Pair
    by (auto simp: refused_def run_or_handle_def bind_op_def attempt_def intro: frame.rel_trans)
qed

lemma auth_footprint [obeys_intros]:
  assumes "TSessions \<in> ts" "TApiKeys \<in> ts"
  shows "obeys (changes_only ts) (Authenticate e token)"
    "obeys (changes_only ts) (AuthenticateAPIKey e token)"
proof -
  show "obeys (changes_only ts) (Authenticate e token)"
    unfolding Authenticate_def AuthenticateSession_def
    by (intro obeys_intros)
      (use assms in \<open>auto simp: auth_session_def intro!: changes_onlyI split: option.split\<close>)
  show "obeys (changes_only ts) (AuthenticateAPIKey e token)"
    unfolding AuthenticateAPIKey_def repo_AuthenticateAPIKey_def
    by (intro obeys_intros) (use assms in \<open>auto simp: auth_key_def intro!: changes_onlyI\<close>)
qed

section \<open>The permission gate\<close>

lemma requireAccess_refuses:
  assumes "keys_ok (db w)" "confined p T (db w)" "outsider p T c" "ctx_user c \<noteq> None"
  shows "refused (requireAccess s rq (requirePermission s rq p h) e c) w"
proof (cases "ctx_key c")
  case (Some k)
  with assms(3) show ?thesis
    by (simp add: requireAccess_def requirePermission_def accessFrom_def outsider_def
        refused_handle)
next
  case None
  from assms(3,4) obtain u where u: "ctx_user c = Some u" "userID u \<notin> T" "\<not> IsSuperuser u"
    by (auto simp: outsider_def)
  have "refused (requirePermission s rq p h e (c\<lparr>ctx_access := Some a\<rparr>)) w1"
    if "Authorize e u w = (Inr a, w1)" for a w1
    using Authorize_confined [OF assms(1,2) u(2,3) that]
    by (simp add: requirePermission_def accessFrom_def refused_handle)
  then have "refused (run_or_handle s rq e c (Authorize e u)
      (\<lambda>a. requirePermission s rq p h e (c\<lparr>ctx_access := Some a\<rparr>))) w"
    by (intro refused_run_or_handle) (intro obeys_intros)
  with None u(1) show ?thesis by (simp add: requireAccess_def userFrom_def)
qed

lemma gated_refuses:
  assumes "keys_ok (db w)" "confined p T (db w)"
    and untrusted: "\<forall>u. authenticated e rq w = Some u \<longrightarrow> userID u \<notin> T"
  shows "refused (gated s rq p h e no_ctx) w"
proof -
  let ?t = "bearerToken e rq"
  have same: "keys_ok (db w1) \<and> confined p T (db w1)" if "keeps p T (db w) (db w1)" for w1
    using that assms(1,2) by (simp add: keeps_def lawful_def)
  consider "?t = ''''" | "?t \<noteq> ''''" "HasPrefix ?t APIKeyTokenPrefix"
    | "?t \<noteq> ''''" "\<not> HasPrefix ?t APIKeyTokenPrefix" by blast
  then show ?thesis
  proof cases
    case 1
    then show ?thesis by (simp add: gated_def requireAuth_def refused_handle)
  next
    case 2
    then show ?thesis
      unfolding gated_def requireAuth_def Let_def
    proof (simp, intro refused_run_or_handle, intro obeys_intros, simp_all, clarify)
      fix k u w1
      assume auth: "AuthenticateAPIKey e ?t w = (Inr (k, u), w1)"
      with 2 untrusted have u: "userID u \<notin> T" by (simp add: authenticated_def Let_def)
      have "\<not> IsSuperuser u"
        using u confinedD(1) [OF assms(2)]
        by (rule_tac AuthenticateAPIKey_Inr [OF assms(1) auth]) (auto simp: superusers_def)
      moreover have "p \<notin> keyPermissions k"
        using assms(1,2) u auth by (rule AuthenticateAPIKey_confined)
      ultimately show "refused (requireAccess s rq (requirePermission s rq p h)
          (e\<lparr>req_meta := \<lparr>RequestID = rq_id rq, metaIPAddress = clientIP s e rq,
             metaUserAgent = rq_header rq ''User-Agent'', APIKeyID = Some (keyID k)\<rparr>\<rparr>)
          (no_ctx\<lparr>ctx_user := Some u, ctx_session := Some zero_session, ctx_key := Some k\<rparr>)) w1"
        using same [OF obeysD [OF keeps_user_admin(4) auth]] u
        by (intro requireAccess_refuses) (auto simp: outsider_def)
    qed
  next
    case 3
    then show ?thesis
      unfolding gated_def requireAuth_def Let_def
    proof (simp, intro refused_run_or_handle, intro obeys_intros, simp_all, clarify)
      fix u sess w1
      assume auth: "Authenticate e ?t w = (Inr (u, sess), w1)"
      with 3 untrusted have u: "userID u \<notin> T" by (simp add: authenticated_def Let_def)
      have "\<not> IsSuperuser u" using assms(2) u auth by (rule Authenticate_confined)
      then show "refused (requireAccess s rq (requirePermission s rq p h) e
          (no_ctx\<lparr>ctx_user := Some u, ctx_session := Some sess\<rparr>)) w1"
        using same [OF obeysD [OF keeps_account_ops(3) auth]] u
        by (intro requireAccess_refuses) (auto simp: outsider_def no_ctx_def)
    qed
  qed
qed

section \<open>The session gate\<close>

lemma account_refuses_keys:
  assumes "bearerToken e rq \<noteq> ''''" "HasPrefix (bearerToken e rq) APIKeyTokenPrefix"
  shows "refused (account s rq h e c) w"
proof -
  have "refused (sessionOnly h e' (c'\<lparr>ctx_key := Some k\<rparr>)) w1" for e' c' k w1
    by (simp add: sessionOnly_def refused_writeError)
  then show ?thesis
    using assms unfolding account_def requireAuth_def Let_def
    by (simp, intro refused_run_or_handle, intro obeys_intros) (auto split: prod.split)
qed

section \<open>The context a handler finds\<close>

lemma requireAuth_cong:
  assumes "\<And>e c. ctx_user c \<noteq> None \<Longrightarrow> ctx_session c \<noteq> None \<Longrightarrow> h e c = h' e c"
  shows "requireAuth s rq h = requireAuth s rq h'"
  using assms by (intro ext) (simp add: requireAuth_def Let_def split_def)

lemma requireAccess_cong:
  assumes "\<And>e c. ctx_user c \<noteq> None \<Longrightarrow> ctx_session c \<noteq> None \<Longrightarrow> ctx_access c \<noteq> None \<Longrightarrow>
      h e c = h' e c" "ctx_user c \<noteq> None" "ctx_session c \<noteq> None"
  shows "requireAccess s rq h e c = requireAccess s rq h' e c"
proof -
  from assms(2) obtain u where "ctx_user c = Some u" by blast
  with assms show ?thesis
    by (cases "ctx_key c") (simp_all add: requireAccess_def userFrom_def)
qed


section \<open>Theorems\<close>

text \<open>
  A caller who lacks the permission of a gated route never reaches the
  handler. Whatever the handler is, if the permission is confined to users in \<open>T\<close> and the
  request is not authenticated as one of them, by session or by API key, the response has
  an error status, and at most last-used times and the audit log have changed.
\<close>

lemma permission_gate:
  assumes "keys_ok (db w)" "confined p T (db w)"
    and "\<forall>u. authenticated e rq w = Some u \<longrightarrow> userID u \<notin> T"
  shows "\<exists>r w'. gated s rq p h e no_ctx w = (Inr r, w') \<and> 400 \<le> status r
     \<and> changes_only {TSessions, TApiKeys, TAudit} (db w) (db w')"
  using gated_refuses [OF assms] by (simp add: refused_def)

text \<open>
  No API key reaches the account routes (log out, change the password, list
  and revoke sessions, resend the verification): whatever the handler, a request whose
  bearer token has the API key prefix is answered with an error status, and at most
  last-used times and the audit log have changed, whether or not the key is a good one.
\<close>

lemma session_gate:
  assumes "bearerToken e rq \<noteq> ''''" "HasPrefix (bearerToken e rq) APIKeyTokenPrefix"
  shows "\<exists>r w'. account s rq h e c w = (Inr r, w') \<and> 400 \<le> status r
     \<and> changes_only {TSessions, TApiKeys, TAudit} (db w) (db w')"
  using account_refuses_keys [OF assms] by (simp add: refused_def)

text \<open>
  C4: no handler behind the two groups of routes ever panics for want of a
  context value: replacing it, for a context without the user, the session or (on gated
  routes) the access it reads, by any other handler \<open>x\<close> makes no difference.
\<close>

theorem handler_context:
  "gated s rq p h = gated s rq p (\<lambda>e c.
     if ctx_user c = None \<or> ctx_session c = None \<or> ctx_access c = None then x e c else h e c)
 \<and> account s rq h = account s rq (\<lambda>e c.
     if ctx_user c = None \<or> ctx_session c = None then x e c else h e c)"
proof
  let ?g = "\<lambda>e c. if ctx_user c = None \<or> ctx_session c = None \<or> ctx_access c = None
      then x e c else h e c"
  have "requireAccess s rq (requirePermission s rq p h) e c
      = requireAccess s rq (requirePermission s rq p ?g) e c"
    if "ctx_user c \<noteq> None" "ctx_session c \<noteq> None" for e c
    using that
    by (intro requireAccess_cong) (auto simp: requirePermission_def accessFrom_def)
  then show "gated s rq p h = gated s rq p ?g"
    unfolding gated_def by (rule requireAuth_cong)
  show "account s rq h = account s rq (\<lambda>e c.
      if ctx_user c = None \<or> ctx_session c = None then x e c else h e c)"
    unfolding account_def by (rule requireAuth_cong) (auto simp: sessionOnly_def)
qed

end
