(* ===== verification/Http_Runs.thy ===== *)
theory Http_Runs
  imports Http_Access
begin

text \<open>
  The runs of the server: requests, each with its own environment (the clock moves, any
  statement may fail), and ticks of the background sweeps. A run \<open>http_run T w w'\<close> has no
  request that is authenticated as a user in \<open>T\<close>; \<open>http_run {}\<close> is any run.
\<close>

inductive http_run :: "uuid set \<Rightarrow> world \<Rightarrow> world \<Rightarrow> bool" for T where
  start: "http_run T w w"
| request: "http_run T w w1 \<Longrightarrow> \<forall>u. authenticated e rq w1 = Some u \<longrightarrow> userID u \<notin> T \<Longrightarrow>
    serve s e rq w1 = (r, w2) \<Longrightarrow> http_run T w w2"
| sweep: "http_run T w w1 \<Longrightarrow> reap_tick e w1 = (r', w2) \<Longrightarrow> http_run T w w2"
| limiter_sweep: "http_run T w w1 \<Longrightarrow>
    http_run T w (w1\<lparr>limits := map_option (reap now) (limits w1)\<rparr>)"

lemma keeps_reap_tick: "obeys (keeps p T) (reap_tick e)"
  unfolding reap_tick_def by (intro obeys_intros)

lemma http_run_keeps: "http_run T w w' \<Longrightarrow> keeps p T (db w) (db w')"
proof (induction rule: http_run.induct)
  case (request w w1 e rq s r w2)
  with serve_keeps [OF request(3,2)] show ?case by (blast intro: keep.rel_trans)
next
  case (sweep w w1 e r' w2)
  then show ?case by (blast intro: keep.rel_trans obeysD [OF keeps_reap_tick])
qed (simp_all add: keep.rel_refl)

lemma http_run_lawful: "http_run T w w' \<Longrightarrow> lawful (db w) (db w')"
proof (induction rule: http_run.induct)
  case (request w w1 e rq s r w2)
  then show ?case by (blast intro: law.rel_trans obeysD [OF lawful_serve])
next
  case (sweep w w1 e r' w2)
  then show ?case
    by (blast intro: law.rel_trans obeysD [OF keeps_lawful [OF keeps_reap_tick]])
qed (simp_all add: law.rel_refl)

lemma bob_run: "http_run {uid 1} demo_world (snd (serve demo_server demo_env bob_request demo_world))"
  by (rule http_run.request [OF http_run.start _ surjective_pairing])
    (simp add: bob_authenticated bob_def demo_user_def)

text \<open>
  C1: no privilege escalation over HTTP. If only the users in \<open>T\<close> can
  exercise a permission (through the superuser flag, a role, or an API key) and no open
  invitation offers it, then after any sequence of requests of other people, known or
  unknown, and of background sweeps, still only users in \<open>T\<close> can exercise it.
\<close>

theorem http_confinement:
  assumes "http_run T w w'" "keys_ok (db w)" "confined p T (db w)"
  shows "confined p T (db w')"
  using http_run_keeps [OF assms(1), of p] assms(2,3) by (simp add: keeps_def)

theorem http_confinement_witness:
  "confined ''users.update'' {uid 1} (db (snd (serve demo_server demo_env bob_request demo_world)))"
  by (rule http_confinement [OF bob_run]) (simp_all add: confined_demo del: One_nat_def)



end
