(* ===== verification/Session_Theorems.thy ===== *)
theory Session_Theorems
  imports Demo
begin

text \<open>
  Theorems on passwords and sessions: who can log in and with what, when a session
  authenticates, and which operations end every session of a user.
\<close>

section \<open>What the account operations write\<close>

definition no_session :: "uuid \<Rightarrow> database \<Rightarrow> bool" where
  "no_session i d \<longleftrightarrow> (\<forall>s \<in> set (sessions d). s_user_id s = i \<longrightarrow> s_revoked_at s \<noteq> None)"

lemma no_session_Authenticate:
  assumes "no_session i (db w)" "Authenticate e token w = (Inr (u, s), w')"
  shows "userID u \<noteq> i"
  using assms(1) by (rule_tac Authenticate_Inr [OF assms(2)])
    (auto simp: no_session_def live_session_def)

lemma revoke_sessions_no_session:
  "no_session i (snd (revoke_sessions e (\<lambda>s. s_user_id s = i) d))"
  unfolding no_session_def revoke_sessions_def Let_def snd_conv
proof (intro ballI impI)
  fix s assume "s \<in> set (sessions (d\<lparr>sessions := update_where
      (\<lambda>s. s_user_id s = i \<and> s_revoked_at s = None)
      (\<lambda>s. s\<lparr>s_revoked_at := Some (sql_now e)\<rparr>) (sessions d)\<rparr>))" "s_user_id s = i"
  then show "s_revoked_at s \<noteq> None"
    by (simp, elim in_update_whereE) auto
qed

lemma RevokeUserSessions_Inr:
  assumes "RevokeUserSessions e i w = (Inr n, w')"
  shows "n = count_where (\<lambda>s. s_user_id s = i \<and> s_revoked_at s = None) (sessions (db w))"
    "db w' = snd (revoke_sessions e (\<lambda>s. s_user_id s = i) (db w))"
  using assms by (auto simp: RevokeUserSessions_def exec_Inr_iff revoke_sessions_def Let_def)

definition set_password :: "env \<Rightarrow> uuid \<Rightarrow> string \<Rightarrow> database \<Rightarrow> database" where
  "set_password e i hash d = d\<lparr>users := update_where (\<lambda>x. u_id x = i)
     (\<lambda>x. x\<lparr>u_password_hash := Some hash, u_updated_at := sql_now e\<rparr>) (users d)\<rparr>"

lemma set_password_hash:
  "x \<in> set (users (set_password e i hash d)) \<Longrightarrow> u_id x = i \<Longrightarrow> u_password_hash x = Some hash"
  unfolding set_password_def by (simp, elim in_update_whereE) auto

lemma UpdateUserPassword_Inr:
  assumes "UpdateUserPassword e i hash w = (Inr x, w')"
  shows "i \<in> u_id ` set (users (db w))" "db w' = set_password e i hash (db w)"
  using assms
  by (auto simp: UpdateUserPassword_def bind_op_Inr_iff exec_Inr_iff update_user_def
      set_password_def dest!: find_SomeD split: if_splits)

lemma Hash_Inr:
  assumes "Hash e h pw w = (Inr hash, w')"
  obtains salt where "hash = phc_encode (memoryKiB h) (iterations h) (parallelism h) salt
      (argon2_IDKey e pw salt (iterations h) (memoryKiB h) (parallelism h) keyLength)"
    "db w' = db w"
  using assms by (auto simp: Hash_def rand_Read_def bind_op_def Let_def split: option.splits)

text \<open>argon2 returns as many bytes as it is asked for (RFC 9106).\<close>

definition argon2_sized :: "env \<Rightarrow> bool" where
  "argon2_sized e \<longleftrightarrow> (\<forall>p s t m q n. length (argon2_IDKey e p s t m q n) = n)"

lemma Hash_reads_back:
  assumes "argon2_sized e" "Hash e h pw w = (Inr hash, w')"
  shows "Verify e pw hash = Match" "decodeHash hash \<noteq> None" "\<not> NeedsRehash h hash"
proof -
  from assms(2) obtain salt where
    hash: "hash = phc_encode (memoryKiB h) (iterations h) (parallelism h) salt
      (argon2_IDKey e pw salt (iterations h) (memoryKiB h) (parallelism h) keyLength)"
    by (rule Hash_Inr)
  let ?key = "argon2_IDKey e pw salt (iterations h) (memoryKiB h) (parallelism h) keyLength"
  have len: "length ?key = keyLength" using assms(1) by (simp add: argon2_sized_def)
  then have "?key \<noteq> []" by (auto simp: keyLength_def)
  then have dec: "decodeHash hash = Some (memoryKiB h, iterations h, parallelism h, salt, ?key)"
    unfolding hash by (rule decodeHash_phc)
  then show "decodeHash hash \<noteq> None" "\<not> NeedsRehash h hash" by (simp_all add: NeedsRehash_def)
  show "Verify e pw hash = Match" using dec len by (simp add: Verify_def)
qed

lemma demo_argon2_sized: "argon2_sized demo_env"
  by (auto simp: argon2_sized_def demo_env_def min_def)

text \<open>
  C5: a hash that \<open>Hash\<close> wrote reads back and verifies its own password;
  another password verifies exactly when argon2 maps both to the same key under the salt
  drawn; and the hash is never taken for one that needs the transparent upgrade.
\<close>

theorem password_roundtrip:
  assumes "argon2_sized e" "rand_read e (reads w) saltLength = Some salt"
  shows "\<exists>hash w'. Hash e h pw w = (Inr hash, w')
     \<and> decodeHash hash = Some (memoryKiB h, iterations h, parallelism h, salt,
         argon2_IDKey e pw salt (iterations h) (memoryKiB h) (parallelism h) keyLength)
     \<and> Verify e pw hash = Match \<and> \<not> NeedsRehash h hash
     \<and> (Verify e pw' hash = Match \<longleftrightarrow>
         argon2_IDKey e pw' salt (iterations h) (memoryKiB h) (parallelism h) keyLength
       = argon2_IDKey e pw salt (iterations h) (memoryKiB h) (parallelism h) keyLength)"
proof -
  let ?key = "\<lambda>p. argon2_IDKey e p salt (iterations h) (memoryKiB h) (parallelism h) keyLength"
  let ?hash = "phc_encode (memoryKiB h) (iterations h) (parallelism h) salt (?key pw)"
  have len: "length (?key p) = keyLength" for p using assms(1) by (simp add: argon2_sized_def)
  then have "?key pw \<noteq> []" by (metis keyLength_def list.size(3) zero_neq_numeral)
  then have dec: "decodeHash ?hash = Some (memoryKiB h, iterations h, parallelism h, salt, ?key pw)"
    by (rule decodeHash_phc)
  have "Hash e h pw w = (Inr ?hash, w\<lparr>reads := Suc (reads w)\<rparr>)"
    using assms(2) by (simp add: Hash_def rand_Read_def bind_op_def)
  with dec len show ?thesis by (simp add: Verify_def NeedsRehash_def)
qed

theorem password_roundtrip_witness:
  "\<exists>hash w'. Hash demo_env (service_hasher demo_env) ''password'' demo_world = (Inr hash, w')
     \<and> Verify demo_env ''password'' hash = Match"
  using password_roundtrip [OF demo_argon2_sized, of demo_world
      "replicate 16 (CHR ''A'')" "service_hasher demo_env" "''password''" "''other''"]
  by (simp add: demo_reads saltLength_def) blast


section \<open>Authenticating\<close>

lemma find_unique_key:
  assumes "distinct (map f xs)" "x \<in> set xs" "P x" "\<And>y. P y \<Longrightarrow> f y = f x"
  shows "find P xs = Some x"
proof -
  have "find P xs \<noteq> None" using assms(2,3) by (auto simp: find_None_iff)
  then obtain y where y: "find P xs = Some y" by blast
  then have "y \<in> set xs" "P y" by (auto dest: find_SomeD)
  with assms have "y = x" by (metis distinct_map_eqD)
  with y show ?thesis by simp
qed

lemma Authenticate_success:
  assumes "quiet e" "keys_ok (db w)" "token \<noteq> ''''" "s \<in> set (sessions (db w))"
    "live_session e (HashToken e token) s" "x \<in> set (users (db w))" "u_id x = s_user_id s"
    "u_is_active x"
  shows "\<exists>w'. Authenticate e token w
     = (Inr (scanUser x, (scanSession s)\<lparr>sessionTokenHash := HashToken e token\<rparr>), w')"
proof -
  have "find (live_session e (HashToken e token)) (sessions (db w)) = Some s"
    using assms(2,4,5)
    by (intro find_unique_key [where f = s_token_hash]) (auto simp: keys_ok_def live_session_def)
  moreover have "find (\<lambda>y. u_id y = s_user_id s \<and> u_is_active y) (users (db w)) = Some x"
    using assms(2,6-8) by (intro find_unique_key [where f = u_id]) (auto simp: keys_ok_def)
  ultimately show ?thesis
    using assms(1,3) by (simp add: Authenticate_def AuthenticateSession_def bind_op_def
        exec_quiet auth_session_def)
qed

lemma Authenticate_iff:
  assumes "quiet e" "keys_ok (db w)"
  shows "(\<exists>s w'. Authenticate e token w = (Inr (u, s), w')) \<longleftrightarrow>
    token \<noteq> '''' \<and> (\<exists>s \<in> set (sessions (db w)). \<exists>x \<in> set (users (db w)).
      live_session e (HashToken e token) s \<and> u_id x = s_user_id s \<and> u_is_active x
    \<and> u = scanUser x)"
proof
  assume "\<exists>s w'. Authenticate e token w = (Inr (u, s), w')"
  then obtain s w' where run: "Authenticate e token w = (Inr (u, s), w')" by blast
  then have "token \<noteq> ''''" by (auto simp: Authenticate_def)
  with Authenticate_Inr [OF run] show "token \<noteq> '''' \<and> (\<exists>s \<in> set (sessions (db w)).
      \<exists>x \<in> set (users (db w)). live_session e (HashToken e token) s \<and> u_id x = s_user_id s
    \<and> u_is_active x \<and> u = scanUser x)" by metis
next
  assume "token \<noteq> '''' \<and> (\<exists>s \<in> set (sessions (db w)). \<exists>x \<in> set (users (db w)).
      live_session e (HashToken e token) s \<and> u_id x = s_user_id s \<and> u_is_active x
    \<and> u = scanUser x)"
  with Authenticate_success [OF assms] show "\<exists>s w'. Authenticate e token w = (Inr (u, s), w')"
    by blast
qed

text \<open>
  C6: with the database reachable, a token authenticates exactly the owner
  of the unrevoked, unexpired session stored under its hash, and only while that user is
  active.
\<close>

theorem authenticate_iff:
  assumes "quiet e" "keys_ok (db w)"
  shows "(\<exists>s w'. Authenticate e token w = (Inr (u, s), w')) \<longleftrightarrow>
    token \<noteq> '''' \<and> (\<exists>s \<in> set (sessions (db w)). \<exists>x \<in> set (users (db w)).
      live_session e (HashToken e token) s \<and> u_id x = s_user_id s \<and> u_is_active x
    \<and> u = scanUser x)"
  by (rule Authenticate_iff [OF assms])

theorem authenticate_iff_witness:
  "(\<exists>s w'. Authenticate demo_env ''bob-token'' demo_world = (Inr (bob, s), w'))
   \<and> \<not> (\<exists>s w'. Authenticate demo_env ''stolen'' demo_world = (Inr (bob, s), w'))"
  by (simp add: authenticate_iff)
    (simp add: demo_defs live_session_def HashToken_def bob_def)

text \<open>
  C7: after a logout the token is dead: whatever happens to the clock or
  the connection, it authenticates nobody in the state the logout left.
\<close>

theorem logout_ends_session:
  assumes "Logout e token i w = (Inr (), w')" "sha256 e' = sha256 e"
  shows "fst (Authenticate e' token (w1\<lparr>db := db w'\<rparr>)) \<noteq> Inr (u, s)"
proof
  assume "fst (Authenticate e' token (w1\<lparr>db := db w'\<rparr>)) = Inr (u, s)"
  then obtain w2 where "Authenticate e' token (w1\<lparr>db := db w'\<rparr>) = (Inr (u, s), w2)"
    by (metis prod.collapse)
  then obtain t where t: "t \<in> set (sessions (db w'))" "live_session e' (HashToken e' token) t"
    by (rule Authenticate_Inr) simp
  from assms(1) have "sessions (db w') = update_where
      (\<lambda>s. s_token_hash s = HashToken e token \<and> s_revoked_at s = None)
      (\<lambda>s. s\<lparr>s_revoked_at := Some (sql_now e)\<rparr>) (sessions (db w))"
    by (auto simp: Logout_def InTx_Inr_iff bind_op_Inr_iff repo_RevokeSession_def exec_Inr_iff
        revoke_sessions_def Let_def dest!: Record_db)
  with t assms(2) show False
    by (auto simp: live_session_def HashToken_def elim: in_update_whereE)
qed

theorem logout_ends_session_witness:
  "\<nexists>u s. fst (Authenticate demo_env ''bob-token''
     (demo_world\<lparr>db := db (snd (Logout demo_env ''bob-token'' (uid 2) demo_world))\<rparr>)) = Inr (u, s)"
proof -
  have "\<exists>w'. Logout demo_env ''bob-token'' (uid 2) demo_world = (Inr (), w')"
    by (simp add: Logout_def op_simps repo_RevokeSession_def revoke_sessions_def demo_defs
        HashToken_def Event_def)
  then show ?thesis using logout_ends_session [OF _ refl] by fastforce
qed

section \<open>Changing a password\<close>

text \<open>The parts of a successful change.\<close>

lemma change_password_facts:
  assumes "argon2_sized e" "ChangePassword e i current new_pw w = (Inr (), w')"
  shows "\<exists>x \<in> set (users (db w)). u_id x = i
      \<and> (\<exists>h. u_password_hash x = Some h \<and> Verify e current h = Match)"
    and "MinPasswordLength (auth_cfg e) \<le> int (length new_pw)" "length new_pw \<le> 1024"
    and "\<forall>x \<in> set (users (db w')). u_id x = i \<longrightarrow>
      (\<exists>h. u_password_hash x = Some h \<and> Verify e new_pw h = Match)"
    and "Authenticate e' token w1 = (Inr (u, s), w2) \<Longrightarrow> db w1 = db w' \<Longrightarrow> userID u \<noteq> i"
proof -
  from assms(2) obtain u0 hash w3 w4 w5 w6 n w7 where
    v: "validatePassword e new_pw = Inr ()" and
    get: "GetUserByID e i w = (Inr u0, w3)" and
    ver: "PasswordHash u0 \<noteq> ''''" "Verify e current (PasswordHash u0) = Match" and
    hash: "Hash e (service_hasher e) new_pw w3 = (Inr hash, w4)" and
    up: "UpdateUserPassword e i hash (tick w4) = (Inr (), w5)" and
    rev: "RevokeUserSessions e i w5 = (Inr n, w6)" and
    log: "Record e (Event (Some i) ActionPasswordChanged ''user'' (uuid_String e i)
        [(''sessions_revoked'', JInt (int n))]) w6 = (Inr (), w7)" and w': "w' = tick w7"
    by (auto simp: ChangePassword_def bind_op_Inr_iff InTx_Inr_iff split: if_splits)
  from v show "MinPasswordLength (auth_cfg e) \<le> int (length new_pw)" "length new_pw \<le> 1024"
    by (auto simp: validatePassword_def split: if_splits)
  from get obtain x where x: "x \<in> set (users (db w))" "u_id x = i" "u0 = scanUser x"
    by (rule GetUserByID_Inr)
  from ver scanUser_hash [of x] have "u_password_hash x = Some (PasswordHash u0)"
    unfolding x(3) by blast
  with ver x show "\<exists>x \<in> set (users (db w)). u_id x = i
      \<and> (\<exists>h. u_password_hash x = Some h \<and> Verify e current h = Match)"
    by blast
  from log w' have d': "users (db w') = users (db w6)" "sessions (db w') = sessions (db w6)"
    by (auto dest!: Record_db)
  note d5 = UpdateUserPassword_Inr(2) [OF up]
  note d6 = RevokeUserSessions_Inr(2) [OF rev]
  have "users (db w') = users (set_password e i hash (db (tick w4)))"
    using d' d5 d6 by (simp add: revoke_sessions_def Let_def)
  then show "\<forall>x \<in> set (users (db w')). u_id x = i \<longrightarrow>
      (\<exists>h. u_password_hash x = Some h \<and> Verify e new_pw h = Match)"
    using Hash_reads_back(1) [OF assms(1) hash] by (simp add: set_password_hash)
  have "no_session i (db w')"
    using revoke_sessions_no_session [of i e "db w5"] d' d6 by (simp add: no_session_def)
  then show "Authenticate e' token w1 = (Inr (u, s), w2) \<Longrightarrow> db w1 = db w' \<Longrightarrow> userID u \<noteq> i"
    using no_session_Authenticate by metis
qed

lemma demo_change: "\<exists>w'. ChangePassword demo_env (uid 2) ''password'' ''new-password'' demo_world
    = (Inr (), w')"
  by (simp add: ChangePassword_def op_simps validatePassword_def GetUserByID_def demo_defs
      scanUserOrNotFound_def scanUser_def Hash_def rand_Read_def UpdateUserPassword_def
      update_user_def RevokeUserSessions_def revoke_sessions_def Event_def demo_auth_def)

text \<open>
  C8: a successful change had the current password and an acceptable new
  one; afterwards the new password verifies against what is stored, and no token, issued
  before to any device, authenticates the user any more.
\<close>

theorem change_password:
  assumes "argon2_sized e" "ChangePassword e i current new_pw w = (Inr (), w')"
  shows "(\<exists>x \<in> set (users (db w)). u_id x = i
      \<and> (\<exists>h. u_password_hash x = Some h \<and> Verify e current h = Match))
   \<and> MinPasswordLength (auth_cfg e) \<le> int (length new_pw) \<and> length new_pw \<le> 1024
   \<and> (\<forall>x \<in> set (users (db w')). u_id x = i \<longrightarrow>
        (\<exists>h. u_password_hash x = Some h \<and> Verify e new_pw h = Match))
   \<and> (\<forall>e' token w1 u s w2. Authenticate e' token w1 = (Inr (u, s), w2) \<longrightarrow> db w1 = db w' \<longrightarrow>
        userID u \<noteq> i)"
  using change_password_facts [OF assms] by blast

theorem change_password_witness:
  "\<exists>w'. ChangePassword demo_env (uid 2) ''password'' ''new-password'' demo_world = (Inr (), w')
     \<and> (\<forall>x \<in> set (users (db w')). u_id x = uid 2 \<longrightarrow>
          (\<exists>h. u_password_hash x = Some h \<and> Verify demo_env ''new-password'' h = Match))"
  using demo_change change_password [OF demo_argon2_sized] by blast

end
