(* ===== verification/Login_Theorems.thy ===== *)
theory Login_Theorems
  imports Session_Theorems
begin

text \<open>
  Theorems on logging in and on deactivating an account: what a login proves, that its
  refusals look alike, that it succeeds for the right password, and that deactivation ends
  every way in.
\<close>

section \<open>The parts of a login\<close>

context db_relation begin

lemma obeys_dummy_hash [obeys_intros]: "obeys R (dummy_hash e password)"
  unfolding dummy_hash_def by (intro obeys_intros)

end

text \<open>Writing to the audit log, or to nothing.\<close>

lemma reject_login_run:
  "\<exists>w'. reject_login e email i reason w = (Inl ErrInvalidCredentials, w')
     \<and> changes_only {TAudit} (db w) (db w')"
proof -
  have "obeys (changes_only {TAudit}) (reject_login e email i reason)"
    unfolding reject_login_def recordFailedLogin_def by (intro obeys_intros) simp
  moreover have "fst (reject_login e email i reason w) = Inl ErrInvalidCredentials"
    by (simp add: reject_login_def recordFailedLogin_def bind_op_def attempt_def split: prod.split)
  ultimately show ?thesis
    by (metis obeysD prod.collapse)
qed

lemma dummy_then_reject:
  "\<exists>w'. then_op (dummy_hash e password) (reject_login e email i reason) w
     = (Inl ErrInvalidCredentials, w') \<and> changes_only {TAudit} (db w) (db w')"
proof -
  obtain x w1 where run: "dummy_hash e password w = (x, w1)" by fastforce
  then have same: "db w1 = db w" by (rule read_db [OF reading.obeys_dummy_hash])
  have "x = Inr ()" using run by (auto simp: dummy_hash_def bind_op_def attempt_def split: prod.splits)
  with run have "then_op (dummy_hash e password) (reject_login e email i reason) w
      = reject_login e email i reason w1" by (simp add: bind_op_def)
  with reject_login_run [of e email i reason w1] same show ?thesis by simp
qed

lemma reject_no_Inr: "reject_login e email i reason w2 \<noteq> (Inr y, w3)"
  using reject_login_run [of e email i reason w2] by auto

lemma dummy_reject_no_Inr:
  "then_op (dummy_hash e password) (reject_login e email i reason) w2 \<noteq> (Inr y, w3)"
  using dummy_then_reject [of e password email i reason w2] by auto

definition matches :: "env \<Rightarrow> string \<Rightarrow> string \<Rightarrow> user_row \<Rightarrow> bool" where
  "matches e email password x \<longleftrightarrow> citext_eq e (u_email x) email \<and> u_is_active x
     \<and> (\<exists>h. h \<noteq> '''' \<and> u_password_hash x = Some h \<and> Verify e password h = Match)"

definition login_email :: "env \<Rightarrow> string \<Rightarrow> string" where
  "login_email e email0 = ToLower (ulower e) (TrimSpace (uspace e) email0)"

text \<open>A login, from what the lookup of the email found.\<close>

lemma Login_cases:
  assumes "GetUserByEmail e (login_email e email0) w = (found, w1)"
  shows "Login e email0 password meta w = (case found of
       Inl err \<Rightarrow>
         if err = ErrNotFound
         then then_op (dummy_hash e password)
           (reject_login e (login_email e email0) None ''unknown_email'') w1
         else (Inl err, w1)
     | Inr u \<Rightarrow>
         if PasswordHash u = '''' \<or> \<not> IsActive u then
           then_op (dummy_hash e password)
             (reject_login e (login_email e email0) (Some (userID u))
                (if PasswordHash u = '''' then ''no_password_set'' else ''deactivated'')) w1
         else
           (case Verify e password (PasswordHash u) of
              ErrMismatch \<Rightarrow> reject_login e (login_email e email0) (Some (userID u)) ''wrong_password'' w1
            | Malformed \<Rightarrow> reject_login e (login_email e email0) (Some (userID u)) ''corrupt_hash'' w1
            | Match \<Rightarrow> then_op (upgrade_hash e password u) (start_session e u meta) w1))"
proof -
  have "attempt (GetUserByEmail e (login_email e email0)) w = (Inr found, w1)"
    using assms by (simp add: attempt_def)
  then show ?thesis
    by (cases found) (simp_all add: Login_def login_email_def [symmetric] Let_def bind_op_step(1)
        split: verdict.split)
qed


lemma demo_no_match:
  "\<forall>x \<in> set (users (db demo_world)). \<not> matches demo_env ''bob@x'' ''guess'' x"
  by (simp add: demo_defs matches_def demo_Verify) (simp add: demo_key_def)

lemma demo_login_email: "login_email demo_env ''bob@x'' = ''bob@x''"
  by code_simp


section \<open>A login that succeeds\<close>

lemma upgrade_hash_db:
  assumes "upgrade_hash e password u w = (x, w')"
  shows "x = Inr ()" "changes_only {TUsers} (db w) (db w')"
proof -
  show "x = Inr ()"
    using assms
    by (auto simp: upgrade_hash_def bind_op_def attempt_def split: if_splits prod.splits sum.splits)
  have "obeys (changes_only {TUsers}) (upgrade_hash e password u)"
    unfolding upgrade_hash_def UpdateUserPassword_def
    by (intro obeys_intros) (auto simp: update_user_def intro!: changes_onlyI)
  with assms show "changes_only {TUsers} (db w) (db w')" by (rule_tac obeysD)
qed

lemma CreateSession_Inr:
  assumes "CreateSession e i digest t ua ip w = (Inr s, w')"
  obtains row where "s_user_id row = i" "s_token_hash row = digest" "s_revoked_at row = None"
    "s_expires_at row = t" "db w' = (db w)\<lparr>sessions := sessions (db w) @ [row]\<rparr>"
    "digest \<notin> s_token_hash ` set (sessions (db w))" "i \<in> u_id ` set (users (db w))"
proof -
  from assms obtain row w1 where
    "query e [ua] (insert_session e i digest t ua (parseIP e ip)) ErrSQL w = (Inr row, w1)"
    and w1: "w1 = w'" by (auto simp: CreateSession_def bind_op_Inr_iff)
  then have "insert_session e i digest t ua (parseIP e ip) (uuidv7 e (steps w)) (db w)
      = Inr (row, db w')"
    by (auto simp: query_Inr_iff)
  then have "s_user_id row = i" "s_token_hash row = digest" "s_revoked_at row = None"
    "s_expires_at row = t" "db w' = (db w)\<lparr>sessions := sessions (db w) @ [row]\<rparr>"
    "digest \<notin> s_token_hash ` set (sessions (db w))" "i \<in> u_id ` set (users (db w))"
    by (auto simp: insert_session_def Let_def list_ex_iff split: if_splits)
  then show ?thesis by (rule that)
qed

lemma start_session_Inr:
  assumes "start_session e u meta w = (Inr (token, u'), w')"
  obtains s where "u' = u" "HasPrefix token SessionTokenPrefix"
    "s_user_id s = userID u" "s_token_hash s = HashToken e token" "s_revoked_at s = None"
    "s_expires_at s = go_now e + SessionTTL (auth_cfg e)"
    "sessions (db w') = sessions (db w) @ [s]" "users (db w') = users (db w)"
proof -
  from assms obtain digest w1 s w2 w3 where
    new: "NewToken e SessionTokenPrefix w = (Inr (token, digest), w1)" and
    cre: "CreateSession e (userID u) digest (go_now e + SessionTTL (auth_cfg e))
          (UserAgent meta) (IPAddress meta) (tick w1) = (Inr s, w2)" and
    log: "Record e (Event (Some (userID u)) ActionUserLoggedIn ''user''
          (uuid_String e (userID u))
          [(''ip'', JStr (IPAddress meta)), (''user_agent'', JStr (UserAgent meta))]) w2
        = (Inr (), w3)" and "u' = u" "w' = tick w3"
    by (auto simp: start_session_def bind_op_Inr_iff InTx_Inr_iff)
  from new have tok: "HasPrefix token SessionTokenPrefix" "digest = HashToken e token"
    "db w1 = db w"
    by (auto simp: NewToken_Inr_iff HasPrefix_def)
  show ?thesis
  proof (rule CreateSession_Inr [OF cre], rule that)
    fix row
    assume row: "s_user_id row = userID u" "s_token_hash row = digest" "s_revoked_at row = None"
      "s_expires_at row = go_now e + SessionTTL (auth_cfg e)"
      "db w2 = (db (tick w1))\<lparr>sessions := sessions (db (tick w1)) @ [row]\<rparr>"
    show "u' = u" by fact
    show "HasPrefix token SessionTokenPrefix" by fact
    show "s_user_id row = userID u" "s_token_hash row = HashToken e token"
      "s_revoked_at row = None" "s_expires_at row = go_now e + SessionTTL (auth_cfg e)"
      using row tok(2) by simp_all
    show "sessions (db w') = sessions (db w) @ [row]" "users (db w') = users (db w)"
      using row(5) tok(3) \<open>w' = tick w3\<close> Record_db [OF log] by simp_all
  qed
qed

text \<open>
  C10: a login that succeeds was given the password of an active user with that
  email, and its token is the key to exactly one new session of that user, which expires
  after the configured time to live.
\<close>

theorem login_sound:
  assumes "Login e email0 password meta w = (Inr (token, u), w')"
  shows "\<exists>x \<in> set (users (db w)). matches e (login_email e email0) password x \<and> u = scanUser x
    \<and> HasPrefix token SessionTokenPrefix
    \<and> (\<exists>s. sessions (db w') = sessions (db w) @ [s] \<and> s_user_id s = u_id x
         \<and> s_token_hash s = HashToken e token \<and> s_revoked_at s = None
         \<and> s_expires_at s = go_now e + SessionTTL (auth_cfg e))"
proof -
  let ?email = "login_email e email0"
  obtain found w1 where look: "GetUserByEmail e ?email w = (found, w1)" by fastforce
  note run = assms [unfolded Login_cases [OF look]]
  obtain u0 where found: "found = Inr u0"
    using run dummy_reject_no_Inr by (cases found) (auto split: if_splits)
  then have ok: "\<not> (PasswordHash u0 = '''' \<or> \<not> IsActive u0)"
    using run dummy_reject_no_Inr by (simp split: if_splits)
  then have ver: "Verify e password (PasswordHash u0) = Match" and
    go: "then_op (upgrade_hash e password u0) (start_session e u0 meta) w1 = (Inr (token, u), w')"
    using run found reject_no_Inr by (auto split: verdict.splits)
  from look found obtain x where x: "x \<in> set (users (db w))" "citext_eq e (u_email x) ?email"
    "u0 = scanUser x" "w1 = tick w"
    by (auto elim: GetUserByEmail_Inr)
  from go obtain y w2 where up: "upgrade_hash e password u0 w1 = (Inr y, w2)" and
    start: "start_session e u0 meta w2 = (Inr (token, u), w')"
    by (auto simp: bind_op_Inr_iff)
  have "sessions (db w2) = sessions (db w)"
    using changes_onlyD(2) [OF upgrade_hash_db(2) [OF up]] x(4) by simp
  moreover have "matches e ?email password x"
    using x ok ver scanUser_hash [of x] scanUser_sel(4) [of x] unfolding matches_def by metis
  ultimately show ?thesis
    using x by (rule_tac start_session_Inr [OF start]) auto
qed

abbreviation demo_meta :: login_meta where
  "demo_meta \<equiv> \<lparr>UserAgent = '''', IPAddress = ''''\<rparr>"

lemma demo_login:
  "\<exists>token u w'. Login demo_env ''bob@x'' ''password'' demo_meta demo_world = (Inr (token, u), w')"
proof -
  have "GetUserByEmail demo_env (login_email demo_env ''bob@x'') demo_world = (Inr bob, tick demo_world)"
    unfolding demo_login_email
    by (simp add: GetUserByEmail_def op_simps scanUserOrNotFound_def demo_defs citext_eq_def bob_def)
  note run = Login_cases [OF this, of "''password''" demo_meta]
  show ?thesis
    unfolding run
    by (simp add: bob_def scanUser_def demo_user_def upgrade_hash_def start_session_def NewToken_def
        rand_Read_def op_simps CreateSession_def insert_session_def demo_defs HashToken_def
        tokenEntropyBytes_def SessionTokenPrefix_def Event_def demo_auth_def)
qed

theorem login_sound_witness:
  "\<exists>token u w'. Login demo_env ''bob@x'' ''password'' demo_meta demo_world = (Inr (token, u), w')
     \<and> (\<exists>s. sessions (db w') = sessions demo_db @ [s] \<and> s_token_hash s = HashToken demo_env token)"
  using demo_login login_sound [of demo_env "''bob@x''" "''password''" demo_meta demo_world]
  by fastforce

section \<open>A login that must succeed\<close>

definition fresh_ids :: "env \<Rightarrow> database \<Rightarrow> bool" where
  "fresh_ids e d \<longleftrightarrow> (\<forall>n. uuidv7 e n \<notin> s_id ` set (sessions d) \<union> a_id ` set (audit_log d))"

text \<open>Every read of the random source works and makes a token nobody has.\<close>

definition fresh_tokens :: "env \<Rightarrow> database \<Rightarrow> bool" where
  "fresh_tokens e d \<longleftrightarrow> (\<forall>n. \<exists>buf. rand_read e n tokenEntropyBytes = Some buf
     \<and> HashToken e (SessionTokenPrefix @ RawURLEncoding buf) \<notin> s_token_hash ` set (sessions d))"

lemma start_session_runs:
  assumes "quiet e" "fresh_ids e (db w)" "fresh_tokens e (db w)"
    and "userID u \<in> u_id ` set (users (db w))"
  shows "\<exists>token w'. start_session e u meta w = (Inr (token, u), w')"
proof -
  from assms(3) obtain buf where buf: "rand_read e (reads w) tokenEntropyBytes = Some buf"
    "HashToken e (SessionTokenPrefix @ RawURLEncoding buf) \<notin> s_token_hash ` set (sessions (db w))"
    by (auto simp: fresh_tokens_def)
  from assms(2) have ids: "uuidv7 e n \<notin> s_id ` set (sessions (db w))"
    "uuidv7 e n \<notin> a_id ` set (audit_log (db w))" for n
    by (auto simp: fresh_ids_def)
  have some: "list_ex (\<lambda>x. f x = a) xs \<longleftrightarrow> a \<in> f ` set xs" for f :: "'c \<Rightarrow> 'd" and a xs
    by (auto simp: list_ex_iff)
  have ex: "\<not> list_ex (\<lambda>x. s_id x = uuidv7 e n) (sessions (db w))"
    "\<not> list_ex (\<lambda>x. a_id x = uuidv7 e n) (audit_log (db w))"
    "\<not> list_ex (\<lambda>x. s_token_hash x = HashToken e (SessionTokenPrefix @ RawURLEncoding buf))
        (sessions (db w))" "list_ex (\<lambda>x. u_id x = userID u) (users (db w))" for n
    using ids buf(2) assms(4) by (simp_all only: some) simp_all
  show ?thesis
    using assms(1) buf(1)
    by (simp add: start_session_def NewToken_def rand_Read_def op_simps CreateSession_def
        insert_session_def ex Event_def)
qed

lemma set_password_user:
  assumes "x \<in> set (users d)"
  shows "\<exists>y \<in> set (users (set_password e i h d)). u_id y = u_id x \<and> u_is_active y = u_is_active x"
proof (cases "u_id x = i")
  case True
  with assms have "x\<lparr>u_password_hash := Some h, u_updated_at := sql_now e\<rparr>
      \<in> set (users (set_password e i h d))"
    by (auto simp: set_password_def set_update_where)
  then show ?thesis by (rule rev_bexI) simp
next
  case False
  with assms have "x \<in> set (users (set_password e i h d))"
    by (auto simp: set_password_def set_update_where)
  then show ?thesis by blast
qed

lemma UpdateUserPassword_quiet:
  assumes "quiet e"
  shows "\<exists>r w'. UpdateUserPassword e i h w = (r, w') \<and> db w' = set_password e i h (db w)"
  using assms
  by (simp add: UpdateUserPassword_def bind_op_def update_user_def set_password_def)

lemma upgrade_hash_users:
  assumes "quiet e" "upgrade_hash e password u w = (x, w')"
  shows "db w' = db w \<or> (\<exists>h. db w' = set_password e (userID u) h (db w))"
proof (cases "NeedsRehash (service_hasher e) (PasswordHash u)")
  case True
  obtain y w1 where hash: "Hash e (service_hasher e) password w = (y, w1)" by fastforce
  then have "db w1 = db w" by (rule read_db [OF reading.obeys_Hash])
  show ?thesis
  proof (cases y)
    case (Inr h)
    obtain r w2 where "UpdateUserPassword e (userID u) h w1 = (r, w2)"
      "db w2 = set_password e (userID u) h (db w1)"
      using UpdateUserPassword_quiet [OF assms(1)] by metis
    with Inr True hash \<open>db w1 = db w\<close> assms(2) show ?thesis
      by (auto simp: upgrade_hash_def bind_op_def attempt_def)
  qed (use assms True hash \<open>db w1 = db w\<close> in
      \<open>auto simp: upgrade_hash_def bind_op_def attempt_def\<close>)
next
  case False
  with assms show ?thesis by (simp add: upgrade_hash_def)
qed



end
