(* ===== verification/Grants.thy ===== *)
theory Grants
  imports Authority
begin

text \<open>
  The operations that hand out authority, as instances of the interface \<open>guarded_grant\<close>:
  creating, editing and deleting a role, assigning roles, inviting, creating an API key.
  What each hands out is read off the state it starts in.
\<close>

lemma guard_CreateRole:
  "CreateRole e actor access key name perms w = (Inr r, w') \<Longrightarrow> set perms \<subseteq> Permissions access"
  by (elim CreateRole_Inr) (auto dest: validateRoleInput_Inr(1))

lemma guard_UpdateRole:
  assumes "UpdateRole e actor access rid name perms w = (Inr r, w')"
  shows "set perms \<union> (if keys_ok (db w) then granted (db w) rid else {}) \<subseteq> Permissions access"
proof -
  from assms obtain key nm s where "validateRoleInput e ''placeholder'' name perms = Inr (key, nm, s)"
    "s \<subseteq> Permissions access"
    by (auto simp: UpdateRole_def bind_op_Inr_iff)
  then have "set perms \<subseteq> Permissions access" by (auto dest: validateRoleInput_Inr(1))
  moreover have "keys_ok (db w) \<Longrightarrow> granted (db w) rid \<subseteq> Permissions access"
    using assms by (rule_tac UpdateRole_Inr)
  ultimately show ?thesis by simp
qed

lemma guard_DeleteRole:
  assumes "DeleteRole e actor access rid w = (Inr x, w')"
  shows "(if keys_ok (db w) then granted (db w) rid else {}) \<subseteq> Permissions access"
proof -
  from assms obtain ex w1 where ex: "repo_GetRole e rid (tick w) = (Inr ex, w1)"
    "rolePermissions ex \<subseteq> Permissions access"
    by (auto simp: DeleteRole_def bind_op_Inr_iff InTx_Inr_iff)
  then have "keys_ok (db w) \<Longrightarrow> rolePermissions ex = granted (db w) rid"
    by (auto simp: repo_GetRole_Inr_iff)
  with ex(2) show ?thesis by (cases "keys_ok (db w)") simp_all
qed

lemma guard_SetUserRoles:
  assumes "SetUserRoles e actor access target rids w = (Inr x, w')"
  shows "(if keys_ok (db w) then \<Union>rid \<in> set rids. granted (db w) rid else {}) \<subseteq> Permissions access"
proof (cases "keys_ok (db w)")
  case True
  from SetUserRoles_Inr [OF this assms] obtain rs where rs: "roleID ` set rs = set rids"
    "set rs \<subseteq> full_role (db w) ` set (roles (db w))" "unionPermissions rs \<subseteq> Permissions access"
    by metis
  from rs(3) True show ?thesis unfolding union_full_roles [OF rs(2)] rs(1) by simp
qed simp

lemma guard_Invite:
  assumes "Invite e actor access email rid w = (Inr iv, w')"
  shows "(if keys_ok (db w) then granted (db w) rid else {}) \<subseteq> Permissions access"
proof -
  from assms obtain r w1 where r: "repo_GetRole e rid w = (Inr r, w1)"
    "rolePermissions r \<subseteq> Permissions access"
    by (auto simp: Invite_def bind_op_Inr_iff)
  then have "keys_ok (db w) \<Longrightarrow> rolePermissions r = granted (db w) rid"
    by (auto simp: repo_GetRole_Inr_iff)
  with r(2) show ?thesis by (cases "keys_ok (db w)") simp_all
qed

lemma guard_CreateAPIKey:
  "CreateAPIKey e actor access name perms t w = (Inr r, w') \<Longrightarrow> set perms \<subseteq> Permissions access"
  by (auto simp: CreateAPIKey_def bind_op_Inr_iff dest: validateAPIKeyInput_Inr(1))

interpretation creating_roles: guarded_grant
  "\<lambda>access (e, actor, key, name, perms). CreateRole e actor access key name perms"
  "\<lambda>(e, actor, key, name, perms) d. set perms"
  by unfold_locales (auto simp: guard_CreateRole dest!: guard_CreateRole)

interpretation editing_roles: guarded_grant
  "\<lambda>access (e, actor, rid, name, perms). UpdateRole e actor access rid name perms"
  "\<lambda>(e, actor, rid, name, perms) d. set perms \<union> (if keys_ok d then granted d rid else {})"
  by unfold_locales (auto dest!: guard_UpdateRole)

interpretation deleting_roles: guarded_grant
  "\<lambda>access (e, actor, rid). DeleteRole e actor access rid"
  "\<lambda>(e, actor, rid) d. if keys_ok d then granted d rid else {}"
  by unfold_locales (auto dest!: guard_DeleteRole split: if_splits)

interpretation assigning_roles: guarded_grant
  "\<lambda>access (e, actor, target, rids). SetUserRoles e actor access target rids"
  "\<lambda>(e, actor, target, rids) d. if keys_ok d then \<Union>rid \<in> set rids. granted d rid else {}"
  by unfold_locales (auto dest!: guard_SetUserRoles split: if_splits)

interpretation inviting: guarded_grant
  "\<lambda>access (e, actor, email, rid). Invite e actor access email rid"
  "\<lambda>(e, actor, email, rid) d. if keys_ok d then granted d rid else {}"
  by unfold_locales (auto dest!: guard_Invite split: if_splits)

interpretation creating_keys: guarded_grant
  "\<lambda>access (e, actor, name, perms, t). CreateAPIKey e actor access name perms t"
  "\<lambda>(e, actor, name, perms, t) d. set perms"
  by unfold_locales (auto dest!: guard_CreateAPIKey)

end
