(* ===== verification/Quiet_Runs.thy ===== *)
theory Quiet_Runs
  imports Grants
begin

text \<open>
  What the repository's calls return while the database answers: the reads and the writes of
  roles, and the audit entry, each as an equation. The theorems on refusals rest on them.
\<close>

definition fresh_audit :: "env \<Rightarrow> database \<Rightarrow> bool" where
  "fresh_audit e d \<longleftrightarrow> (\<forall>n. uuidv7 e n \<notin> a_id ` set (audit_log d))"

lemma Record_quiet:
  assumes "quiet e" "fresh_audit e (db w)"
    and "pred_option (\<lambda>a. a \<in> u_id ` set (users (db w))) (ActorUserID ev)"
  shows "Record e ev w = (Inr (), (tick w)\<lparr>db := logged e ev w (db w)\<rparr>)"
  using assms by (simp add: Record_Inr_iff fresh_audit_def logged_def)

lemma LoadUserRoles_quiet:
  assumes "quiet e" "keys_ok (db w)"
  shows "LoadUserRoles e u w
    = (Inr (map (full_role (db w)) (order_roles e (roles_held (db w) u))), tick w)"
proof -
  have "distinct (map r_id (roles_held (db w) u))"
    using assms(2) by (simp add: roles_held_def distinct_map_filter keys_okD)
  then have "collectRoles (join_roles (db w) (order_roles e (roles_held (db w) u)))
      = map (full_role (db w)) (order_roles e (roles_held (db w) u))"
    by (intro collect_join_roles) simp
  with assms(1) show ?thesis by (simp add: LoadUserRoles_def select_roles_def bind_op_def)
qed

lemma one_role_quiet:
  assumes "quiet e" "distinct (map r_id (f (db w)))"
  shows "bind_op (select_roles e ts f) one_role w
    = (case f (db w) of [] \<Rightarrow> Inl ErrNotFound | row # _ \<Rightarrow> Inr (full_role (db w) row), tick w)"
proof -
  have "collectRoles (join_roles (db w) (f (db w))) = map (full_role (db w)) (f (db w))"
    using assms(2) by (rule collect_join_roles)
  with assms(1) show ?thesis
    by (cases "f (db w)") (simp_all add: select_roles_def bind_op_def one_role_def)
qed

lemma find_filter: "find P xs = (case filter P xs of [] \<Rightarrow> None | x # _ \<Rightarrow> Some x)"
  by (induction xs) auto

lemma repo_GetRole_quiet:
  assumes "quiet e" "keys_ok (db w)"
  shows "repo_GetRole e rid w = (case find (\<lambda>r. r_id r = rid) (roles (db w)) of
      None \<Rightarrow> Inl ErrNotFound | Some row \<Rightarrow> Inr (full_role (db w) row), tick w)"
proof -
  have "distinct (map r_id (filter (\<lambda>r. r_id r = rid) (roles (db w))))"
    using assms(2) by (simp add: distinct_map_filter keys_okD)
  from one_role_quiet [OF assms(1), of "\<lambda>d. filter (\<lambda>r. r_id r = rid) (roles d)" w "[]", OF this]
  show ?thesis by (simp add: repo_GetRole_def find_filter split: list.split)
qed

lemma repo_GetRolesByIDs_quiet:
  assumes "quiet e" "keys_ok (db w)"
  shows "if set ids \<subseteq> r_id ` set (roles (db w))
    then \<exists>rs w'. repo_GetRolesByIDs e ids w = (Inr rs, w') \<and> db w' = db w
    else \<exists>w'. repo_GetRolesByIDs e ids w = (Inl ErrNotFound, w')"
proof -
  let ?rows = "order_roles e (filter (\<lambda>r. r_id r \<in> set ids) (roles (db w)))"
  have eq: "collectRoles (join_roles (db w) ?rows) = map (full_role (db w)) ?rows"
    using assms(2) by (intro collect_join_roles) (simp add: distinct_map_filter keys_okD)
  have dist: "distinct (map r_id ?rows)"
    using assms(2) by (simp add: distinct_map_filter keys_okD)
  have "length ?rows = card (r_id ` set ?rows)"
    using dist by (metis distinct_card length_map list.set_map)
  also have "r_id ` set ?rows = set ids \<inter> r_id ` set (roles (db w))" by auto
  finally have len: "length ?rows = card (set ids \<inter> r_id ` set (roles (db w)))" .
  have "length ?rows = length (remdups ids) \<longleftrightarrow> set ids \<subseteq> r_id ` set (roles (db w))"
  proof
    assume "length ?rows = length (remdups ids)"
    then have "card (set ids \<inter> r_id ` set (roles (db w))) = card (set ids)"
      using len by (simp add: length_remdups_card_conv)
    then have "set ids \<inter> r_id ` set (roles (db w)) = set ids"
      by (intro card_subset_eq) simp_all
    then show "set ids \<subseteq> r_id ` set (roles (db w))" by blast
  next
    assume "set ids \<subseteq> r_id ` set (roles (db w))"
    then show "length ?rows = length (remdups ids)"
      using len by (simp add: Int_absorb2 length_remdups_card_conv)
  qed
  with assms(1) eq show ?thesis
    by (auto simp: repo_GetRolesByIDs_def select_roles_def bind_op_def)
qed

lemma GetInvitation_quiet:
  assumes "quiet e" "distinct (map r_id (roles (db w)))" "distinct (map i_id (invitations (db w)))"
    and "i \<in> set (invitations (db w))" "r \<in> set (roles (db w))" "r_id r = i_role_id i"
  shows "GetInvitation e (i_id i) w = (Inr (full_invitation (db w) (i, r)), tick w)"
proof -
  let ?d = "db w"
  have one: "filter (\<lambda>j. i_id j = i_id i) (invitations ?d) = [i]"
    using assms(3,4) by (rule filter_unique)
  have row: "with_role ?d [i] = [(i, r)]"
    using filter_unique [OF assms(2,5)] assms(6) by (simp add: with_role_def)
  have "distinct (map (\<lambda>(i, _). i_id i) [(i, r)])" by simp
  from invitation_rows.collect_joined [OF this]
  have "collectInvitations (left_joins (\<lambda>(_, r). perms_of_role ?d r) [(i, r)])
      = [full_invitation ?d (i, r)]"
    by (simp add: collectInvitations_def full_invitation_def set_perms_of_role)
  with assms(1) one row show ?thesis
    by (simp add: GetInvitation_def invitationSelect_def bind_op_def)
qed

end
