(* ===== verification/User_Theorems.thy ===== *)
theory User_Theorems
  imports Session_Theorems Quiet_Runs
begin

text \<open>
  Theorems on deactivating an account and on the rule that there is always an administrator:
  what a deactivation ends, and which of the two checks (on deactivation, on removal of
  roles) keeps an active administrator.
\<close>

section \<open>What a deactivation writes\<close>

definition deactivate :: "env \<Rightarrow> uuid \<Rightarrow> database \<Rightarrow> database" where
  "deactivate e target d = snd (revoke_sessions e (\<lambda>s. s_user_id s = target)
     (d\<lparr>users := update_where (\<lambda>x. u_id x = target)
        (\<lambda>x. x\<lparr>u_is_active := False, u_updated_at := sql_now e\<rparr>) (users d)\<rparr>))"

lemma deactivate_frame [simp]:
  "user_roles (deactivate e t d) = user_roles d" "roles (deactivate e t d) = roles d"
  "api_keys (deactivate e t d) = api_keys d" "audit_log (deactivate e t d) = audit_log d"
  by (simp_all add: deactivate_def revoke_sessions_def Let_def)

lemma users_deactivate: "users (deactivate e t d) = update_where (\<lambda>x. u_id x = t)
    (\<lambda>x. x\<lparr>u_is_active := False, u_updated_at := sql_now e\<rparr>) (users d)"
  by (simp add: deactivate_def revoke_sessions_def Let_def)

lemma deactivate_inactive: "x \<in> set (users (deactivate e t d)) \<Longrightarrow> u_id x = t \<Longrightarrow> \<not> u_is_active x"
  unfolding users_deactivate by (elim in_update_whereE) auto

lemma deactivate_others:
  "x \<in> set (users d) \<Longrightarrow> u_id x \<noteq> t \<Longrightarrow> x \<in> set (users (deactivate e t d))"
  by (auto simp: users_deactivate set_update_where)

lemma no_session_deactivate: "no_session t (deactivate e t d)"
  unfolding deactivate_def by (rule revoke_sessions_no_session)

definition active_admin :: "database \<Rightarrow> uuid \<Rightarrow> bool" where
  "active_admin d u \<longleftrightarrow> holds_admin d u \<and> (\<exists>x \<in> set (users d). u_id x = u \<and> u_is_active x)"

lemma set_active_holders: "set (active_holders d RoleKeyAdmin) = {u. active_admin d u}"
  by (auto simp: active_holders_def set_holders active_admin_def list_ex_iff)

lemma distinct_active_holders: "distinct (active_holders d key)"
  by (simp add: active_holders_def holders_def)

lemma last_active_admin_check_Inr:
  assumes "keys_ok (db w)" "last_active_admin_check e target w = (Inr x, w')"
    "holds_admin (db w) target"
  shows "1 < length (active_holders (db w) RoleKeyAdmin)"
proof -
  from assms(2) obtain rs w1 where rs: "LoadUserRoles e target w = (Inr rs, w1)" and
    rest: "(if hasRole rs RoleKeyAdmin then
        bind_op (CountActiveUsersWithRole e RoleKeyAdmin) (\<lambda>n. refuse_if (n \<le> 1) ErrLastAdmin)
      else return_op ()) w1 = (Inr x, w')"
    by (auto simp: last_active_admin_check_def bind_op_Inr_iff)
  note held = LoadUserRoles_Inr [OF assms(1) rs]
  have "hasRole rs RoleKeyAdmin" using hasRole_before [OF held(2)] assms(3) by simp
  with rest held(1) show ?thesis
    by (auto simp: bind_op_Inr_iff CountActiveUsersWithRole_def select_Inr_iff split: if_splits)
qed

lemma deactivation_Inr:
  assumes "keys_ok (db w)" "SetUserActive e actor target False w = (Inr u, w')"
  obtains ev w1 where "userID actor \<noteq> target" "target \<in> u_id ` set (users (db w))"
    "\<not> IsSuperuser actor \<Longrightarrow> holds_admin (db w) target \<Longrightarrow>
       1 < length (active_holders (db w) RoleKeyAdmin)"
    "ActorUserID ev = Some (userID actor)" "Action ev = ActionUserDeactivated"
    "db w' = logged e ev w1 (deactivate e target (db w))"
proof -
  from assms(2) obtain w1 w2 w3 w4 n where
    other: "userID actor \<noteq> target" and
    check: "(if \<not> IsSuperuser actor then last_active_admin_check e target else return_op ())
        (tick w) = (Inr (), w1)" and
    set: "repo_SetUserActive e target False w1 = (Inr u, w2)" and
    rev: "RevokeUserSessions e target w2 = (Inr n, w3)" and
    log: "Record e (Event (Some (userID actor)) ActionUserDeactivated ''user''
        (uuid_String e target)
        [(''email'', JStr (Email u)), (''sessions_revoked'', JInt (int n))]) w3 = (Inr (), w4)"
    and w': "w' = tick w4"
    by (auto simp: SetUserActive_def bind_op_Inr_iff InTx_Inr_iff split: if_splits)
  have same: "db w1 = db w"
    using check read_db [OF reading.obeys_authority_reads(6)] by (auto split: if_splits)
  from set same have d2: "db w2 = (db w)\<lparr>users := update_where (\<lambda>x. u_id x = target)
        (\<lambda>x. x\<lparr>u_is_active := False, u_updated_at := sql_now e\<rparr>) (users (db w))\<rparr>"
    and found: "target \<in> u_id ` set (users (db w))"
    by (auto simp: repo_SetUserActive_def bind_op_Inr_iff exec_Inr_iff update_user_def
        scanUserOrNotFound_def dest!: find_SomeD split: option.splits)
  have "db w3 = deactivate e target (db w)"
    using RevokeUserSessions_Inr(2) [OF rev] d2 by (simp add: deactivate_def)
  with Record_logged [OF log] w' have db: "db w' = logged e (Event (Some (userID actor))
      ActionUserDeactivated ''user'' (uuid_String e target)
      [(''email'', JStr (Email u)), (''sessions_revoked'', JInt (int n))]) w3
      (deactivate e target (db w))" by simp
  show ?thesis
  proof (rule that [OF other found _ _ _ db])
    assume "\<not> IsSuperuser actor" "holds_admin (db w) target"
    with check last_active_admin_check_Inr [of "tick w" e target] assms(1)
    show "1 < length (active_holders (db w) RoleKeyAdmin)" by auto
  qed (simp_all add: Event_def)
qed

text \<open>
  C13: a deactivation takes effect at once. Afterwards no session
  token and no API key authenticates the target, whatever the clock does; the entry in the
  audit log names the actor; and nobody deactivates their own account.
\<close>

theorem deactivation_ends_access:
  assumes "keys_ok (db w)" "SetUserActive e actor target False w = (Inr u, w')"
  shows "userID actor \<noteq> target
   \<and> (\<forall>e' token w1 v s w2. Authenticate e' token w1 = (Inr (v, s), w2) \<longrightarrow> db w1 = db w' \<longrightarrow>
        userID v \<noteq> target)
   \<and> (\<forall>e' token w1 k v w2. AuthenticateAPIKey e' token w1 = (Inr (k, v), w2) \<longrightarrow> db w1 = db w' \<longrightarrow>
        userID v \<noteq> target)
   \<and> (\<exists>entry. audit_log (db w') = entry # audit_log (db w)
        \<and> a_action entry = ActionUserDeactivated
        \<and> a_actor_user_id entry = Some (userID actor))"
proof -
  from assms obtain ev w0 where other: "userID actor \<noteq> target"
    and ev: "ActorUserID ev = Some (userID actor)" "Action ev = ActionUserDeactivated"
    and d': "db w' = logged e ev w0 (deactivate e target (db w))"
    by (rule deactivation_Inr)
  have none: "no_session target (db w')"
    using no_session_deactivate [of target e "db w"] by (simp add: d' logged_def no_session_def)
  have inactive: "\<forall>x \<in> set (users (db w')). u_id x = target \<longrightarrow> \<not> u_is_active x"
    using deactivate_inactive by (auto simp: d' logged_def)
  have "obeys lawful (SetUserActive e actor target False)" by (intro obeys_intros)
  from obeysD [OF this assms(2)] assms(1) have keys: "keys_ok (db w')" by (simp add: lawful_def)
  have "userID v \<noteq> target" if "AuthenticateAPIKey e' token w1 = (Inr (k, v), w2)" "db w1 = db w'"
    for e' token w1 k v w2
  proof (rule AuthenticateAPIKey_Inr [OF _ that(1)])
    show "keys_ok (db w1)" using keys that(2) by simp
  qed (use inactive that(2) in auto)
  moreover have "\<exists>entry. audit_log (db w') = entry # audit_log (db w)
        \<and> a_action entry = ActionUserDeactivated
        \<and> a_actor_user_id entry = Some (userID actor)"
    using ev by (simp add: d' logged_def audit_entry_row_def)
  ultimately show ?thesis using other no_session_Authenticate none by metis
qed

lemma last_active_admin_check_quiet:
  assumes "quiet e" "keys_ok (db w)"
  shows "last_active_admin_check e t w =
    (if \<not> holds_admin (db w) t then (Inr (), tick w)
     else (if length (active_holders (db w) RoleKeyAdmin) \<le> 1 then Inl ErrLastAdmin else Inr (),
           tick (tick w)))"
  using assms hasRole_before [of "map (full_role (db w)) (order_roles e (roles_held (db w) t))"]
  by (simp add: last_active_admin_check_def LoadUserRoles_quiet bind_op_def
      CountActiveUsersWithRole_def)

lemma demo_admins:
  "holds_admin demo_db (uid 1)" "\<not> holds_admin demo_db (uid 2)"
  by (auto simp: holds_admin_def admin_row_def demo_defs RoleKeyAdmin_def)

lemma demo_deactivate:
  "\<exists>u w'. SetUserActive demo_env ann (uid 2) False demo_world = (Inr u, w')"
proof -
  have check: "last_active_admin_check demo_env (uid 2) (tick demo_world)
      = (Inr (), tick (tick demo_world))"
    by (simp add: last_active_admin_check_quiet demo_admins)
  show ?thesis
    by (simp add: SetUserActive_def InTx_quiet bind_op_def check ann_def demo_user_def)
      (simp add: repo_SetUserActive_def RevokeUserSessions_def revoke_sessions_def op_simps
        update_user_def demo_defs scanUserOrNotFound_def scanUser_def Event_def)
qed

theorem deactivation_ends_access_witness:
  "\<exists>u w'. SetUserActive demo_env ann (uid 2) False demo_world = (Inr u, w')
     \<and> (\<forall>e' token w1 v s w2. Authenticate e' token w1 = (Inr (v, s), w2) \<longrightarrow> db w1 = db w' \<longrightarrow>
          userID v \<noteq> uid 2)"
  using demo_deactivate deactivation_ends_access [of demo_world demo_env ann "uid 2"]
  by (metis db_demo_world keys_ok_demo)

section \<open>There is always an administrator\<close>

lemma two_distinct: "distinct xs \<Longrightarrow> 1 < length xs \<Longrightarrow> \<exists>y \<in> set xs. y \<noteq> x"
  by (cases xs; cases "tl xs") auto

text \<open>
  C14: no deactivation by anybody but a superuser takes away the last
  active administrator, and none changes who holds the role.
\<close>

theorem deactivation_keeps_admin:
  assumes "keys_ok (db w)" "SetUserActive e actor target False w = (Inr u, w')"
    and "\<not> IsSuperuser actor" "active_admin (db w) a"
  shows "(\<exists>b. active_admin (db w') b) \<and> (\<forall>i. holds_admin (db w') i \<longleftrightarrow> holds_admin (db w) i)"
proof -
  from assms(1,2) obtain ev w0 where
    more: "\<not> IsSuperuser actor \<Longrightarrow> holds_admin (db w) target \<Longrightarrow>
       1 < length (active_holders (db w) RoleKeyAdmin)"
    and d': "db w' = logged e ev w0 (deactivate e target (db w))"
    by (rule deactivation_Inr) blast
  have same: "holds_admin (db w') i \<longleftrightarrow> holds_admin (db w) i" for i
    by (simp add: d' logged_def holds_admin_def)
  have stay: "active_admin (db w') b" if "active_admin (db w) b" "b \<noteq> target" for b
    using that same deactivate_others by (fastforce simp: active_admin_def d' logged_def)
  have "\<exists>b. active_admin (db w) b \<and> b \<noteq> target"
  proof (cases "a = target")
    case True
    with assms(4) have "holds_admin (db w) target" by (simp add: active_admin_def)
    with more assms(3) have "1 < length (active_holders (db w) RoleKeyAdmin)" by blast
    from two_distinct [OF distinct_active_holders this, of target] show ?thesis
      by (simp add: set_active_holders)
  qed (use assms(4) in blast)
  with stay same show ?thesis by blast
qed

theorem deactivation_keeps_admin_witness:
  "\<exists>u w'. SetUserActive demo_env ann (uid 2) False demo_world = (Inr u, w')
     \<and> (\<exists>b. active_admin (db w') b)"
proof -
  have "active_admin (db demo_world) (uid 1)"
    using demo_admins by (auto simp: active_admin_def demo_defs)
  moreover have "\<not> IsSuperuser ann" by (simp add: ann_def demo_user_def)
  ultimately show ?thesis
    using demo_deactivate deactivation_keeps_admin [of demo_world demo_env ann "uid 2"]
    by (metis db_demo_world keys_ok_demo)
qed

end
