(* ===== verification/Role_Theorems.thy ===== *)
theory Role_Theorems
  imports User_Theorems
begin

text \<open>
  Theorems on roles: nobody hands out what they do not hold, what an assignment and an edit
  of roles leave behind, and the full list of answers of deleting and assigning roles.
\<close>

section \<open>Nobody grants what they do not hold\<close>

text \<open>
  C15: a caller who lacks a permission can neither create a role with it,
  nor edit or delete a role that has it or would have it, nor assign such a role (not even
  to themselves, nor keep it beside others), nor invite with one, nor put it on an API key:
  every one of these calls fails.
\<close>

theorem escalation_refused:
  assumes "keys_ok (db w)" "p \<notin> Permissions access"
  shows "(p \<in> set perms \<longrightarrow>
        (\<exists>err. fst (CreateRole e actor access key name perms w) = Inl err)
      \<and> (\<exists>err. fst (CreateAPIKey e actor access name perms t w) = Inl err)
      \<and> (\<exists>err. fst (UpdateRole e actor access rid name perms w) = Inl err))
   \<and> (p \<in> granted (db w) rid \<longrightarrow>
        (\<exists>err. fst (UpdateRole e actor access rid name perms w) = Inl err)
      \<and> (\<exists>err. fst (DeleteRole e actor access rid w) = Inl err)
      \<and> (\<exists>err. fst (Invite e actor access email rid w) = Inl err)
      \<and> (rid \<in> set rids \<longrightarrow> (\<exists>err. fst (SetUserRoles e actor access target rids w) = Inl err)))"
proof (intro conjI impI)
  assume "p \<in> set perms"
  with assms(2) show "\<exists>err. fst (CreateRole e actor access key name perms w) = Inl err"
    "\<exists>err. fst (CreateAPIKey e actor access name perms t w) = Inl err"
    "\<exists>err. fst (UpdateRole e actor access rid name perms w) = Inl err"
    using creating_roles.lacking_refused [of p "(e, actor, key, name, perms)" w access]
      creating_keys.lacking_refused [of p "(e, actor, name, perms, t)" w access]
      editing_roles.lacking_refused [of p "(e, actor, rid, name, perms)" w access]
    by simp_all
next
  assume g: "p \<in> granted (db w) rid"
  with assms show "\<exists>err. fst (UpdateRole e actor access rid name perms w) = Inl err"
    "\<exists>err. fst (DeleteRole e actor access rid w) = Inl err"
    "\<exists>err. fst (Invite e actor access email rid w) = Inl err"
    using editing_roles.lacking_refused [of p "(e, actor, rid, name, perms)" w access]
      deleting_roles.lacking_refused [of p "(e, actor, rid)" w access]
      inviting.lacking_refused [of p "(e, actor, email, rid)" w access]
    by simp_all
  assume "rid \<in> set rids"
  with assms g show "\<exists>err. fst (SetUserRoles e actor access target rids w) = Inl err"
    using assigning_roles.lacking_refused [of p "(e, actor, target, rids)" w access] by auto
qed

text \<open>Bob's own authority: what his two roles grant.\<close>

definition bob_access :: access where
  "bob_access = \<lparr>Roles = [], Permissions = {''users.read''}, ViaSuperuser = False,
     ViaAPIKey = False\<rparr>"

theorem escalation_refused_witness:
  "(\<exists>err. fst (SetUserRoles demo_env bob bob_access (uid 2) [uid 11] demo_world) = Inl err)
   \<and> (\<exists>err. fst (CreateRole demo_env bob bob_access ''x'' ''X'' [''users.update''] demo_world)
        = Inl err)"
proof -
  have "''users.update'' \<notin> Permissions bob_access" by (simp add: bob_access_def)
  moreover have "''users.update'' \<in> granted demo_db (uid 11)"
    by (simp add: granted_def demo_defs)
  ultimately show ?thesis
    using escalation_refused [of demo_world "''users.update''" bob_access "[''users.update'']"
        demo_env bob "''x''" "''X''" None "uid 11" "''x''" "[uid 11]" "uid 2"]
    by simp
qed

section \<open>Assigning roles\<close>

text \<open>
  C16: a successful assignment gives the target exactly the roles asked
  for and touches nobody else. All of them exist; the caller holds every permission they
  grant; an administrator was changed only by a superuser or another administrator; and the
  change is in the audit log under the caller's name.
\<close>

theorem set_user_roles_effect:
  assumes "keys_ok (db w)" "SetUserRoles e actor access target rids w = (Inr x, w')"
  shows "{r. (target, r) \<in> set (user_roles (db w'))} = set rids
   \<and> (\<forall>u r. u \<noteq> target \<longrightarrow> (u, r) \<in> set (user_roles (db w')) \<longleftrightarrow> (u, r) \<in> set (user_roles (db w)))
   \<and> set rids \<subseteq> r_id ` set (roles (db w))
   \<and> (\<forall>r \<in> set rids. granted (db w) r \<subseteq> Permissions access)
   \<and> (holds_admin (db w) target \<longrightarrow> ViaSuperuser access \<or> actorHoldsRole access RoleKeyAdmin)
   \<and> changes_only {TUserRoles, TAudit} (db w) (db w')
   \<and> (\<exists>entry. audit_log (db w') = entry # audit_log (db w)
        \<and> a_action entry = ActionUserRolesUpdated
        \<and> a_actor_user_id entry = Some (userID actor))"
proof -
  from SetUserRoles_Inr [OF assms] obtain rs ev w1 where
    rs: "roleID ` set rs = set rids" "set rs \<subseteq> full_role (db w) ` set (roles (db w))"
      "unionPermissions rs \<subseteq> Permissions access" and
    admin: "holds_admin (db w) target \<Longrightarrow>
       ViaSuperuser access \<or> actorHoldsRole access RoleKeyAdmin" and
    ev: "ActorUserID ev = Some (userID actor)" "Action ev = ActionUserRolesUpdated" and
    w': "db w' = logged e ev w1 (assign_roles target (rolesToIDs rs) (db w))"
    by metis
  have ids: "set (rolesToIDs rs) = set rids" using rs(1) by (simp add: rolesToIDs_def)
  have urs: "user_roles (db w')
      = delete_where (\<lambda>(u, _). u = target) (user_roles (db w)) @ map (Pair target) (rolesToIDs rs)"
    by (simp add: w' logged_def assign_roles_def)
  have mine: "{r. (target, r) \<in> set (user_roles (db w'))} = set rids"
    using ids by (auto simp: urs)
  have rest: "\<forall>u r. u \<noteq> target \<longrightarrow>
      (u, r) \<in> set (user_roles (db w')) \<longleftrightarrow> (u, r) \<in> set (user_roles (db w))"
    by (auto simp: urs)
  have ex: "set rids \<subseteq> r_id ` set (roles (db w))"
    using rs(1,2) by (metis (no_types, lifting) image_image image_mono roleID_full image_cong)
  have guard: "\<forall>r \<in> set rids. granted (db w) r \<subseteq> Permissions access"
    using rs(3) unfolding union_full_roles [OF rs(2)] rs(1) by blast
  have frame: "changes_only {TUserRoles, TAudit} (db w) (db w')"
    by (rule changes_onlyI) (simp_all add: w' logged_def assign_roles_def)
  have entry: "\<exists>entry. audit_log (db w') = entry # audit_log (db w)
        \<and> a_action entry = ActionUserRolesUpdated
        \<and> a_actor_user_id entry = Some (userID actor)"
    using ev by (simp add: w' logged_def assign_roles_def audit_entry_row_def)
  show ?thesis using mine rest ex guard admin frame entry by simp
qed

text \<open>Assigning roles that exist, to a user who exists, succeeds.\<close>

lemma insert_user_roles_run:
  assumes "quiet e" "distinct rids" "i \<in> u_id ` set (users (db w))"
    and "\<forall>rid \<in> set rids. (i, rid) \<notin> set (user_roles (db w)) \<and> rid \<in> r_id ` set (roles (db w))"
  shows "\<exists>w'. for_each (\<lambda>rid. query e [] (insert_user_role i rid) ErrSQL) rids w = (Inr (), w')"
  using assms(2-4)
proof (induction rids arbitrary: w)
  case (Cons rid rids)
  let ?w = "(tick w)\<lparr>db := (db w)\<lparr>user_roles := user_roles (db w) @ [(i, rid)]\<rparr>\<rparr>"
  from Cons.prems have ok: "list_ex (\<lambda>x. u_id x = i) (users (db w))"
    "list_ex (\<lambda>r. r_id r = rid) (roles (db w))" "(i, rid) \<notin> set (user_roles (db w))"
    by (auto simp: list_ex_iff)
  have "query e [] (insert_user_role i rid) ErrSQL w = (Inr (), ?w)"
    using assms(1) ok by (simp add: insert_user_role_def)
  moreover have "\<exists>w'. for_each (\<lambda>rid. query e [] (insert_user_role i rid) ErrSQL) rids ?w
      = (Inr (), w')"
    using Cons.prems by (intro Cons.IH) auto
  ultimately show ?case by (simp add: bind_op_def)
qed simp

lemma repo_SetUserRoles_run:
  assumes "quiet e" "distinct rids" "i \<in> u_id ` set (users (db w))"
    and "set rids \<subseteq> r_id ` set (roles (db w))"
  shows "\<exists>w'. repo_SetUserRoles e i rids w = (Inr (), w')
     \<and> db w' = assign_roles i rids (db w)"
proof -
  let ?w = "(tick w)\<lparr>db := (db w)\<lparr>user_roles :=
      delete_where (\<lambda>(u, _). u = i) (user_roles (db w))\<rparr>\<rparr>"
  have "\<exists>w'. for_each (\<lambda>rid. query e [] (insert_user_role i rid) ErrSQL) rids ?w = (Inr (), w')"
    using assms by (intro insert_user_roles_run) auto
  then have "\<exists>w'. repo_SetUserRoles e i rids w = (Inr (), w')"
    using assms(1) by (simp add: repo_SetUserRoles_def bind_op_def)
  then show ?thesis using repo_SetUserRoles_db by (fastforce simp: assign_roles_def)
qed

lemma checkEscalation_eq: "checkEscalation a g = (if g \<subseteq> Permissions a then Inr ()
    else Inl (ErrEscalation (sorted_list_of_set (g - Permissions a))))"
  using checkEscalation_err_iff [of a g] checkEscalation_ok_iff [of a g]
  by (cases "checkEscalation a g") auto

lemma last_admin_check_quiet:
  assumes "quiet e"
  shows "fst (last_admin_check e before rs w)
    = (if hasRole before RoleKeyAdmin \<and> \<not> hasRole rs RoleKeyAdmin
          \<and> length (holders (db w) RoleKeyAdmin) \<le> 1 then Inl ErrLastAdmin else Inr ())"
    and "db (snd (last_admin_check e before rs w)) = db w"
  using assms by (simp_all add: last_admin_check_def bind_op_def CountUsersWithRole_def)

lemma hasRole_assigned:
  assumes "set rs \<subseteq> full_role d ` set (roles d)" "distinct (map r_id (roles d))"
  shows "hasRole rs RoleKeyAdmin
    \<longleftrightarrow> (\<exists>r \<in> set (roles d). admin_row r \<and> r_id r \<in> roleID ` set rs)"
proof
  assume "hasRole rs RoleKeyAdmin"
  then obtain x where x: "x \<in> set rs" "IsSystem x" "Key x = RoleKeyAdmin"
    by (auto simp: hasRole_iff)
  with assms(1) obtain r where "r \<in> set (roles d)" "x = full_role d r" by blast
  with x show "\<exists>r \<in> set (roles d). admin_row r \<and> r_id r \<in> roleID ` set rs"
    by (auto simp: admin_row_def image_iff intro!: bexI [of _ r] bexI [of _ x])
next
  assume "\<exists>r \<in> set (roles d). admin_row r \<and> r_id r \<in> roleID ` set rs"
  then obtain r x where r: "r \<in> set (roles d)" "admin_row r" "x \<in> set rs" "roleID x = r_id r"
    by auto
  with assms(1) obtain r' where "r' \<in> set (roles d)" "x = full_role d r'" by blast
  with r assms(2) have "x = full_role d r" by (auto dest: distinct_map_eqD)
  with r show "hasRole rs RoleKeyAdmin" by (auto simp: hasRole_iff admin_row_def intro!: bexI [of _ x])
qed

lemma SetUserRoles_quiet:
  assumes "quiet e" "keys_ok (db w)" "fresh_audit e (db w)"
    and "userID actor \<in> u_id ` set (users (db w))" "target \<in> u_id ` set (users (db w))"
  shows "fst (SetUserRoles e actor access target rids w) =
    (if \<not> set rids \<subseteq> r_id ` set (roles (db w)) then Inl ErrNotFound
     else if \<not> (\<Union>r \<in> set rids. granted (db w) r) \<subseteq> Permissions access
       then Inl (ErrEscalation (sorted_list_of_set
         ((\<Union>r \<in> set rids. granted (db w) r) - Permissions access)))
     else if holds_admin (db w) target \<and> \<not> ViaSuperuser access
         \<and> \<not> actorHoldsRole access RoleKeyAdmin then Inl ErrForbidden
     else if holds_admin (db w) target
         \<and> \<not> (\<exists>r \<in> set (roles (db w)). admin_row r \<and> r_id r \<in> set rids)
         \<and> length (holders (db w) RoleKeyAdmin) \<le> 1 then Inl ErrLastAdmin
     else Inr ())"
proof (cases "set rids \<subseteq> r_id ` set (roles (db w))")
  case False
  with repo_GetRolesByIDs_quiet [OF assms(1), of "tick w" rids] assms(2)
  obtain w1 where "repo_GetRolesByIDs e rids (tick w) = (Inl ErrNotFound, w1)" by auto
  with assms(1) False show ?thesis by (simp add: SetUserRoles_def InTx_quiet bind_op_def)
next
  case ids: True
  with repo_GetRolesByIDs_quiet [OF assms(1), of "tick w" rids] assms(2)
  obtain rs w1 where get: "repo_GetRolesByIDs e rids (tick w) = (Inr rs, w1)" by auto
  have keys: "keys_ok (db (tick w))" using assms(2) by simp
  note rs = repo_GetRolesByIDs_Inr [OF keys get, simplified]
  have union: "unionPermissions rs = (\<Union>r \<in> set rids. granted (db w) r)"
    using union_full_roles [OF rs(4)] rs(2) by simp
  let ?before = "map (full_role (db w)) (order_roles e (roles_held (db w) target))"
  have load: "LoadUserRoles e target w1 = (Inr ?before, tick w1)"
    using LoadUserRoles_quiet [OF assms(1), of w1 target] assms(2) rs(1) by simp
  have bef: "hasRole ?before RoleKeyAdmin \<longleftrightarrow> holds_admin (db w) target"
    by (rule hasRole_before) simp
  have new: "hasRole rs RoleKeyAdmin
      \<longleftrightarrow> (\<exists>r \<in> set (roles (db w)). admin_row r \<and> r_id r \<in> set rids)"
    using hasRole_assigned [OF rs(4) keys_okD(2) [OF assms(2)]] rs(2) by simp
  obtain y w2 where check: "last_admin_check e ?before rs (tick w1) = (y, w2)" by fastforce
  with last_admin_check_quiet [OF assms(1), of ?before rs "tick w1"] rs(1) bef new
  have y: "y = (if holds_admin (db w) target
         \<and> \<not> (\<exists>r \<in> set (roles (db w)). admin_row r \<and> r_id r \<in> set rids)
         \<and> length (holders (db w) RoleKeyAdmin) \<le> 1 then Inl ErrLastAdmin else Inr ())"
    and w2: "db w2 = db w" by auto
  have "set (rolesToIDs rs) = set rids" using rs(2) by (simp add: rolesToIDs_def)
  with repo_SetUserRoles_run [OF assms(1) rs(3), of target w2] assms(5) ids w2
  obtain w3 where put: "repo_SetUserRoles e target (rolesToIDs rs) w2 = (Inr (), w3)"
    and w3: "db w3 = assign_roles target (rolesToIDs rs) (db w)" by auto
  have log: "Record e (Event (Some (userID actor)) ActionUserRolesUpdated ''user''
         (uuid_String e target)
         [(''from'', JStrs (roleKeys ?before)), (''to'', JStrs (roleKeys rs))]) w3
       = (Inr (), (tick w3)\<lparr>db := logged e (Event (Some (userID actor)) ActionUserRolesUpdated ''user''
         (uuid_String e target)
         [(''from'', JStrs (roleKeys ?before)), (''to'', JStrs (roleKeys rs))]) w3 (db w3)\<rparr>)"
    using assms(1,3,4) w3
    by (intro Record_quiet) (simp_all add: fresh_audit_def assign_roles_def Event_def)
  show ?thesis
    using assms(1) ids y
    by (simp add: SetUserRoles_def InTx_quiet bind_op_def get load check put log union bef
        checkEscalation_eq lift_op_def) auto
qed


definition ann_admin :: access where
  "ann_admin = ann_access\<lparr>Roles := [role_of (demo_role 11 ''admin'' True) {}]\<rparr>"

lemma ann_is_admin [simp]: "actorHoldsRole ann_admin RoleKeyAdmin"
  "Permissions ann_admin = AllPermissions" "\<not> ViaSuperuser ann_admin"
  by (simp_all add: ann_admin_def ann_access_def actorHoldsRole_def hasRole_iff role_of_def
      demo_role_def RoleKeyAdmin_def)

lemma demo_fresh_audit [simp]: "fresh_audit e demo_db"
  by (simp add: fresh_audit_def demo_defs)

lemma demo_holders: "holders demo_db RoleKeyAdmin = [uid 1]"
  by (simp add: holders_def demo_defs RoleKeyAdmin_def)

lemma demo_granted: "granted demo_db (uid 13) = {''users.read''}"
  "granted demo_db (uid 12) = {}"
  by (auto simp: granted_def demo_defs)


theorem set_user_roles_effect_witness:
  "\<exists>w'. SetUserRoles demo_env ann ann_admin (uid 2) [uid 13] demo_world = (Inr (), w')
     \<and> {r. (uid 2, r) \<in> set (user_roles (db w'))} = {uid 13}"
proof -
  have "userID ann \<in> u_id ` set (users demo_db)" "uid 2 \<in> u_id ` set (users demo_db)"
    "uid 13 \<in> r_id ` set (roles demo_db)" by (simp_all add: demo_defs ann_def)
  moreover have "''users.read'' \<in> AllPermissions" by code_simp
  ultimately have "fst (SetUserRoles demo_env ann ann_admin (uid 2) [uid 13] demo_world) = Inr ()"
    by (simp add: SetUserRoles_quiet demo_granted demo_admins)
  then obtain w' where "SetUserRoles demo_env ann ann_admin (uid 2) [uid 13] demo_world = (Inr (), w')"
    by (metis prod.collapse)
  with set_user_roles_effect [OF _ this] show ?thesis by simp
qed

text \<open>Ann, and a second administrator who left long ago.\<close>

definition idle_world :: world where
  "idle_world = demo_world\<lparr>db := demo_db\<lparr>users := users demo_db
       @ [(demo_user 3 ''carl@x'')\<lparr>u_is_active := False\<rparr>],
     user_roles := (uid 3, uid 11) # user_roles demo_db\<rparr>\<rparr>"

text \<open>
  C18: the check on removing roles counts deactivated
  administrators. In an installation with one active and one deactivated administrator it
  lets the active one give up the role, which leaves no active administrator; a deactivation
  would have been refused there.
\<close>

theorem role_removal_counts_inactive:
  "\<exists>w'. SetUserRoles demo_env ann ann_admin (uid 1) [uid 13] idle_world = (Inr (), w')
     \<and> active_admin (db idle_world) (uid 1) \<and> (\<forall>u. \<not> active_admin (db w') u)
     \<and> fst (SetUserActive demo_env (scanUser (demo_user 2 ''bob@x'')) (uid 1) False idle_world)
         = Inl ErrLastAdmin"
proof -
  let ?d = "db idle_world"
  have keys: "keys_ok ?d" by (simp add: idle_world_def) code_simp
  have admins: "holds_admin ?d u \<longleftrightarrow> u \<in> {uid 1, uid 3}" for u
    by (auto simp: idle_world_def holds_admin_def admin_row_def demo_defs RoleKeyAdmin_def)
  have some: "userID ann \<in> u_id ` set (users ?d)" "uid 1 \<in> u_id ` set (users ?d)"
    "uid 13 \<in> r_id ` set (roles ?d)" "granted ?d (uid 13) = {''users.read''}"
    "\<forall>r \<in> set (roles ?d). admin_row r \<longrightarrow> r_id r \<noteq> uid 13"
    "holders ?d RoleKeyAdmin = [uid 3, uid 1]" "fresh_audit demo_env ?d"
    by (auto simp: idle_world_def demo_defs ann_def granted_def admin_row_def holders_def
        RoleKeyAdmin_def fresh_audit_def)
  have "''users.read'' \<in> AllPermissions" by code_simp
  with keys some admins
  have "fst (SetUserRoles demo_env ann ann_admin (uid 1) [uid 13] idle_world) = Inr ()"
    by (simp add: SetUserRoles_quiet)
  then obtain w' where run:
    "SetUserRoles demo_env ann ann_admin (uid 1) [uid 13] idle_world = (Inr (), w')"
    by (metis prod.collapse)
  from SetUserRoles_Inr [OF keys run] obtain rs ev w1 where
    rs: "roleID ` set rs = {uid 13}"
    and d': "db w' = logged demo_env ev w1 (assign_roles (uid 1) (rolesToIDs rs) ?d)"
    by (metis (no_types) list.simps(15) empty_set)
  have "set (rolesToIDs rs) = {uid 13}" using rs by (simp add: rolesToIDs_def)
  then have "holds_admin (db w') u \<Longrightarrow> u = uid 3" for u
    using admins [of u] some(5)
    by (auto simp: d' logged_def assign_roles_def holds_admin_def)
  moreover have "users (db w') = users ?d" by (simp add: d' logged_def assign_roles_def)
  then have "\<not> (\<exists>x \<in> set (users (db w')). u_id x = uid 3 \<and> u_is_active x)"
    by (simp add: idle_world_def demo_defs)
  ultimately have "\<not> active_admin (db w') u" for u
    unfolding active_admin_def by metis
  moreover have act: "active_admin ?d u \<longleftrightarrow> u = uid 1" for u
    using admins by (auto simp: active_admin_def idle_world_def demo_defs)
  moreover have "length (active_holders ?d RoleKeyAdmin) \<le> 1"
    using distinct_card [OF distinct_active_holders, of ?d RoleKeyAdmin] act
    by (simp add: set_active_holders)
  moreover have "quiet demo_env" by simp
  ultimately show ?thesis
    using run keys admins
    by (simp add: SetUserActive_def InTx_quiet bind_op_def last_active_admin_check_quiet demo_user_def)
qed

section \<open>Deleting a role\<close>

lemma repo_DeleteRole_quiet:
  assumes "quiet e" "row \<in> set (roles (db w))" "r_id row = rid" "\<not> r_is_system row"
  shows "fst (repo_DeleteRole e rid w)
    = (if rid \<in> snd ` set (user_roles (db w)) then Inl ErrRoleInUse else Inr ())"
    and "users (db (snd (repo_DeleteRole e rid w))) = users (db w)"
    and "audit_log (db (snd (repo_DeleteRole e rid w))) = audit_log (db w)"
proof -
  have "custom_role rid row" using assms(3,4) by (simp add: custom_role_def)
  then have n: "count_where (custom_role rid) (roles (db w)) \<noteq> 0"
    using assms(2) by (auto simp: count_where_0_iff)
  have "list_ex (\<lambda>(_, r). r = rid) (user_roles (db w)) \<longleftrightarrow> rid \<in> snd ` set (user_roles (db w))"
    by (force simp: list_ex_iff)
  with n assms(1) show "fst (repo_DeleteRole e rid w)
      = (if rid \<in> snd ` set (user_roles (db w)) then Inl ErrRoleInUse else Inr ())"
    "users (db (snd (repo_DeleteRole e rid w))) = users (db w)"
    "audit_log (db (snd (repo_DeleteRole e rid w))) = audit_log (db w)"
    by (simp_all add: repo_DeleteRole_def bind_op_def delete_role_def Let_def
        isForeignKeyViolation_def)
qed

lemma DeleteRole_quiet:
  assumes "quiet e" "keys_ok (db w)" "fresh_audit e (db w)"
    and "userID actor \<in> u_id ` set (users (db w))"
  shows "fst (DeleteRole e actor access rid w) =
    (case find (\<lambda>r. r_id r = rid) (roles (db w)) of
       None \<Rightarrow> Inl ErrNotFound
     | Some row \<Rightarrow>
         if r_is_system row then Inl ErrSystemRole
         else if \<not> granted (db w) rid \<subseteq> Permissions access
           then Inl (ErrEscalation (sorted_list_of_set (granted (db w) rid - Permissions access)))
         else if rid \<in> snd ` set (user_roles (db w)) then Inl ErrRoleInUse
         else Inr ())"
proof -
  note get = repo_GetRole_quiet [OF assms(1), of "tick w" rid, simplified, OF assms(2)]
  show ?thesis
  proof (cases "find (\<lambda>r. r_id r = rid) (roles (db w))")
    case None
    with get assms(1) show ?thesis by (simp add: DeleteRole_def InTx_quiet bind_op_def)
  next
    case (Some row)
    then have row: "row \<in> set (roles (db w))" "r_id row = rid" by (auto dest: find_SomeD)
    note del = repo_DeleteRole_quiet [OF assms(1), of row "tick (tick w)" rid, simplified, OF row]
    obtain y w2 where run: "repo_DeleteRole e rid (tick (tick w)) = (y, w2)" by fastforce
    let ?ev = "Event (Some (userID actor)) ActionRoleDeleted ''role'' (uuid_String e rid)
         [(''key'', JStr (r_key row))]"
    have log: "\<not> r_is_system row \<Longrightarrow>
        Record e ?ev w2 = (Inr (), (tick w2)\<lparr>db := logged e ?ev w2 (db w2)\<rparr>)"
      using assms(1,3,4) del(2,3) run
      by (intro Record_quiet) (simp_all add: fresh_audit_def Event_def)
    show ?thesis
      using get assms(1) Some row(2) del(1) run log
      by (simp add: DeleteRole_def InTx_quiet bind_op_def lift_op_def checkEscalation_eq
          split: sum.split)
  qed
qed



section \<open>Creating and editing a role\<close>

text \<open>
  C20: a created role is a new custom role with exactly the permissions
  asked for, all of them permissions the application enforces and the caller holds. Its key
  is well formed and was free. Nobody holds it yet, and no other role changes.
\<close>

theorem create_role_effect:
  assumes "keys_ok (db w)" "CreateRole e actor access key0 name0 perms w = (Inr r, w')"
  shows "roleID r \<notin> r_id ` set (roles (db w)) \<and> Key r \<notin> r_key ` set (roles (db w))
   \<and> roleKeyPattern (Key r) \<and> length (Key r) \<le> 63 \<and> \<not> IsSystem r
   \<and> rolePermissions r = set perms \<and> granted (db w') (roleID r) = set perms
   \<and> set perms \<subseteq> AllPermissions \<inter> Permissions access
   \<and> (\<forall>i. i \<noteq> roleID r \<longrightarrow> granted (db w') i = granted (db w) i)
   \<and> user_roles (db w') = user_roles (db w)
   \<and> (\<exists>row. r_id row = roleID r \<and> r_key row = Key r \<and> roles (db w') = roles (db w) @ [row])"
proof -
  from assms(2) obtain key name s row ev w1 where
    v: "validateRoleInput e key0 name0 perms = Inr (key, name, s)" and
    sub: "s \<subseteq> Permissions access" and
    new: "r_id row \<notin> r_id ` set (roles (db w))" "key \<notin> r_key ` set (roles (db w))" and
    row: "r_key row = key" "\<not> r_is_system row" "r = role_of row s" and
    w': "db w' = logged e ev w1
       (put_permissions (r_id row) s ((db w)\<lparr>roles := roles (db w) @ [row]\<rparr>))"
    by (metis CreateRole_Inr)
  note ok = validateRoleInput_Inr [OF v]
  have fin: "finite s" using ok(2) by (rule finite_granting)
  have g: "granted (db w') i = (if i = r_id row then s else granted (db w) i)" for i
    using granted_put [OF fin, of "r_id row" "(db w)\<lparr>roles := roles (db w) @ [row]\<rparr>" i]
    by (simp add: w' logged_def granted_def)
  have "roles (db w') = roles (db w) @ [row]" "user_roles (db w') = user_roles (db w)"
    by (simp_all add: w' logged_def put_permissions_def)
  then show ?thesis
    using new row ok sub g by (auto simp: role_of_def)
qed


lemma demo_validate:
  "validateRoleInput demo_env ''help'' ''Help'' [''users.read''] = Inr (''help'', ''Help'', {''users.read''})"
  "validateRoleInput demo_env ''placeholder'' ''Help'' [''users.read'']
     = Inr (''placeholder'', ''Help'', {''users.read''})"
  by code_simp+

lemma demo_enforced [simp]: "''users.read'' \<in> AllPermissions" "''users.update'' \<in> AllPermissions"
  by code_simp+

lemma demo_in_catalog: "list_ex (\<lambda>(k, _). k = ''users.read'') Catalog"
  by code_simp

lemma demo_create:
  "\<exists>r w'. CreateRole demo_env ann ann_admin ''help'' ''Help'' [''users.read''] demo_world = (Inr r, w')"
proof -
  have chk: "checkEscalation ann_admin {''users.read''} = Inr ()" by simp
  show ?thesis
    by (simp add: CreateRole_def demo_validate lift_op_def bind_op_def InTx_quiet chk)
      (simp add: refuse_key_taken_def repo_GetRoleByKey_def select_roles_def op_simps join_roles_def
        left_joins_def collectRoles_def fan_in_def one_role_def demo_defs isNotFound_def
        repo_CreateRole_def insert_role_def replaceRolePermissions_def Slice_def
        insert_role_permission_def demo_in_catalog Event_def ann_def)
qed

theorem create_role_effect_witness:
  "\<exists>r w'. CreateRole demo_env ann ann_admin ''help'' ''Help'' [''users.read''] demo_world = (Inr r, w')
     \<and> granted (db w') (roleID r) = {''users.read''}"
proof -
  obtain r w' where run:
    "CreateRole demo_env ann ann_admin ''help'' ''Help'' [''users.read''] demo_world = (Inr r, w')"
    using demo_create by blast
  from create_role_effect [OF _ run] show ?thesis using run by simp
qed

lemma demo_update:
  "\<exists>r w'. UpdateRole demo_env ann ann_admin (uid 13) ''Help'' [''users.read''] demo_world = (Inr r, w')"
proof -
  have "find (\<lambda>r. r_id r = uid 13) (roles demo_db) = Some (demo_role 13 ''support'' False)"
    by (simp add: demo_defs)
  then have get: "repo_GetRole demo_env (uid 13) (tick demo_world)
      = (Inr (full_role demo_db (demo_role 13 ''support'' False)), tick (tick demo_world))"
    by (simp add: repo_GetRole_quiet)
  have row: "rolePermissions (full_role demo_db (demo_role 13 ''support'' False)) = {''users.read''}"
    "\<not> IsSystem (full_role demo_db (demo_role 13 ''support'' False))"
    by (simp_all add: demo_role_def demo_granted)
  have chk: "checkEscalation ann_admin {''users.read''} = Inr ()" by simp
  show ?thesis
    by (simp add: UpdateRole_def demo_validate lift_op_def bind_op_def InTx_quiet get chk row
        del: IsSystem_full permissions_full)
      (simp add: op_simps repo_UpdateRole_def demo_defs custom_role_def rename_role_def
        replaceRolePermissions_def Slice_def insert_role_permission_def demo_in_catalog Event_def
        ann_def)
qed


end
