(* ===== verification/Link_Theorems.thy ===== *)
theory Link_Theorems
  imports Role_Theorems
begin

text \<open>
  Theorems on the links the application mails out: a link works once, what resetting a
  password and accepting an invitation leave behind, and what the requests for a link answer.
\<close>

section \<open>One-time tokens\<close>

text \<open>
  What the three kinds of link have in common: redeeming one needs a live row under the hash
  of the token, and leaves none that is live now or later.
\<close>

locale one_time_token =
  fixes redeem :: "env \<Rightarrow> string \<Rightarrow> 'x \<Rightarrow> 'a op"
    and live :: "env \<Rightarrow> bytes \<Rightarrow> database \<Rightarrow> bool"
    and ok :: "database \<Rightarrow> bool"
  assumes needs: "ok (db w) \<Longrightarrow> redeem e token x w = (Inr y, w') \<Longrightarrow>
      live e (HashToken e token) (db w)"
    and spends: "ok (db w) \<Longrightarrow> redeem e token x w = (Inr y, w') \<Longrightarrow> sql_now e \<le> sql_now e' \<Longrightarrow>
      \<not> live e' (HashToken e token) (db w')"
    and keeps_ok: "ok (db w) \<Longrightarrow> redeem e token x w = (Inr y, w') \<Longrightarrow> ok (db w')"
begin

lemma once:
  assumes "ok (db w)" "redeem e token x w = (Inr y, w')" "db w1 = db w'"
    and "sql_now e \<le> sql_now e'" "HashToken e' token = HashToken e token"
  shows "\<exists>err. fst (redeem e' token x' w1) = Inl err"
proof (cases "redeem e' token x' w1")
  case (Pair r w2)
  show ?thesis
  proof (cases r)
    case (Inr y')
    have "ok (db w1)" using keeps_ok [OF assms(1,2)] assms(3) by simp
    from needs [OF this] Pair Inr have "live e' (HashToken e' token) (db w1)" by blast
    with spends [OF assms(1,2,4)] assms(3,5) show ?thesis by simp
  qed (simp add: Pair)
qed

lemma dead_refused:
  assumes "ok (db w)" "\<not> live e (HashToken e token) (db w)"
  shows "\<exists>err. fst (redeem e token x w) = Inl err"
proof (cases "redeem e token x w")
  case (Pair r w2)
  with needs [OF assms(1)] assms(2) show ?thesis by (cases r) auto
qed

end

section \<open>Password resets\<close>

lemma spend_resets_frame [simp]:
  "users (spend_resets e P d) = users d" "sessions (spend_resets e P d) = sessions d"
  "audit_log (spend_resets e P d) = audit_log d"
  by (simp_all add: spend_resets_def)

lemma resets_frame [simp]:
  "password_resets (set_password e i h d) = password_resets d"
  "password_resets (snd (revoke_sessions e P d)) = password_resets d"
  "users (snd (revoke_sessions e P d)) = users d"
  "sessions (set_password e i h d) = sessions d"
  by (simp_all add: set_password_def revoke_sessions_def Let_def)

lemma spend_resets_sessions:
  "snd (revoke_sessions e P (spend_resets e' Q d)) = spend_resets e' Q (snd (revoke_sessions e P d))"
  by (simp add: spend_resets_def revoke_sessions_def Let_def)

text \<open>What a successful reset writes.\<close>

definition reset_to :: "env \<Rightarrow> bytes \<Rightarrow> uuid \<Rightarrow> string \<Rightarrow> database \<Rightarrow> database" where
  "reset_to e digest i hash d =
    spend_resets e (\<lambda>r. pr_user_id r = i \<and> pr_used_at r = None)
      (snd (revoke_sessions e (\<lambda>s. s_user_id s = i)
        (set_password e i hash (spend_resets e (live_reset e digest) d))))"

lemma ResetPassword_Inr:
  assumes "ResetPassword e token pw w = (Inr x, w')"
  obtains r hash ev w1 w2 w3 where "validatePassword e pw = Inr ()"
    "Hash e (service_hasher e) pw w = (Inr hash, w1)"
    "r \<in> set (password_resets (db w))" "live_reset e (HashToken e token) r"
    "pr_user_id r \<in> u_id ` set (users (db w))"
    "db w' = logged e ev w3 (reset_to e (HashToken e token) (pr_user_id r) hash (db w))"
proof -
  from assms obtain hash i n x1 x2 w1 w2 w3 w4 w5 w6 where
    v: "validatePassword e pw = Inr ()" and
    hash: "Hash e (service_hasher e) pw w = (Inr hash, w1)" and
    con: "ConsumePasswordReset e (HashToken e token) (tick w1) = (Inr i, w2)" and
    up: "UpdateUserPassword e i hash w2 = (Inr x1, w3)" and
    rev: "RevokeUserSessions e i w3 = (Inr n, w4)" and
    inv: "InvalidatePasswordResets e i w4 = (Inr x2, w5)" and
    log: "Record e (Event (Some i) ActionPasswordReset ''user'' (uuid_String e i)
        [(''sessions_revoked'', JInt (int n))]) w5 = (Inr (), w6)" and w': "w' = tick w6"
    by (auto simp: ResetPassword_def bind_op_Inr_iff InTx_Inr_iff)
  have d1: "db w1 = db w" using read_db [OF reading.obeys_Hash hash] .
  from con obtain r where r: "find (live_reset e (HashToken e token)) (password_resets (db w)) = Some r"
    "i = pr_user_id r" and d2: "db w2 = spend_resets e (live_reset e (HashToken e token)) (db w)"
    using d1 by (auto simp: ConsumePasswordReset_def bind_op_Inr_iff exec_Inr_iff
        split: option.splits)
  note d3 = UpdateUserPassword_Inr [OF up]
  note d4 = RevokeUserSessions_Inr(2) [OF rev]
  have d5: "db w5 = spend_resets e (\<lambda>r. pr_user_id r = i \<and> pr_used_at r = None) (db w4)"
    using inv by (auto simp: InvalidatePasswordResets_def exec_Inr_iff)
  have "db w5 = reset_to e (HashToken e token) i hash (db w)"
    by (simp add: reset_to_def d5 d4 d3(2) d2)
  with Record_logged [OF log] w' have "db w' = logged e (Event (Some i) ActionPasswordReset ''user''
      (uuid_String e i) [(''sessions_revoked'', JInt (int n))]) w5
      (reset_to e (HashToken e token) i hash (db w))" by simp
  moreover have "i \<in> u_id ` set (users (db w))" using d3(1) d2 by simp
  ultimately show ?thesis using r by (intro that [OF v hash]) (auto dest: find_SomeD)
qed

lemma reset_to_spent:
  assumes "sql_now e \<le> sql_now e'" "r \<in> set (password_resets (reset_to e digest i hash d))"
  shows "\<not> live_reset e' digest r" "pr_user_id r = i \<Longrightarrow> pr_used_at r \<noteq> None"
proof -
  from assms(2) obtain r1 where r1: "r1 \<in> set (password_resets (spend_resets e (live_reset e digest) d))"
    "r = (if pr_user_id r1 = i \<and> pr_used_at r1 = None then r1\<lparr>pr_used_at := Some (sql_now e)\<rparr> else r1)"
    by (auto simp: reset_to_def spend_resets_def [of e "\<lambda>r. pr_user_id r = i \<and> pr_used_at r = None"]
        set_update_where)
  then show "pr_user_id r = i \<Longrightarrow> pr_used_at r \<noteq> None" by (auto split: if_splits)
  from r1(1) have "\<not> live_reset e digest r1"
    unfolding spend_resets_def by (simp, elim in_update_whereE) (auto simp: live_reset_def)
  with r1(2) assms(1) show "\<not> live_reset e' digest r"
    by (auto simp: live_reset_def split: if_splits)
qed

interpretation reset_link: one_time_token ResetPassword
  "\<lambda>e digest d. \<exists>r \<in> set (password_resets d). live_reset e digest r" "\<lambda>_. True"
proof (unfold_locales, goal_cases)
  case (1 w e token x y w')
  show ?case by (rule ResetPassword_Inr [OF 1(2)]) blast
next
  case (2 w e token x y w' e')
  show ?case
    by (rule ResetPassword_Inr [OF 2(2)])
      (auto simp: logged_def dest: reset_to_spent(1) [OF 2(3)])
qed simp

section \<open>Email verifications\<close>

lemma VerifyEmail_Inr:
  assumes "VerifyEmail e token w = (Inr u, w')"
  obtains r x ev w1 where "r \<in> set (email_verifications (db w))"
    "live_verification e (HashToken e token) r"
    "x \<in> set (users (db w))" "u_id x = ev_user_id r" "citext_eq e (u_email x) (ev_email r)"
    "u = scanUser (x\<lparr>u_email_verified_at := Some (sql_now e), u_updated_at := sql_now e\<rparr>)"
    "db w' = logged e ev w1 ((spend_verifications e (live_verification e (HashToken e token)) (db w))
       \<lparr>users := update_where (\<lambda>x. u_id x = ev_user_id r \<and> citext_eq e (u_email x) (ev_email r))
         (\<lambda>x. x\<lparr>u_email_verified_at := Some (sql_now e), u_updated_at := sql_now e\<rparr>)
         (users (db w))\<rparr>)"
proof -
  let ?live = "live_verification e (HashToken e token)"
  let ?f = "\<lambda>x. x\<lparr>u_email_verified_at := Some (sql_now e), u_updated_at := sql_now e\<rparr>"
  from assms obtain i email w1 w2 w3 where
    con: "ConsumeEmailVerification e (HashToken e token) (tick w) = (Inr (i, email), w1)" and
    mark: "MarkEmailVerified e i email w1 = (Inr u, w2)" and
    log: "Record e (Event (Some i) ActionEmailVerified ''user'' (uuid_String e i)
         [(''email'', JStr email)]) w2 = (Inr (), w3)" and w': "w' = tick w3"
    by (auto simp: VerifyEmail_def bind_op_Inr_iff InTx_Inr_iff)
  from con obtain r where r: "find ?live (email_verifications (db w)) = Some r"
    "i = ev_user_id r" "email = ev_email r" and d1: "db w1 = spend_verifications e ?live (db w)"
    by (auto simp: ConsumeEmailVerification_def bind_op_Inr_iff exec_Inr_iff split: option.splits)
  let ?P = "\<lambda>x. u_id x = i \<and> citext_eq e (u_email x) email"
  have same: "users (db w1) = users (db w)" by (simp add: d1 spend_verifications_def)
  from mark same obtain x where x: "find ?P (users (db w)) = Some x" "u = scanUser (?f x)" and
    d2: "db w2 = (db w1)\<lparr>users := update_where ?P ?f (users (db w))\<rparr>"
    by (auto simp: MarkEmailVerified_def bind_op_Inr_iff exec_Inr_iff update_user_def
        split: option.splits)
  from Record_logged [OF log] w' d1 d2 r(2,3) have "db w' = logged e (Event (Some i)
      ActionEmailVerified ''user'' (uuid_String e i) [(''email'', JStr email)]) w2
      ((spend_verifications e ?live (db w))\<lparr>users := update_where
        (\<lambda>x. u_id x = ev_user_id r \<and> citext_eq e (u_email x) (ev_email r)) ?f (users (db w))\<rparr>)"
    by simp
  with r x find_SomeD [OF r(1)] find_SomeD [OF x(1)] show ?thesis by (intro that) auto
qed

interpretation verify_link: one_time_token "\<lambda>e token (_ :: unit). VerifyEmail e token"
  "\<lambda>e digest d. \<exists>r \<in> set (email_verifications d). live_verification e digest r" "\<lambda>_. True"
proof (unfold_locales, goal_cases)
  case (1 w e token x y w')
  show ?case by (rule VerifyEmail_Inr [OF 1(2)]) blast
next
  case (2 w e token x y w' e')
  from 2(3) show ?case
    by (rule_tac VerifyEmail_Inr [OF 2(2)])
      (auto simp: logged_def spend_verifications_def live_verification_def set_update_where)
qed simp

section \<open>Invitations\<close>

definition invitations_ok :: "database \<Rightarrow> bool" where
  "invitations_ok d \<longleftrightarrow> keys_ok d \<and> distinct (map i_token_hash (invitations d))"

definition live_invitation :: "env \<Rightarrow> bytes \<Rightarrow> database \<Rightarrow> bool" where
  "live_invitation e digest d \<longleftrightarrow> (\<exists>i \<in> set (invitations d). i_token_hash i = digest
     \<and> open_invitation i \<and> i_expires_at i > sql_now e)"

lemma invitations_admit: "invitations (admit e i row d)
    = update_where (acceptable e (i_id i)) (accept_row e) (invitations d)"
  by (simp add: admit_def)

interpretation invitation_link: one_time_token
  "\<lambda>e token (password, fn, ln). AcceptInvitation e token password fn ln"
  live_invitation invitations_ok
proof (unfold_locales, goal_cases)
  case (1 w e token x y w')
  obtain password fn ln where x: "x = (password, fn, ln)" by (cases x)
  from 1 show ?case unfolding x split
    by (elim AcceptInvitation_Inr [rotated]) (auto simp: live_invitation_def invitations_ok_def)
next
  case (2 w e token x y w' e')
  obtain password fn ln where x: "x = (password, fn, ln)" by (cases x)
  from 2(1) have keys: "keys_ok (db w)" and tokens: "distinct (map i_token_hash (invitations (db w)))"
    by (simp_all add: invitations_ok_def)
  from 2(2) obtain i row ev w1 where i: "i \<in> set (invitations (db w))"
    "i_token_hash i = HashToken e token" "db w' = logged e ev w1 (admit e i row (db w))"
    unfolding x split by (elim AcceptInvitation_Inr [OF keys]) blast
  show ?case
  proof
    assume "live_invitation e' (HashToken e token) (db w')"
    then obtain j where j: "j \<in> set (update_where (acceptable e (i_id i)) (accept_row e)
        (invitations (db w)))" "i_token_hash j = HashToken e token" "open_invitation j"
      "i_expires_at j > sql_now e'"
      by (auto simp: live_invitation_def i(3) logged_def invitations_admit)
    then have "j \<in> set (invitations (db w))" "\<not> acceptable e (i_id i) j"
      by (auto elim!: in_update_whereE simp: accept_row_def open_invitation_def)
    moreover from this i(1,2) j(2) tokens have "j = i" by (metis distinct_map_eqD)
    ultimately show False using j(3,4) 2(3) by (simp add: acceptable_def)
  qed
next
  case (3 w e token x y w')
  obtain password fn ln where x: "x = (password, fn, ln)" by (cases x)
  from 3(1) have keys: "keys_ok (db w)" and tokens: "distinct (map i_token_hash (invitations (db w)))"
    by (simp_all add: invitations_ok_def)
  have run: "AcceptInvitation e token password fn ln w = (Inr y, w')" using 3(2) x by simp
  then obtain i row ev w1 where d': "db w' = logged e ev w1 (admit e i row (db w))"
    by (elim AcceptInvitation_Inr [OF keys]) blast
  have "obeys lawful (AcceptInvitation e token password fn ln)" by (intro obeys_intros)
  from obeysD [OF this run] keys have "keys_ok (db w')" by (simp add: lawful_def)
  moreover have "map i_token_hash (invitations (db w')) = map i_token_hash (invitations (db w))"
    by (simp add: d' logged_def invitations_admit accept_row_def)
  ultimately show ?case using tokens by (simp add: invitations_ok_def)
qed

section \<open>Theorems\<close>

text \<open>
  C22: a link of any of the three kinds works once. After a password reset, an
  email verification or the acceptance of an invitation, the same token is refused, then or
  at any later time.
\<close>

theorem links_work_once:
  assumes "db w1 = db w'" "sql_now e \<le> sql_now e'" "HashToken e' token = HashToken e token"
  shows "(ResetPassword e token pw w = (Inr x, w') \<longrightarrow>
            (\<exists>err. fst (ResetPassword e' token pw' w1) = Inl err))
   \<and> (VerifyEmail e token w = (Inr u, w') \<longrightarrow> (\<exists>err. fst (VerifyEmail e' token w1) = Inl err))
   \<and> (AcceptInvitation e token pw fn ln w = (Inr v, w') \<longrightarrow> invitations_ok (db w) \<longrightarrow>
            (\<exists>err. fst (AcceptInvitation e' token pw' fn' ln' w1) = Inl err))"
  using reset_link.once [OF TrueI _ assms, where x = pw and w = w and y = x and x' = pw']
    verify_link.once [OF TrueI _ assms, where w = w and y = u]
    invitation_link.once [OF _ _ assms, where w = w and x = "(pw, fn, ln)" and y = v
        and x' = "(pw', fn', ln')"]
  by auto

lemma demo_reset:
  "\<exists>w'. ResetPassword demo_env ''reset'' ''new-password'' demo_world = (Inr (), w')"
  by (simp add: ResetPassword_def op_simps validatePassword_def demo_auth_def Hash_def
      rand_Read_def)
    (simp add: ConsumePasswordReset_def live_reset_def HashToken_def spend_resets_def op_simps
      UpdateUserPassword_def update_user_def RevokeUserSessions_def revoke_sessions_def
      InvalidatePasswordResets_def demo_defs Event_def)

theorem links_work_once_witness:
  "\<exists>w'. ResetPassword demo_env ''reset'' ''new-password'' demo_world = (Inr (), w')
     \<and> (\<exists>err. fst (ResetPassword demo_env ''reset'' ''other-password'' w') = Inl err)"
proof -
  obtain w' where run: "ResetPassword demo_env ''reset'' ''new-password'' demo_world = (Inr (), w')"
    using demo_reset by blast
  with links_work_once [of w' w' demo_env demo_env "''reset''" "''new-password''" demo_world "()"
      "''other-password''" undefined "''''" "''''" undefined "''''" "''''"]
  show ?thesis by simp
qed

text \<open>
  C23: a successful reset had a live link and an acceptable password.
  Afterwards the owner of the link has the new password, every session of theirs is closed,
  and every reset link they were ever sent is spent.
\<close>

theorem reset_password_effect:
  assumes "argon2_sized e" "ResetPassword e token pw w = (Inr x, w')"
  shows "\<exists>r \<in> set (password_resets (db w)). live_reset e (HashToken e token) r
   \<and> MinPasswordLength (auth_cfg e) \<le> int (length pw)
   \<and> (\<forall>y \<in> set (users (db w')). u_id y = pr_user_id r \<longrightarrow>
        (\<exists>h. u_password_hash y = Some h \<and> Verify e pw h = Match))
   \<and> (\<forall>s \<in> set (sessions (db w')). s_user_id s = pr_user_id r \<longrightarrow> s_revoked_at s \<noteq> None)
   \<and> (\<forall>r' \<in> set (password_resets (db w')). pr_user_id r' = pr_user_id r \<longrightarrow> pr_used_at r' \<noteq> None)"
proof -
  from assms(2) obtain r hash ev w1 w3 where
    v: "validatePassword e pw = Inr ()" and
    hash: "Hash e (service_hasher e) pw w = (Inr hash, w1)" and
    r: "r \<in> set (password_resets (db w))" "live_reset e (HashToken e token) r" and
    d': "db w' = logged e ev w3 (reset_to e (HashToken e token) (pr_user_id r) hash (db w))"
    by (rule ResetPassword_Inr)
  let ?i = "pr_user_id r" let ?d = "reset_to e (HashToken e token) ?i hash (db w)"
  have users: "users ?d = users (set_password e ?i hash (db w))"
    by (simp add: reset_to_def) (simp add: set_password_def)
  have pw: "\<forall>y \<in> set (users ?d). u_id y = ?i \<longrightarrow>
      (\<exists>h. u_password_hash y = Some h \<and> Verify e pw h = Match)"
    using Hash_reads_back(1) [OF assms(1) hash] unfolding users by (simp add: set_password_hash)
  have closed: "no_session ?i ?d"
    using revoke_sessions_no_session [of ?i e] by (simp add: reset_to_def no_session_def)
  have spent: "\<forall>r' \<in> set (password_resets ?d). pr_user_id r' = ?i \<longrightarrow> pr_used_at r' \<noteq> None"
    using reset_to_spent(2) [OF order_refl] by blast
  from v have len: "MinPasswordLength (auth_cfg e) \<le> int (length pw)"
    by (simp add: validatePassword_def split: if_splits)
  show ?thesis
    by (rule bexI [OF _ r(1)])
      (use r(2) len pw closed spent in \<open>simp add: d' logged_def no_session_def\<close>)
qed

theorem reset_password_effect_witness:
  "\<exists>w'. ResetPassword demo_env ''reset'' ''new-password'' demo_world = (Inr (), w')
     \<and> (\<exists>i. \<forall>s \<in> set (sessions (db w')). s_user_id s = i \<longrightarrow> s_revoked_at s \<noteq> None)"
  using demo_reset reset_password_effect [OF demo_argon2_sized] by blast

text \<open>
  A verification marks the address it was sent to, and only while the
  account still has that address. It needs a live link, changes nothing else of the account,
  and no other account.
\<close>

lemma verify_email_effect:
  assumes "keys_ok (db w)" "VerifyEmail e token w = (Inr u, w')"
  shows "\<exists>r \<in> set (email_verifications (db w)). \<exists>x \<in> set (users (db w)).
     live_verification e (HashToken e token) r \<and> u_id x = ev_user_id r
   \<and> citext_eq e (u_email x) (ev_email r)
   \<and> users (db w') = map (\<lambda>y. if u_id y = u_id x
       then y\<lparr>u_email_verified_at := Some (sql_now e), u_updated_at := sql_now e\<rparr> else y)
       (users (db w))
   \<and> IsVerified u \<and> userID u = u_id x
   \<and> changes_only {TUsers, TVerifications, TAudit} (db w) (db w')"
proof -
  let ?f = "\<lambda>x. x\<lparr>u_email_verified_at := Some (sql_now e), u_updated_at := sql_now e\<rparr>"
  from assms(2) obtain r x ev w1 where r: "r \<in> set (email_verifications (db w))"
    "live_verification e (HashToken e token) r" and
    x: "x \<in> set (users (db w))" "u_id x = ev_user_id r" "citext_eq e (u_email x) (ev_email r)" and
    u: "u = scanUser (?f x)" and
    d': "db w' = logged e ev w1 ((spend_verifications e (live_verification e (HashToken e token)) (db w))
       \<lparr>users := update_where (\<lambda>x. u_id x = ev_user_id r \<and> citext_eq e (u_email x) (ev_email r)) ?f
         (users (db w))\<rparr>)"
    by (rule VerifyEmail_Inr)
  have "update_where (\<lambda>x. u_id x = ev_user_id r \<and> citext_eq e (u_email x) (ev_email r)) ?f
      (users (db w)) = map (\<lambda>y. if u_id y = u_id x then ?f y else y) (users (db w))"
    unfolding update_where_def
  proof (rule map_cong [OF refl])
    fix y assume "y \<in> set (users (db w))"
    with x keys_okD(1) [OF assms(1)] have "u_id y = u_id x \<Longrightarrow> y = x" by (auto dest: distinct_map_eqD)
    with x show "(if u_id y = ev_user_id r \<and> citext_eq e (u_email y) (ev_email r) then ?f y else y)
        = (if u_id y = u_id x then ?f y else y)" by auto
  qed
  then have "users (db w') = map (\<lambda>y. if u_id y = u_id x then ?f y else y) (users (db w))"
    by (simp add: d' logged_def)
  moreover have "changes_only {TUsers, TVerifications, TAudit} (db w) (db w')"
    by (rule changes_onlyI) (simp_all add: d' logged_def spend_verifications_def)
  moreover have "IsVerified u" "userID u = u_id x" by (simp_all add: u IsVerified_def)
  ultimately show ?thesis using r x by blast
qed

lemma demo_verify: "\<exists>u w'. VerifyEmail demo_env ''verify'' demo_world = (Inr u, w')"
  by (simp add: VerifyEmail_def op_simps ConsumeEmailVerification_def live_verification_def
      HashToken_def spend_verifications_def MarkEmailVerified_def update_user_def demo_defs
      citext_eq_def Event_def)

text \<open>
  C24: an accepted invitation was open and unexpired on both clocks.
  It becomes one new account, active, verified, no superuser, with the invited address and
  the invited role; the other accounts, sessions and roles are as they were, and no other
  invitation changes.
\<close>

theorem accept_invitation_effect:
  assumes "keys_ok (db w)" "AcceptInvitation e token password fn ln w = (Inr u, w')"
  shows "\<exists>i \<in> set (invitations (db w)). \<exists>row. i_token_hash i = HashToken e token
   \<and> open_invitation i \<and> i_expires_at i > go_now e \<and> i_expires_at i > sql_now e
   \<and> users (db w') = users (db w) @ [row] \<and> u = scanUser row
   \<and> u_id row \<notin> u_id ` set (users (db w)) \<and> u_email row = i_email i
   \<and> u_is_active row \<and> \<not> u_is_superuser row \<and> IsVerified u
   \<and> (u_id row, i_role_id i) \<in> set (user_roles (db w'))
   \<and> set (user_roles (db w')) \<subseteq> insert (u_id row, i_role_id i) (set (user_roles (db w)))
   \<and> invitations (db w') = map (\<lambda>j. if i_id j = i_id i
       then j\<lparr>i_accepted_at := Some (sql_now e)\<rparr> else j) (invitations (db w))
   \<and> changes_only {TUsers, TUserRoles, TInvitations, TAudit} (db w) (db w')"
proof -
  from assms obtain i r row ev w1 where
    i: "i \<in> set (invitations (db w))" "i_token_hash i = HashToken e token"
      "open_invitation i" "i_expires_at i > go_now e" "i_expires_at i > sql_now e" and
    u: "u = scanUser row" "u_id row \<notin> u_id ` set (users (db w))" "u_email row = i_email i"
      "u_is_active row" "\<not> u_is_superuser row" "u_email_verified_at row = Some (sql_now e)" and
    d': "db w' = logged e ev w1 (admit e i row (db w))"
    by (elim AcceptInvitation_Inr) blast
  have "update_where (acceptable e (i_id i)) (accept_row e) (invitations (db w))
      = map (\<lambda>j. if i_id j = i_id i then accept_row e j else j) (invitations (db w))"
    unfolding update_where_def
  proof (rule map_cong [OF refl])
    fix j assume "j \<in> set (invitations (db w))"
    with i(1) keys_okD(7) [OF assms(1)] have "i_id j = i_id i \<Longrightarrow> j = i"
      by (auto dest: distinct_map_eqD)
    with i show "(if acceptable e (i_id i) j then accept_row e j else j)
        = (if i_id j = i_id i then accept_row e j else j)" by (auto simp: acceptable_def)
  qed
  then have inv: "invitations (db w') = map (\<lambda>j. if i_id j = i_id i
      then j\<lparr>i_accepted_at := Some (sql_now e)\<rparr> else j) (invitations (db w))"
    by (simp add: d' logged_def invitations_admit accept_row_def cong: if_cong)
  have frame: "changes_only {TUsers, TUserRoles, TInvitations, TAudit} (db w) (db w')"
    by (rule changes_onlyI) (simp_all add: d' logged_def admit_def)
  have more: "users (db w') = users (db w) @ [row]" "IsVerified u"
    "(u_id row, i_role_id i) \<in> set (user_roles (db w'))"
    "set (user_roles (db w')) \<subseteq> insert (u_id row, i_role_id i) (set (user_roles (db w)))"
    using u by (auto simp: d' logged_def admit_def IsVerified_def)
  show ?thesis using i u inv frame more by blast
qed

lemma demo_accept:
  "\<exists>u w'. AcceptInvitation demo_env ''invite'' ''password'' '''' '''' demo_world = (Inr u, w')"
  by (simp add: AcceptInvitation_def op_simps validatePassword_def demo_auth_def Hash_def
      rand_Read_def)
    (simp add: GetInvitationByTokenHash_def invitationSelect_def with_role_def left_joins_def
      left_join_def perms_of_role_def collectInvitations_def fan_in_def scan_invitation_def
      invitation_of_def role_of_def op_simps demo_defs HashToken_def Pending_def
      repo_AcceptInvitation_def count_where_def acceptable_def open_invitation_def
      CreateUser_def insert_user_def TrimSpace_def trim_ends_def citext_eq_def scanUser_def
      phc_encode_def AddUserRole_def add_user_role_def insert_user_role_def
      MarkEmailVerified_def update_user_def Event_def)

theorem accept_invitation_effect_witness:
  "\<exists>u w'. AcceptInvitation demo_env ''invite'' ''password'' '''' '''' demo_world = (Inr u, w')
     \<and> (\<exists>row. users (db w') = users demo_db @ [row] \<and> u_email row = ''eve@x'')"
proof -
  obtain u w' where run: "AcceptInvitation demo_env ''invite'' ''password'' '''' '''' demo_world
      = (Inr u, w')" using demo_accept by blast
  from accept_invitation_effect [OF _ run] obtain i row where
    "i \<in> set (invitations demo_db)" "users (db w') = users demo_db @ [row]"
    "u_email row = i_email i" by auto
  moreover from this have "u_email row = ''eve@x''" by (simp add: demo_defs)
  ultimately show ?thesis using run by blast
qed

text \<open>
  Asking for a password reset never tells whether the account exists.
  Whatever the address, the account, the mailer and the database do, the service returns
  nothing and the route answers 204 with no body.
\<close>

lemma reset_request_blind:
  "fst (RequestPasswordReset e email meta w) = Inr ()
   \<and> fst (handleRequestPasswordReset s rq (Some email') e' c w')
       = Inr \<lparr>status = 204, headers = [], payload = NoBody\<rparr>"
proof
  have inf: "infallible (recordResetRequest e i m r)" for i m r
    unfolding recordResetRequest_def by (intro atomic_intros)
  have "fst (bind_op (attempt m) k v) = Inr ()" if "\<And>r v. fst (k r v) = Inr ()"
    for m :: "'b op" and k :: "error + 'b \<Rightarrow> unit op" and v
    using that by (simp add: bind_op_def attempt_def split: prod.split)
  note step = this
  have rec: "fst (recordResetRequest e i m r v) = Inr ()" for i m r v
    unfolding recordResetRequest_def by (rule step) simp
  show "fst (RequestPasswordReset e email meta w) = Inr ()"
    unfolding RequestPasswordReset_def Let_def
    by (rule step)
      (auto simp: rec send_op_def bind_op_def attempt_def
        split: sum.split prod.split)
  show "fst (handleRequestPasswordReset s rq (Some email') e' c w')
       = Inr \<lparr>status = 204, headers = [], payload = NoBody\<rparr>"
    by (simp add: handleRequestPasswordReset_def bind_op_def attempt_def noContent_def
        split: prod.split)
qed

lemma send_op_run:
  "send_op e msg w = (Inr sent, w') \<Longrightarrow> db w' = db w"
  "send_op e msg w \<noteq> (Inl err, w')"
  by (auto simp: send_op_def split: prod.splits)

text \<open>Operations that never answer with a given error.\<close>

definition never :: "error \<Rightarrow> 'a op \<Rightarrow> bool" where
  "never err m \<longleftrightarrow> (\<forall>w w'. m w \<noteq> (Inl err, w'))"

lemma never_basic:
  "never err (return_op a)" "never err (attempt m)" "err \<noteq> err' \<Longrightarrow> never err (fail_op err')"
  "err \<noteq> err' \<Longrightarrow> never err (refuse_if b err')"
  "r \<noteq> Inl err \<Longrightarrow> never err (lift_op r)"
  by (auto simp: never_def attempt_iff)

lemma never_bind: "never err m \<Longrightarrow> (\<And>a. never err (k a)) \<Longrightarrow> never err (bind_op m k)"
  by (auto simp: never_def bind_op_Inl_iff)

lemma never_attempt_bind:
  assumes "never err m" "\<And>a. never err (k (Inr a))" "\<And>err'. err' \<noteq> err \<Longrightarrow> never err (k (Inl err'))"
  shows "never err (bind_op (attempt m) k)"
  unfolding never_def
proof (intro allI notI)
  fix w w' assume run: "bind_op (attempt m) k w = (Inl err, w')"
  obtain r w1 where m: "m w = (r, w1)" by fastforce
  with run have "k r w1 = (Inl err, w')" by (simp add: bind_op_def attempt_def)
  with assms m show False
    by (cases r) (metis never_def, metis never_def)
qed

lemma never_query: "(\<And>pe. onerr pe \<noteq> err) \<Longrightarrow> never err (query e ts st onerr)"
  by (auto simp: never_def query_def Let_def split: if_splits sum.splits)

lemma never_statements:
  "(\<And>pe. ErrSQL pe \<noteq> err) \<Longrightarrow> never err (select e ts f)"
  "(\<And>pe. ErrSQL pe \<noteq> err) \<Longrightarrow> never err (exec e ts g)"
  by (simp_all add: select_def exec_def never_query)

lemma never_InTx: "ErrSQL ConnFailure \<noteq> err \<Longrightarrow> never err m \<Longrightarrow> never err (InTx e m)"
  by (auto simp: never_def InTx_def split: if_splits prod.splits sum.splits)

lemma never_if: "never err m \<Longrightarrow> never err n \<Longrightarrow> never err (if b then m else n)"
  by simp

lemmas never_intros = never_bind never_query never_statements never_InTx never_basic never_if

text \<open>
  C25: an invitation whose mail could not be sent exists all the same. The
  call answers \<open>ErrMailFailed\<close>, but the invitation is stored, open, for that address and role,
  in the caller's name, any older open one for the address is revoked, and it is in the log.
\<close>

theorem invite_mail_failure:
  assumes "Invite e actor access email0 rid w = (Inl ErrMailFailed, w')"
  shows "\<exists>i email. normalizeEmail e email0 = Inr email \<and> i \<in> set (invitations (db w'))
   \<and> i_id i \<notin> i_id ` set (invitations (db w)) \<and> open_invitation i \<and> i_email i = email
   \<and> i_invited_by i = Some (userID actor)
   \<and> (\<forall>j \<in> set (invitations (db w')). open_invitation j \<and> citext_eq e (i_email j) email \<longrightarrow> j = i)
   \<and> (\<exists>entry. audit_log (db w') = entry # audit_log (db w)
        \<and> a_action entry = ActionInvitationCreated)"
proof -
  have "never ErrMailFailed (repo_GetRole e rid)"
    unfolding repo_GetRole_def select_roles_def one_role_def
    by (intro never_intros) (auto intro!: never_intros split: list.split)
  moreover have "never ErrMailFailed (GetUserByEmail e email)" for email
    unfolding GetUserByEmail_def scanUserOrNotFound_def
    by (intro never_intros) (auto intro!: never_intros split: option.split)
  then have "never ErrMailFailed (refuse_taken e email)" for email
    unfolding refuse_taken_def
    by (intro never_attempt_bind) (auto intro!: never_intros)
  moreover have "never ErrMailFailed (NewToken e InvitationTokenPrefix)"
  proof -
    have "never ErrMailFailed (rand_Read e n)" for n
      by (simp add: never_def rand_Read_def split: option.split)
    then show ?thesis unfolding NewToken_def Let_def by (intro never_intros)
  qed
  moreover have "never ErrMailFailed (GetInvitation e iid)" for iid
    unfolding GetInvitation_def invitationSelect_def
    by (intro never_intros) (auto intro!: never_intros split: list.split)
  then have "never ErrMailFailed (issue_invitation e actor email r digest)" for email r digest
    unfolding issue_invitation_def RevokePendingInvitationFor_def CreateInvitation_def Record_def
      Let_def
    by (intro never_intros) auto
  ultimately have no_err: "never ErrMailFailed (repo_GetRole e rid)"
    "never ErrMailFailed (refuse_taken e email)"
    "never ErrMailFailed (NewToken e InvitationTokenPrefix)"
    "never ErrMailFailed (issue_invitation e actor email r digest)" for email r digest
    by blast+
  have "normalizeEmail e email0 \<noteq> Inl ErrMailFailed"
    by (simp add: normalizeEmail_def Let_def)
  moreover have "checkEscalation access g \<noteq> Inl ErrMailFailed" for g
    by (simp add: checkEscalation_def)
  ultimately obtain email r w1 w2 tok digest w3 iv w4 where
    norm: "normalizeEmail e email0 = Inr email" and
    get: "repo_GetRole e rid w = (Inr r, w1)" and
    taken: "refuse_taken e email w1 = (Inr (), w2)" and
    tok: "NewToken e InvitationTokenPrefix w2 = (Inr (tok, digest), w3)" and
    issue: "issue_invitation e actor email r digest w3 = (Inr iv, w4)" and
    send: "db w' = db w4"
    using assms no_err
    by (auto simp: Invite_def bind_op_Inl_iff never_def Let_def split: if_splits simp: send_op_run)
  have d3: "db w3 = db w"
    using read_db [OF reading.obeys_role_reads(2) get] read_db [OF reading.obeys_refusals(2) taken]
      NewToken_db [OF tok] by simp
  from issue obtain "is" row ev w5 where
    old: "\<forall>i \<in> set is. open_invitation i \<longrightarrow> i \<in> set (invitations (db w3))
       \<and> \<not> citext_eq e (i_email i) email" and
    row: "i_id row \<notin> i_id ` set (invitations (db w3))" "i_email row = email"
      "i_invited_by row = Some (userID actor)" "open_invitation row" and
    ev: "Action ev = ActionInvitationCreated" and
    d4: "db w4 = logged e ev w5 ((db w3)\<lparr>invitations := is @ [row]\<rparr>)"
    by (rule issue_invitation_Inr) blast
  have "\<exists>entry. audit_log (db w') = entry # audit_log (db w)
        \<and> a_action entry = ActionInvitationCreated"
    using ev d3 by (simp add: send d4 logged_def audit_entry_row_def)
  moreover have "invitations (db w') = is @ [row]" by (simp add: send d4 logged_def)
  ultimately show ?thesis
    using norm row old d3 by (intro exI [of _ row] exI [of _ email]) auto
qed

text \<open>The same installation with a mail server that refuses everything.\<close>

definition no_mail_env :: env where
  "no_mail_env = demo_env\<lparr>the_mailer := SMTPMailer ''smtp:25'' ''app'',
     SendMail := (\<lambda>_ _ _ _ _. False)\<rparr>"

lemma no_mail_env_simps [simp]:
  "quiet no_mail_env" "go_now no_mail_env = 10" "sql_now no_mail_env = 10"
  "uuidv7 no_mail_env n = uid (1000 + int (n mod 1000))" "auth_cfg no_mail_env = demo_auth"
  "rand_read no_mail_env i n = rand_read demo_env i n" "sha256 no_mail_env t = t"
  "pg_lower no_mail_env t = t" "uuid_String no_mail_env u = ''id''"
  "the_mailer no_mail_env = SMTPMailer ''smtp:25'' ''app''" "\<not> SendMail no_mail_env n a b c d"
  "pg_json_ok no_mail_env md"
  using quiet_demo unfolding quiet_def by (simp_all add: no_mail_env_def)

lemma no_mail_invite:
  "\<exists>w'. Invite no_mail_env ann ann_admin ''new@x'' (uid 12) demo_world = (Inl ErrMailFailed, w')"
proof -
  have norm: "normalizeEmail no_mail_env ''new@x'' = Inr ''new@x''" by code_simp
  let ?r = "full_role demo_db (demo_role 12 ''member'' True)"
  have "find (\<lambda>r. r_id r = uid 12) (roles demo_db) = Some (demo_role 12 ''member'' True)"
    by (simp add: demo_defs)
  then have get: "repo_GetRole no_mail_env (uid 12) demo_world = (Inr ?r, tick demo_world)"
    by (simp add: repo_GetRole_quiet)
  have chk: "checkEscalation ann_admin (granted demo_db (uid 12)) = Inr ()" by (simp add: demo_granted)
  have taken: "refuse_taken no_mail_env ''new@x'' (tick demo_world) = (Inr (), tick (tick demo_world))"
    by (simp add: refuse_taken_def GetUserByEmail_def op_simps scanUserOrNotFound_def demo_defs
        citext_eq_def isNotFound_def)
  have "\<exists>iv w'. issue_invitation no_mail_env ann ''new@x'' ?r digest
      ((tick (tick demo_world))\<lparr>reads := Suc 0\<rparr>) = (Inr iv, w')" if "digest \<noteq> ''invite''" for digest
  proof -
    let ?w = "(tick (tick demo_world))\<lparr>reads := Suc 0\<rparr>"
    have rev: "RevokePendingInvitationFor no_mail_env ''new@x'' (tick ?w) = (Inr (), tick (tick ?w))"
      by (simp add: RevokePendingInvitationFor_def op_simps citext_eq_def
          revoke_invitations_def open_invitation_def demo_defs)
    let ?row = "\<lparr>i_id = uid 1004, i_email = ''new@x'', i_token_hash = digest,
        i_invited_by = Some (uid 1), i_expires_at = 110, i_accepted_at = None,
        i_revoked_at = None, i_created_at = 10, i_role_id = uid 12\<rparr>"
    let ?w1 = "(tick (tick (tick ?w)))\<lparr>db := demo_db\<lparr>invitations := invitations demo_db @ [?row]\<rparr>\<rparr>"
    have cre: "CreateInvitation no_mail_env ''new@x'' (uid 12) (uid 1) digest 110 (tick (tick ?w))
        = (Inr (uid 1004), ?w1)"
      using that by (simp add: CreateInvitation_def insert_invitation_def citext_eq_def demo_defs)
    have "GetInvitation no_mail_env (i_id ?row) ?w1
        = (Inr (full_invitation (db ?w1) (?row, demo_role 12 ''member'' True)), tick ?w1)"
      by (rule GetInvitation_quiet) (simp_all add: demo_defs)
    then show ?thesis
      using rev cre
      by (simp add: issue_invitation_def InTx_quiet bind_op_def demo_role_def)
        (simp add: op_simps demo_defs Event_def ann_def demo_auth_def)
  qed
  note issue = this
  let ?w = "tick (tick demo_world)"
  have "rand_read no_mail_env (reads ?w) tokenEntropyBytes
      = Some (replicate tokenEntropyBytes (CHR ''A''))" by simp
  then obtain tok digest where
    "NewToken no_mail_env InvitationTokenPrefix ?w = (Inr (tok, digest), ?w\<lparr>reads := Suc (reads ?w)\<rparr>)"
    "digest = HashToken no_mail_env (InvitationTokenPrefix
        @ RawURLEncoding (replicate tokenEntropyBytes (CHR ''A'')))"
    by (metis NewToken_Inr_iff)
  then have tok: "NewToken no_mail_env InvitationTokenPrefix ?w
      = (Inr (tok, digest), ?w\<lparr>reads := Suc 0\<rparr>)" "digest \<noteq> ''invite''"
    by (simp_all add: HashToken_def InvitationTokenPrefix_def)
  from issue [OF tok(2)] obtain iv w' where issue: "issue_invitation no_mail_env ann ''new@x'' ?r
      digest (?w\<lparr>reads := Suc 0\<rparr>) = (Inr iv, w')" by blast
  have send: "send_op no_mail_env (m\<lparr>To := ''new@x''\<rparr>) w' = (Inr (Some x), w'\<lparr>sends := Suc (sends w')\<rparr>)"
    if "mailer_Send (SendMail no_mail_env (sends w')) (SMTPMailer ''smtp:25'' ''app'')
      (m\<lparr>To := ''new@x''\<rparr>) = Some x" for m x
    using that by (simp add: send_op_def Send_def)
  have "\<exists>x. mailer_Send (SendMail no_mail_env (sends w')) (SMTPMailer ''smtp:25'' ''app'') m
      = Some x" for m
    by (simp add: mailer_Send_def)
  with send have "\<exists>x w''. send_op no_mail_env (m\<lparr>To := ''new@x''\<rparr>) w' = (Inr (Some x), w'')" for m
    by blast
  then obtain x w'' where "send_op no_mail_env ((Invitation (BaseURL (mail_cfg no_mail_env))
      (Email ann) tok)\<lparr>To := ''new@x''\<rparr>) w' = (Inr (Some x), w'')" by blast
  then show ?thesis
    using norm get taken tok(1) issue
    by (simp add: Invite_def bind_op_def lift_op_def demo_role_def Let_def chk)
qed

theorem invite_mail_failure_witness:
  "\<exists>w'. Invite no_mail_env ann ann_admin ''new@x'' (uid 12) demo_world = (Inl ErrMailFailed, w')
     \<and> (\<exists>i \<in> set (invitations (db w')). open_invitation i \<and> i_invited_by i = Some (uid 1))"
proof -
  have "userID ann = uid 1" by (simp add: ann_def demo_user_def)
  with no_mail_invite invite_mail_failure [of no_mail_env ann ann_admin "''new@x''" "uid 12" demo_world]
  show ?thesis by metis
qed

end
