(* ===== verification/Page_Theorems.thy ===== *)
theory Page_Theorems
  imports Demo
begin

text \<open>
  Theorems on the two paged listings, the user directory and the audit log: a client that
  follows \<open>next_before\<close> from the first page reads every row once, newest first. The
  contract of a page, which both handlers meet, is the locale \<open>keyset_listing\<close>.
\<close>

section \<open>Following the cursor\<close>

text \<open>
  A client: \<open>get\<close> asks for the page at a cursor and answers with its items and the cursor of
  the next page, if there is one. The fuel bounds the number of requests.
\<close>

fun follow :: "nat \<Rightarrow> ('c \<Rightarrow> 'a list \<times> 'c option) \<Rightarrow> 'c \<Rightarrow> 'a list" where
  "follow 0 get c = []"
| "follow (Suc n) get c =
    (case get c of (items, next) \<Rightarrow>
       items @ (case next of None \<Rightarrow> [] | Some c' \<Rightarrow> follow n get c'))"

lemma keyset_page:
  assumes "sorted_wrt (\<lambda>x y. f y < (f x :: uuid)) xs" "take n xs \<noteq> []"
  shows "filter (\<lambda>r. f r < f (last (take n xs))) xs = drop n xs"
  using assms
proof (induction xs arbitrary: n)
  case (Cons x xs)
  then obtain m where n: "n = Suc m" by (cases n) auto
  show ?case
  proof (cases "take m xs = []")
    case True
    then have "m = 0 \<or> xs = []" by simp
    with Cons.prems n show ?thesis by (auto simp: filter_id_conv)
  next
    case False
    then have "last (take m xs) \<in> set xs" by (meson in_set_takeD last_in_set)
    with Cons.prems False n show ?thesis
      using Cons.IH [of m] by (auto dest: less_asym)
  qed
qed simp

text \<open>
  A listing by keyset: \<open>at c u\<close> says that the cursor \<open>c\<close> stands for the position before the
  id \<open>u\<close> (the nil id: the start). A page is the next \<open>size\<close> rows; there is a next page
  exactly when this one is full.
\<close>

locale keyset_listing =
  fixes get :: "'c \<Rightarrow> 'a list \<times> 'c option"
    and position :: "'c \<Rightarrow> uuid \<Rightarrow> bool"
    and rows :: "'r list"
    and row_id :: "'r \<Rightarrow> uuid"
    and view :: "'r \<Rightarrow> 'a"
    and size_of_page :: nat
  assumes page_size: "0 < size_of_page"
    and page_items: "position c u \<Longrightarrow>
      fst (get c) = map view (take size_of_page (filter (\<lambda>r. u = uuid_Nil \<or> row_id r < u) rows))"
    and page_last: "position c u \<Longrightarrow> length (fst (get c)) < size_of_page \<Longrightarrow> snd (get c) = None"
    and page_next: "position c u \<Longrightarrow>
      p = take size_of_page (filter (\<lambda>r. u = uuid_Nil \<or> row_id r < u) rows) \<Longrightarrow>
      length p = size_of_page \<Longrightarrow> \<exists>c'. snd (get c) = Some c' \<and> position c' (row_id (last p))"
begin

text \<open>From any position the client reads the rows below it.\<close>

lemma follow_from:
  assumes "sorted_wrt (\<lambda>x y. row_id y < row_id x) rows" "uuid_Nil \<notin> row_id ` set rows"
    and "position c u" "length (filter (\<lambda>r. u = uuid_Nil \<or> row_id r < u) rows) < fuel"
  shows "follow fuel get c = map view (filter (\<lambda>r. u = uuid_Nil \<or> row_id r < u) rows)"
  using assms(3,4)
proof (induction fuel arbitrary: c u)
  case (Suc fuel)
  define below where "below = filter (\<lambda>r. u = uuid_Nil \<or> row_id r < u) rows"
  define p where "p = take size_of_page below"
  have items: "fst (get c) = map view p"
    using page_items [OF Suc.prems(1)] by (simp add: p_def below_def)
  show ?case
  proof (cases "length p = size_of_page")
    case False
    then have "p = below" "length p < size_of_page"
      by (auto simp: p_def)
    with page_last [OF Suc.prems(1)] items show ?thesis
      by (cases "get c") (simp add: below_def)
  next
    case True
    obtain c' where c': "snd (get c) = Some c'" "position c' (row_id (last p))"
      using page_next [OF Suc.prems(1) _ True] by (auto simp: p_def below_def)
    have ne: "p \<noteq> []" using True page_size by auto
    then have "last p \<in> set below" by (metis p_def in_set_takeD last_in_set)
    then have mem: "last p \<in> set rows" "u = uuid_Nil \<or> row_id (last p) < u"
      by (auto simp: below_def)
    then have nil: "row_id (last p) \<noteq> uuid_Nil" using assms(2) by (metis imageI)
    have "sorted_wrt (\<lambda>x y. row_id y < row_id x) below"
      using assms(1) by (simp add: below_def sorted_wrt_filter)
    from keyset_page [OF this, of size_of_page] ne
    have "filter (\<lambda>r. row_id r < row_id (last p)) below = drop size_of_page below"
      by (simp add: p_def)
    moreover have "filter (\<lambda>r. row_id r < row_id (last p)) below
        = filter (\<lambda>r. row_id r < row_id (last p)) rows"
      using mem(2) by (auto simp: below_def intro!: filter_cong)
    ultimately have rest: "filter (\<lambda>r. row_id (last p) = uuid_Nil \<or> row_id r < row_id (last p)) rows
        = drop size_of_page below" using nil by simp
    have "length (drop size_of_page below) < fuel"
    proof -
      have "length below < Suc fuel" "0 < length below"
        using Suc.prems(2) ne by (auto simp: below_def p_def)
      then show ?thesis using page_size unfolding length_drop by linarith
    qed
    then have "follow fuel get c' = map view (drop size_of_page below)"
      using Suc.IH [OF c'(2)] by (simp add: rest)
    with items c'(1) show ?thesis
      by (cases "get c") (simp add: below_def p_def flip: map_append)
  qed
qed simp

lemma follow_all:
  assumes "sorted_wrt (\<lambda>x y. row_id y < row_id x) rows" "uuid_Nil \<notin> row_id ` set rows"
    and "position c uuid_Nil" "length rows < fuel"
  shows "follow fuel get c = map view rows"
  using follow_from [OF assms(1-3)] assms(4) by simp

end

lemma descending:
  assumes "distinct (map f xs)"
  shows "sorted_wrt (\<lambda>x y. f y < (f x :: uuid)) (rev (sort_key f xs))"
proof -
  have "distinct (map f (sort_key f xs))" using assms
    by (metis distinct_map distinct_sort inj_on_cong set_sort sort_key_def)
  then have "sorted_wrt (<) (map f (sort_key f xs))"
    by (simp add: strict_sorted_iff)
  then show ?thesis by (simp add: sorted_wrt_rev sorted_wrt_map)
qed

lemma rev_sort_filter:
  "rev (sort_key f (filter P (filter Q xs))) = filter P (rev (sort_key f (filter Q xs)))"
  by (simp add: filter_sort flip: rev_filter)

section \<open>The two listings\<close>

text \<open>What one request of a reader gets: the items and, with a cursor, the next request.\<close>

definition read_users ::
  "server \<Rightarrow> http_request \<Rightarrow> env \<Rightarrow> ctx \<Rightarrow> string \<times> world
    \<Rightarrow> user_summary list \<times> (string \<times> world) option" where
  "read_users s rq e c = (\<lambda>(raw, w).
    (case handleListUsers s rq raw e c w of
       (Inr r, w') \<Rightarrow>
         (case payload r of
            PUsers us next \<Rightarrow> (us, if next = '''' then None else Some (next, w'))
          | _ \<Rightarrow> ([], None))
     | (Inl _, _) \<Rightarrow> ([], None)))"

definition read_audit ::
  "server \<Rightarrow> http_request \<Rightarrow> string \<times> string \<times> string \<times> string \<Rightarrow> env \<Rightarrow> ctx \<Rightarrow> string \<times> world
    \<Rightarrow> audit_entry list \<times> (string \<times> world) option" where
  "read_audit s rq q e c = (\<lambda>(raw, w).
    (case q of (action, rawActor, rawFrom, rawTo) \<Rightarrow>
    (case handleListAuditLog s rq action raw rawActor rawFrom rawTo e c w of
       (Inr r, w') \<Rightarrow>
         (case payload r of
            PAudit es next \<Rightarrow> (es, if next = '''' then None else Some (next, w'))
          | _ \<Rightarrow> ([], None))
     | (Inl _, _) \<Rightarrow> ([], None))))"

text \<open>The filter of the query string, if every value in it parses.\<close>

definition asked :: "env \<Rightarrow> string \<times> string \<times> string \<times> string \<Rightarrow> audit_filter option" where
  "asked e q = (case q of (action, rawActor, rawFrom, rawTo) \<Rightarrow>
    (case (parse_actor e rawActor, parse_bound e rawFrom, parse_bound e rawTo) of
       (Some actor, Some fromT, Some toT) \<Rightarrow>
         Some \<lparr>fAction = action, fActor = actor, fFrom = fromT, fTo = toT,
               fBefore = uuid_Nil, fLimit = int auditPageSize\<rparr>
     | _ \<Rightarrow> None))"

text \<open>What \<open>google/uuid\<close> promises: printing and parsing are inverse.\<close>

definition uuid_text_ok :: "env \<Rightarrow> bool" where
  "uuid_text_ok e \<longleftrightarrow> (\<forall>u. uuid_Parse e (uuid_String e u) = Some u \<and> uuid_String e u \<noteq> '''')"

lemma pageBefore_String: "uuid_text_ok e \<Longrightarrow> pageBefore e (uuid_String e u) = Some u"
  by (simp add: uuid_text_ok_def pageBefore_def)

definition reading :: "env \<Rightarrow> database \<Rightarrow> string \<times> world \<Rightarrow> uuid \<Rightarrow> bool" where
  "reading e d = (\<lambda>(raw, w) u.
     quiet e \<and> uuid_text_ok e \<and> keys_ok d \<and> db w = d \<and> pageBefore e raw = Some u)"

lemma run_or_handle_Inr:
  "m w = (Inr a, w') \<Longrightarrow> run_or_handle s rq e c m k w = k a w'"
  by (simp add: run_or_handle_def bind_op_def attempt_def)

lemma read_users_run:
  assumes "reading e d (raw, w) u"
  shows "read_users s rq e c (raw, w) =
    (let us = map (summary_of e d) (take usersPageSize (users_before u d)) in
     (us, if length us = usersPageSize
          then Some (uuid_String e (userID (summaryUser (last us))), tick w) else None))"
proof -
  have quiet: "quiet e" and txt_ne: "\<And>x. uuid_String e x \<noteq> ''''" and d: "db w = d" "keys_ok d"
    and u: "pageBefore e raw = Some u"
    using assms by (auto simp: reading_def uuid_text_ok_def)
  have "ListUsers e u (int usersPageSize) w
      = (Inr (map (summary_of e d) (take usersPageSize (users_before u d))), tick w)"
    using quiet d directory_users_before [OF d(2)]
    by (simp add: ListUsers_def repo_ListUsers_def bind_op_def user_limit_def usersPageSize_def)
  then show ?thesis
    by (simp add: read_users_def handleListUsers_def u run_or_handle_Inr writeJSON_def txt_ne Let_def)
qed

lemma users_before_filter:
  "users_before u d
     = filter (\<lambda>x. u = uuid_Nil \<or> u_id x < u) (rev (sort_key u_id (users d)))"
  using rev_sort_filter [of u_id _ "\<lambda>_. True"] by (simp add: users_before_def)

interpretation user_pages: keyset_listing "read_users s rq e c" "reading e d"
  "rev (sort_key u_id (users d))" u_id "summary_of e d" usersPageSize
  for s rq e c d
proof
  fix cur u p assume pos: "reading e d cur u"
  obtain raw w where cur: "cur = (raw, w)" by fastforce
  note run = read_users_run [OF pos [unfolded cur]]
  show "fst (read_users s rq e c cur) = map (summary_of e d) (take usersPageSize
      (filter (\<lambda>r. u = uuid_Nil \<or> u_id r < u) (rev (sort_key u_id (users d)))))"
    by (simp add: cur run Let_def users_before_filter)
  show "snd (read_users s rq e c cur) = None"
    if "length (fst (read_users s rq e c cur)) < usersPageSize"
    using that by (simp add: cur run Let_def)
  show "\<exists>c'. snd (read_users s rq e c cur) = Some c' \<and> reading e d c' (u_id (last p))"
    if p: "p = take usersPageSize
        (filter (\<lambda>r. u = uuid_Nil \<or> u_id r < u) (rev (sort_key u_id (users d))))"
      and full: "length p = usersPageSize"
  proof -
    from full have "p \<noteq> []" by (auto simp: usersPageSize_def)
    then have "userID (summaryUser (last (map (summary_of e d) p))) = u_id (last p)"
      by (simp add: last_map summary_of_def scanUser_def)
    with p full pos show ?thesis
      by (simp add: cur run Let_def users_before_filter reading_def pageBefore_String)
  qed
qed (simp add: usersPageSize_def)

lemma audit_select_filter:
  "audit_select (f\<lparr>fBefore := u\<rparr>) d
     = filter (\<lambda>r. u = uuid_Nil \<or> a_id r < u) (audit_select (f\<lparr>fBefore := uuid_Nil\<rparr>) d)"
proof -
  have "filter (audit_match (f\<lparr>fBefore := u\<rparr>)) (audit_log d)
      = filter (\<lambda>r. u = uuid_Nil \<or> a_id r < u)
          (filter (audit_match (f\<lparr>fBefore := uuid_Nil\<rparr>)) (audit_log d))"
    by (auto simp: audit_match_def intro!: filter_cong)
  then show ?thesis by (simp only: audit_select_def rev_sort_filter)
qed

lemma read_audit_run:
  assumes "reading e d (raw, w) u" "asked e q = Some f"
  shows "read_audit s rq q e c (raw, w) =
    (let es = map scan_entry (take auditPageSize (audit_select (f\<lparr>fBefore := u\<rparr>) d)) in
     (es, if length es = auditPageSize
          then Some (uuid_String e (entryID (last es)), tick w) else None))"
proof -
  have quiet: "quiet e" and txt_ne: "\<And>x. uuid_String e x \<noteq> ''''" and d: "db w = d"
    and u: "pageBefore e raw = Some u"
    using assms(1) by (auto simp: reading_def uuid_text_ok_def)
  obtain action ra rf rt where q: "q = (action, ra, rf, rt)" by (metis surj_pair)
  obtain actor fromT toT where parsed: "parse_actor e ra = Some actor"
      "parse_bound e rf = Some fromT" "parse_bound e rt = Some toT"
    and f: "f = \<lparr>fAction = action, fActor = actor, fFrom = fromT, fTo = toT,
               fBefore = uuid_Nil, fLimit = int auditPageSize\<rparr>"
    using assms(2) by (auto simp: asked_def q split: option.splits)
  have "ListEntries e (f\<lparr>fBefore := u\<rparr>) w
      = (Inr (map scan_entry (take auditPageSize (audit_select (f\<lparr>fBefore := u\<rparr>) d))), tick w)"
    using quiet d
    by (simp add: ListEntries_def bind_op_def collectEntries_def page_limit_def f
        auditPageSize_def)
  then show ?thesis
    by (simp add: read_audit_def handleListAuditLog_def u q parsed f run_or_handle_Inr
        writeJSON_def txt_ne Let_def)
qed

text \<open>The filter is part of the reader's position: a listing has one for each that parses.\<close>

definition reading_log ::
  "env \<Rightarrow> string \<times> string \<times> string \<times> string \<Rightarrow> audit_filter \<Rightarrow> database
    \<Rightarrow> string \<times> world \<Rightarrow> uuid \<Rightarrow> bool" where
  "reading_log e q f d cur u \<longleftrightarrow> reading e d cur u \<and> asked e q = Some f"

interpretation audit_pages: keyset_listing "read_audit s rq q e c" "reading_log e q f d"
  "audit_select (f\<lparr>fBefore := uuid_Nil\<rparr>) d" a_id scan_entry auditPageSize
  for s rq q e c f d
proof
  fix cur u p assume pos: "reading_log e q f d cur u"
  obtain raw w where cur: "cur = (raw, w)" by fastforce
  note at = pos [unfolded reading_log_def cur]
  note run = read_audit_run [OF conjunct1 [OF at] conjunct2 [OF at]]
  show "fst (read_audit s rq q e c cur) = map scan_entry (take auditPageSize
      (filter (\<lambda>r. u = uuid_Nil \<or> a_id r < u) (audit_select (f\<lparr>fBefore := uuid_Nil\<rparr>) d)))"
    by (simp add: cur run Let_def flip: audit_select_filter)
  show "snd (read_audit s rq q e c cur) = None"
    if "length (fst (read_audit s rq q e c cur)) < auditPageSize"
    using that by (simp add: cur run Let_def)
  show "\<exists>c'. snd (read_audit s rq q e c cur) = Some c' \<and> reading_log e q f d c' (a_id (last p))"
    if p: "p = take auditPageSize
        (filter (\<lambda>r. u = uuid_Nil \<or> a_id r < u) (audit_select (f\<lparr>fBefore := uuid_Nil\<rparr>) d))"
      and full: "length p = auditPageSize"
  proof -
    from full have "p \<noteq> []" by (auto simp: auditPageSize_def)
    then have "entryID (last (map scan_entry p)) = a_id (last p)"
      by (simp add: last_map scan_entry_def)
    with p full at show ?thesis
      by (simp add: cur run Let_def reading_log_def reading_def pageBefore_String
          flip: audit_select_filter)
  qed
qed (simp add: auditPageSize_def)

section \<open>Every row once\<close>

text \<open>
  C29: a client that pages through the user directory, following
  \<open>next_before\<close> until it is empty, gets every account exactly once, newest first, each with
  its roles and their permissions, however the pages fall.
\<close>

theorem directory_pages:
  assumes "quiet e" "uuid_text_ok e" "keys_ok (db w)"
    and "uuid_Nil \<notin> u_id ` set (users (db w))" "length (users (db w)) < fuel"
  shows "follow fuel (read_users s rq e c) ('''', w)
       = map (summary_of e (db w)) (rev (sort_key u_id (users (db w))))"
  using assms by (intro user_pages.follow_all descending keys_okD)
    (simp_all add: reading_def pageBefore_def)


text \<open>An installation whose UUIDs print and parse (in unary), with pages to turn.\<close>

definition paging_env :: env where
  "paging_env = demo_env\<lparr>uuid_String := (\<lambda>u. case u of UUID i \<Rightarrow> replicate (Suc (unat i)) (CHR ''x'')),
     uuid_Parse := (\<lambda>s. Some (UUID (of_nat (length s - 1))))\<rparr>"

lemma quiet_paging [simp]: "quiet paging_env"
  by (simp add: quiet_def paging_env_def demo_env_def)

lemma uuid_text_paging [simp]: "uuid_text_ok paging_env"
  by (simp add: uuid_text_ok_def paging_env_def split: uuid.split)

lemma summary_email: "Email (summaryUser (summary_of e d x)) = u_email x"
  by (simp add: summary_of_def scanUser_def)

theorem directory_pages_witness:
  "\<forall>s rq. map (\<lambda>x. Email (summaryUser x))
     (follow 3 (read_users s rq paging_env no_ctx) ([], demo_world)) = [''bob@x'', ''ann@x'']"
proof (intro allI)
  fix s rq
  have nil: "uuid_Nil \<notin> u_id ` set (users demo_db)" and small: "length (users demo_db) < 3"
    by code_simp+
  have "follow 3 (read_users s rq paging_env no_ctx) ([], demo_world)
      = map (summary_of paging_env demo_db) (rev (sort_key u_id (users demo_db)))"
    using directory_pages [OF quiet_paging uuid_text_paging, of demo_world 3 s rq no_ctx]
      nil small by simp
  moreover have "rev (sort_key u_id (users demo_db)) = [demo_user 2 ''bob@x'', demo_user 1 ''ann@x'']"
    by code_simp
  ultimately show "map (\<lambda>x. Email (summaryUser x))
     (follow 3 (read_users s rq paging_env no_ctx) ([], demo_world)) = [''bob@x'', ''ann@x'']"
    by (simp only: list.map summary_email) (simp add: demo_user_def)
qed

text \<open>Sixty entries: two pages.\<close>

definition demo_entry :: "nat \<Rightarrow> string \<Rightarrow> audit_row" where
  "demo_entry n action = \<lparr>a_id = uid (1 + int n), a_actor_user_id = Some (uid 1),
     a_action = action, a_target_type = [], a_target_id = [], a_metadata = [],
     a_created_at = int n, a_request_id = [], a_ip_address = None, a_user_agent = []\<rparr>"

definition log_world :: world where
  "log_world = demo_world\<lparr>db := demo_db\<lparr>audit_log :=
     demo_entry 60 ''y'' # map (\<lambda>n. demo_entry n ''x'') [0..<60]\<rparr>\<rparr>"


end
