(* ===== verification/Upkeep_Theorems.thy ===== *)
theory Upkeep_Theorems
  imports Session_Theorems Page_Theorems
begin

text \<open>
  Theorems on what keeps an installation in order: the tokens it draws, the permission
  catalog it installs at start, the append-only audit log and its retention, and the
  background sweeps.
\<close>

section \<open>Tokens\<close>

definition token_prefixes :: "string list" where
  "token_prefixes = [SessionTokenPrefix, InvitationTokenPrefix, PasswordResetTokenPrefix,
     EmailVerifyTokenPrefix, APIKeyTokenPrefix]"

text \<open>The URL-safe alphabet differs from the standard one in two letters.\<close>

definition std_letter :: "char \<Rightarrow> char" where
  "std_letter c = (if c = CHR ''-'' then CHR ''+'' else if c = CHR ''_'' then CHR ''/'' else c)"

lemma b64_alnum:
  assumes "v < 62"
  shows "b64_char c62 c63 v = b64_char c62' c63' v"
    "b64_char c62 c63 v \<noteq> CHR ''-''" "b64_char c62 c63 v \<noteq> CHR ''_''"
proof -
  show "b64_char c62 c63 v = b64_char c62' c63' v" using assms by (simp add: b64_char_def)
  have "byte_of (b64_char c62 c63 v) \<notin> {45, 95}"
    using assms by (auto simp: b64_char_def byte_of_char_of)
  then show "b64_char c62 c63 v \<noteq> CHR ''-''" "b64_char c62 c63 v \<noteq> CHR ''_''"
    by (auto simp: byte_of_def)
qed

lemma std_letter_url:
  assumes "v < 64"
  shows "std_letter (b64_char (CHR ''-'') (CHR ''_'') v) = b64_char (CHR ''+'') (CHR ''/'') v"
proof (cases "v < 62")
  case True
  from b64_alnum [OF True] show ?thesis unfolding std_letter_def by metis
next
  case False
  with assms have "v = 62 \<or> v = 63" by linarith
  then show ?thesis by (auto simp: b64_char_def std_letter_def)
qed

lemma std_of_url: "map std_letter (RawURLEncoding bs) = RawStdEncoding bs"
  using sextets_bound [of bs]
  by (simp add: RawURLEncoding_def RawStdEncoding_def b64_encode_sextets std_letter_url)

lemma RawURLEncoding_inject: "RawURLEncoding bs = RawURLEncoding bs' \<longleftrightarrow> bs = bs'"
proof
  assume "RawURLEncoding bs = RawURLEncoding bs'"
  then have "RawStdEncoding bs = RawStdEncoding bs'" by (metis std_of_url)
  then show "bs = bs'" using DecodeString_RawStd by (metis option.inject)
qed simp

lemma length_b64_encode: "length (b64_encode c62 c63 bs) = (4 * length bs + 2) div 3"
  by (induction c62 c63 bs rule: b64_encode.induct) (simp_all add: Let_def)

text \<open>No prefix is the beginning of another kind's token: they differ in their fifth letter on.\<close>

lemma prefix_clash:
  assumes "pre \<in> set token_prefixes" "pre' \<in> set token_prefixes" "pre @ s = pre' @ s'"
  shows "pre = pre' \<and> s = s'"
  using assms
  by (auto simp: token_prefixes_def SessionTokenPrefix_def InvitationTokenPrefix_def
      PasswordResetTokenPrefix_def EmailVerifyTokenPrefix_def APIKeyTokenPrefix_def)

text \<open>
  A token is its kind's prefix and 43 letters of URL-safe base64 that spell
  the 32 bytes drawn: two tokens are the same only when they are of the same kind and the
  random source drew the same bytes, and what is stored of it is the digest of the whole.
\<close>

lemma token_identity:
  assumes "NewToken e pre w = (Inr (tok, digest), w1)" "NewToken e' pre' w' = (Inr (tok', digest'), w1')"
    and "pre \<in> set token_prefixes" "pre' \<in> set token_prefixes"
    and "\<forall>i n buf. rand_read e i n = Some buf \<longrightarrow> length buf = n"
  shows "(tok = tok' \<longleftrightarrow> pre = pre' \<and>
      rand_read e (reads w) tokenEntropyBytes = rand_read e' (reads w') tokenEntropyBytes)
   \<and> length tok = length pre + 43 \<and> digest = sha256 e tok \<and> db w1 = db w
   \<and> reads w1 = Suc (reads w)"
proof -
  obtain buf buf' where bufs: "rand_read e (reads w) tokenEntropyBytes = Some buf"
      "rand_read e' (reads w') tokenEntropyBytes = Some buf'"
    and tok: "tok = pre @ RawURLEncoding buf" "tok' = pre' @ RawURLEncoding buf'"
    and rest: "digest = HashToken e tok" "w1 = w\<lparr>reads := Suc (reads w)\<rparr>"
    using assms(1,2) by (auto simp: NewToken_Inr_iff)
  have "tok = tok' \<longleftrightarrow> pre = pre' \<and> buf = buf'"
    using prefix_clash [OF assms(3,4)] tok by (metis RawURLEncoding_inject)
  moreover have "length tok = length pre + 43"
    using assms(5) bufs(1) tok(1) by (simp add: RawURLEncoding_def length_b64_encode tokenEntropyBytes_def)
  ultimately show ?thesis using bufs rest by (simp add: HashToken_def)
qed

section \<open>The catalog at start\<close>

lemma SyncPermissions_Inr:
  assumes "SyncPermissions e u = (Inr l, u')"
  shows "db u' = (db u)\<lparr>permissions := upsert_all (permissions (db u)) Catalog\<rparr>
      \<and> set l = fst ` set (permissions (db u)) - AllPermissions"
proof -
  from assms obtain u1 where loop: "for_each (sync_entry e) Catalog (tick u) = (Inr (), u1)"
    and l: "l = filter (\<lambda>k. \<not> Valid k) (sort_key (pg_collate e) (map fst (permissions (db u1))))"
    and u': "db u' = db u1"
    by (auto simp: SyncPermissions_def InTx_Inr_iff bind_op_Inr_iff select_Inr_iff)
  from for_each_sync [OF loop]
  have d: "db u1 = (db u)\<lparr>permissions := upsert_all (permissions (db u)) Catalog\<rparr>" by simp
  moreover have "set l = fst ` set (permissions (db u1)) - AllPermissions"
    by (auto simp: l Valid_iff)
  ultimately show ?thesis using u'
    by (simp add: fst_upsert_all set_Catalog) blast
qed

text \<open>
  C31: the reconciliation at start leaves the table with every permission the
  application enforces, described as the code describes it, keeps every other row as it was
  and reports exactly those; running it again changes nothing, and no role, grant or account
  is touched.
\<close>

theorem sync_permissions:
  assumes "SyncPermissions e w = (Inr stale, w')"
  shows "(\<forall>k v. k \<in> AllPermissions \<longrightarrow> ((k, v) \<in> set (permissions (db w')) \<longleftrightarrow> (k, v) \<in> set Catalog))
   \<and> (\<forall>k v. k \<notin> AllPermissions \<longrightarrow>
        ((k, v) \<in> set (permissions (db w')) \<longleftrightarrow> (k, v) \<in> set (permissions (db w))))
   \<and> set stale = fst ` set (permissions (db w)) - AllPermissions
   \<and> db w' = (db w)\<lparr>permissions := permissions (db w')\<rparr>
   \<and> (SyncPermissions e' w' = (Inr stale', w2) \<longrightarrow>
        set (permissions (db w2)) = set (permissions (db w')) \<and> set stale' = set stale)"
proof -
  have old: "(k, v) \<in> set (upsert_all ps es) \<longleftrightarrow> (k, v) \<in> set ps" if "k \<notin> fst ` set es" for k v ps es
    using that by (induction es arbitrary: ps) (auto simp: upsert_value split_beta)
  have new: "(k, v) \<in> set (upsert_all ps Catalog) \<longleftrightarrow> (k, v) \<in> set Catalog"
    if key: "k \<in> AllPermissions" for k v ps
  proof -
    from key obtain v0 where "(k, v0) \<in> set Catalog" unfolding set_Catalog [symmetric] by force
    with upsert_all_value [OF distinct_Catalog this] distinct_Catalog show ?thesis
      by (metis eq_key_imp_eq_value)
  qed
  note all = SyncPermissions_Inr [OF assms]
  have again: "set (permissions (db w2)) = set (permissions (db w')) \<and> set stale' = set stale"
    if "SyncPermissions e' w' = (Inr stale', w2)"
  proof -
    note more = SyncPermissions_Inr [OF that]
    have "(k, v) \<in> set (permissions (db w2)) \<longleftrightarrow> (k, v) \<in> set (permissions (db w'))" for k v
      using all more new [of k v] old [of k Catalog v]
      by (cases "k \<in> AllPermissions") (simp_all add: set_Catalog)
    moreover have "set stale' = set stale"
      using all more by (auto simp: fst_upsert_all set_Catalog)
    ultimately show ?thesis by auto
  qed
  show ?thesis using all new old [of _ Catalog] again by (simp add: set_Catalog)
qed

lemma for_each_total:
  "(\<And>x w. x \<in> set xs \<Longrightarrow> \<exists>w'. f x w = (Inr (), w')) \<Longrightarrow> \<exists>w'. for_each f xs w = (Inr (), w')"
proof (induction xs arbitrary: w)
  case (Cons x xs)
  then obtain w1 where "f x w = (Inr (), w1)" by fastforce
  with Cons show ?case by (auto simp: bind_op_Inr_iff)
qed simp

lemma SyncPermissions_quiet:
  assumes "quiet e"
  shows "\<exists>stale w'. SyncPermissions e w = (Inr stale, w')"
proof -
  have "\<exists>w'. for_each (sync_entry e) Catalog (tick w) = (Inr (), w')"
    using assms by (intro for_each_total) (simp add: sync_entry_def)
  with assms show ?thesis by (auto simp: SyncPermissions_def InTx_quiet bind_op_step)
qed

theorem sync_permissions_witness:
  "\<exists>stale w'. SyncPermissions demo_env (demo_world\<lparr>db := demo_db\<lparr>permissions := [(''old'', ''x'')]\<rparr>\<rparr>)
     = (Inr stale, w') \<and> (''old'', ''x'') \<in> set (permissions (db w')) \<and> ''old'' \<in> set stale"
proof -
  let ?w = "demo_world\<lparr>db := demo_db\<lparr>permissions := [(''old'', ''x'')]\<rparr>\<rparr>"
  obtain stale w' where run: "SyncPermissions demo_env ?w = (Inr stale, w')"
    using SyncPermissions_quiet [OF quiet_demo] by blast
  have new: "''old'' \<notin> AllPermissions" unfolding Valid_iff [symmetric] by code_simp
  have "(''old'', ''x'') \<in> set (permissions (db ?w))" by simp
  with new have "(''old'', ''x'') \<in> set (permissions (db w'))"
    using sync_permissions [OF run] by blast
  moreover from this new have "''old'' \<in> set stale"
    using sync_permissions [OF run] by force
  ultimately show ?thesis using run by blast
qed

section \<open>The audit log\<close>



section \<open>The sweeps\<close>

lemma sweep_step:
  assumes "attempt (exec e [] f) w = (r, w')"
  shows "db w' = db w \<or> db w' = snd (f (db w))"
  using assms by (auto simp: attempt_iff exec_def query_def Let_def split: if_splits prod.splits)

abbreviation dead_session :: "env \<Rightarrow> session_row \<Rightarrow> bool" where
  "dead_session e x \<equiv> dead e sessionRetention (s_expires_at x) (s_revoked_at x)"

abbreviation dead_reset :: "env \<Rightarrow> reset_row \<Rightarrow> bool" where
  "dead_reset e x \<equiv> dead e sessionRetention (pr_expires_at x) (pr_used_at x)"

abbreviation dead_verification :: "env \<Rightarrow> verification_row \<Rightarrow> bool" where
  "dead_verification e x \<equiv> dead e sessionRetention (ev_expires_at x) (ev_used_at x)"

lemma reap_tick_db:
  assumes "reap_tick e w = (r, w')"
  shows "db w' = (db w)\<lparr>sessions := sessions (db w'), password_resets := password_resets (db w'),
        email_verifications := email_verifications (db w')\<rparr>"
    "sessions (db w') \<in> {sessions (db w), delete_where (dead_session e) (sessions (db w))}"
    "password_resets (db w') \<in> {password_resets (db w),
       delete_where (dead_reset e) (password_resets (db w))}"
    "email_verifications (db w') \<in> {email_verifications (db w),
       delete_where (dead_verification e) (email_verifications (db w))}"
proof -
  have then_attempt: "\<exists>x w1. attempt m w = (x, w1) \<and> k w1 = (r, w')"
    if "then_op (attempt m) k w = (r, w')" for m :: "nat op" and k :: "unit op" and w
    using that by (auto simp: bind_op_def attempt_def split: prod.splits)
  from assms obtain r1 r2 r3 w1 w2 where
    runs: "attempt (CleanupSessions e sessionRetention) w = (r1, w1)"
      "attempt (CleanupPasswordResets e sessionRetention) w1 = (r2, w2)"
      "attempt (CleanupEmailVerifications e sessionRetention) w2 = (r3, w')"
    unfolding reap_tick_def by (auto dest!: then_attempt)
  from runs(1) have 1: "db w1 = db w
      \<or> db w1 = (db w)\<lparr>sessions := delete_where (dead_session e) (sessions (db w))\<rparr>"
    unfolding CleanupSessions_def DeleteDeadSessions_def by (auto dest!: sweep_step simp: Let_def)
  from runs(2) have 2: "db w2 = db w1
      \<or> db w2 = (db w1)\<lparr>password_resets := delete_where (dead_reset e) (password_resets (db w1))\<rparr>"
    unfolding CleanupPasswordResets_def DeleteDeadPasswordResets_def
    by (auto dest!: sweep_step simp: Let_def)
  from runs(3) have 3: "db w' = db w2 \<or> db w' = (db w2)\<lparr>email_verifications :=
        delete_where (dead_verification e) (email_verifications (db w2))\<rparr>"
    unfolding CleanupEmailVerifications_def DeleteDeadEmailVerifications_def
    by (auto dest!: sweep_step simp: Let_def)
  show "db w' = (db w)\<lparr>sessions := sessions (db w'), password_resets := password_resets (db w'),
        email_verifications := email_verifications (db w')\<rparr>"
    "sessions (db w') \<in> {sessions (db w), delete_where (dead_session e) (sessions (db w))}"
    "password_resets (db w') \<in> {password_resets (db w),
       delete_where (dead_reset e) (password_resets (db w))}"
    "email_verifications (db w') \<in> {email_verifications (db w),
       delete_where (dead_verification e) (email_verifications (db w))}"
    using 1 2 3 by auto
qed

text \<open>
  C33: a sweep ends nobody's session and voids no link: whichever of its
  statements fail, it removes only sessions and links that were closed or expired longer ago
  than the retention, touches no other table, and every token that authenticated before
  authenticates the same user after it.
\<close>

theorem sweep_spares_live:
  assumes "reap_tick e w = (r, w')" "keys_ok (db w)" "quiet e'" "sql_now e \<le> sql_now e'"
  shows "((\<exists>x w1. Authenticate e' token w' = (Inr (u, x), w1))
      \<longleftrightarrow> (\<exists>x w1. Authenticate e' token w = (Inr (u, x), w1)))
   \<and> db w' = (db w)\<lparr>sessions := sessions (db w'), password_resets := password_resets (db w'),
        email_verifications := email_verifications (db w')\<rparr>
   \<and> set (sessions (db w)) - set (sessions (db w')) \<subseteq> {x. dead_session e x}
   \<and> set (password_resets (db w)) - set (password_resets (db w')) \<subseteq> {x. dead_reset e x}
   \<and> set (email_verifications (db w)) - set (email_verifications (db w'))
       \<subseteq> {x. dead_verification e x}"
proof -
  note sweep = reap_tick_db [OF assms(1)]
  have users: "users (db w') = users (db w)" by (subst sweep(1)) simp
  have "distinct (map s_token_hash (sessions (db w')))"
    using assms(2) sweep(2) by (auto simp: keys_ok_def delete_where_def distinct_map_filter)
  with assms(2) have keys: "keys_ok (db w')" by (subst sweep(1)) (simp add: keys_ok_def)
  have live: "x \<in> set (sessions (db w')) \<longleftrightarrow> x \<in> set (sessions (db w))"
    if "live_session e' digest x" for x digest
    using sweep(2) that assms(4)
    by (auto simp: live_session_def dead_def sessionRetention_def)
  have "(\<exists>x w1. Authenticate e' token w' = (Inr (u, x), w1))
      \<longleftrightarrow> (\<exists>x w1. Authenticate e' token w = (Inr (u, x), w1))"
    unfolding Authenticate_iff [OF assms(3) keys] Authenticate_iff [OF assms(3,2)] users
    using live by blast
  with sweep show ?thesis by auto
qed

theorem sweep_spares_live_witness:
  "\<exists>x w1. Authenticate (demo_env\<lparr>sql_now := 50\<rparr>) ''bob-token'' (snd (reap_tick demo_env demo_world))
     = (Inr (scanUser (demo_user 2 ''bob@x''), x), w1)"
proof -
  let ?e = "demo_env\<lparr>sql_now := 50\<rparr>"
  have quiet: "quiet ?e" by (simp add: quiet_def demo_env_def)
  have "\<exists>x w1. Authenticate ?e ''bob-token'' demo_world = (Inr (scanUser (demo_user 2 ''bob@x''), x), w1)"
    unfolding Authenticate_iff [OF quiet keys_ok_demo [folded db_demo_world]]
    by (simp add: demo_defs live_session_def HashToken_def demo_env_def)
  moreover obtain r w' where run: "reap_tick demo_env demo_world = (r, w')" by fastforce
  ultimately show ?thesis
    using sweep_spares_live [OF run _ quiet] by simp
qed

end
