(* ===== verification/Edge_Theorems.thy ===== *)
theory Edge_Theorems
  imports Password
begin

text \<open>
  Theorems on the parts with no database behind them: the configuration the process starts
  with, the rate limiter, the headers of an email, and the tokens.
\<close>

section \<open>Configuration\<close>

text \<open>\<open>Load\<close> lets exactly the sound configurations through.\<close>

lemma load_accepts:
  "Load parsed = Inr s \<longleftrightarrow>
     parsed = Inr s \<and> sound_config s \<and> (IsProduction s \<longrightarrow> production_safe s)"
  by (auto simp: Load_def validate_None_iff [symmetric] split: sum.splits option.splits)

section \<open>The rate limiter\<close>

lemma limiter_reach_positive:
  "limiter_reach cfg l \<Longrightarrow> buckets l key = Some b \<Longrightarrow> 1 \<le> bucket_count b"
proof (induction arbitrary: key b rule: limiter_reach.induct)
  case (allowed l now now2 k)
  then show ?case
    by (cases "key = k") (fastforce simp: allow_def split: option.splits if_splits)+
qed (auto simp: newLimiter_def reap_def split: option.splits if_splits)

text \<open>
  C26: in any stretch of time as long as the window at most \<open>2n - 1\<close> attempts on
  a key are let through, \<open>n\<close> being the configured number, whatever came before; and at most
  \<open>n\<close> in the window that starts with the first attempt on a fresh key. An attempt after the
  end of a key's window is always let through: nobody is locked out for longer.
\<close>

theorem limiter_bound:
  assumes "limiter_reach cfg l" "1 \<le> Attempts cfg" "0 \<le> Window cfg" "sorted (t # ts)"
    and "\<forall>t' \<in> set ts. t' \<le> t + Window cfg"
  shows "int (allowed_count key (t # ts) l) \<le> 2 * Attempts cfg - 1
   \<and> (buckets l key = None \<longrightarrow> int (allowed_count key (t # ts) l) \<le> Attempts cfg)
   \<and> ((\<forall>b. buckets l key = Some b \<longrightarrow> t > bucket_expiresAt b) \<longrightarrow> fst (fst (allow t t key l)))"
proof -
  note cfg = limiter_reach_cfg [OF assms(1)]
  have "within_limit l key" using limiter_reach_within [OF assms(1,2)] .
  moreover have "\<forall>t' \<in> set (t # ts). t \<le> t' \<and> t' \<le> t + limit_window l"
    using assms cfg by auto
  ultimately have "int (allowed_count key (t # ts) l) \<le> 2 * limit_attempts l
      - (case buckets l key of Some b \<Rightarrow> bucket_count b | None \<Rightarrow> limit_attempts l)
      \<or> int (allowed_count key (t # ts) l) \<le> limit_attempts l"
    using assms(2,4) cfg by (intro allowed_span) auto
  then have "int (allowed_count key (t # ts) l) \<le> 2 * Attempts cfg - 1"
    using cfg assms(2) limiter_reach_positive [OF assms(1), of key]
    by (cases "buckets l key") force+
  moreover have "int (allowed_count key (t # ts) l) \<le> Attempts cfg" if "buckets l key = None"
    using allowed_fresh [where l = l and key = key and t = t and ts = ts] that cfg assms by simp
  moreover have "fst (fst (allow t t key l))"
    if "\<forall>b. buckets l key = Some b \<longrightarrow> t > bucket_expiresAt b"
    using that by (auto simp: allow_def split: option.split)
  ultimately show ?thesis by blast
qed

text \<open>The bound is reached: two attempts per ten units, and three pass within six.\<close>

theorem limiter_bound_witness:
  "int (allowed_count ''k'' [10, 11, 12]
     (snd (allow 0 0 ''k'' (newLimiter \<lparr>Enabled = True, Attempts = 2, Window = 10\<rparr>)))) \<le> 3
   \<and> allowed_count ''k'' [10, 11, 12]
     (snd (allow 0 0 ''k'' (newLimiter \<lparr>Enabled = True, Attempts = 2, Window = 10\<rparr>))) = 3"
proof -
  let ?cfg = "\<lparr>Enabled = True, Attempts = 2, Window = 10\<rparr>"
  let ?l = "snd (allow 0 0 ''k'' (newLimiter ?cfg))"
  have "limiter_reach ?cfg ?l" by (intro limiter_reach.intros)
  from limiter_bound [OF this, of 10 "[11, 12]" "''k''"]
  have "int (allowed_count ''k'' [10, 11, 12] ?l) \<le> 3" by simp
  moreover have "allowed_count ''k'' [10, 11, 12] ?l = 3"
    by (simp add: allowed_count_def newLimiter_def allow_def)
  ultimately show ?thesis by blast
qed

text \<open>The sweep of the limiter only frees memory: it changes no answer.\<close>

lemma limiter_reap:
  assumes "\<forall>t \<in> set ts. now \<le> t"
  shows "fst (attempts_at key ts (reap now l)) = fst (attempts_at key ts l)"
proof -
  have "fst (attempts_at key ts l1) = fst (attempts_at key ts l2)"
    if "buckets l1 key = buckets l2 key" "limit_attempts l1 = limit_attempts l2"
      "limit_window l1 = limit_window l2" for ts and l1 l2 :: limiter
    using that
  proof (induction ts arbitrary: l1 l2)
    case (Cons t ts)
    have same: "fst (allow t t key l1) = fst (allow t t key l2)"
      "buckets (snd (allow t t key l1)) key = buckets (snd (allow t t key l2)) key"
      using Cons.prems by (auto simp: allow_def split: option.split)
    have "fst (attempts_at key ts (snd (allow t t key l1)))
        = fst (attempts_at key ts (snd (allow t t key l2)))"
      using Cons.prems same by (intro Cons.IH) simp_all
    with same(1) show ?case by (auto split: prod.split)
  qed simp
  note same = this
  show ?thesis
  proof (cases ts)
    case (Cons t ts')
    with assms have "now \<le> t" by simp
    note step = allow_reap [OF this, of t key l]
    have "fst (attempts_at key ts' (snd (allow t t key (reap now l))))
        = fst (attempts_at key ts' (snd (allow t t key l)))"
      using step by (intro same) (simp_all add: reap_def)
    with step(1) Cons show ?thesis by (auto split: prod.split)
  qed simp
qed

section \<open>Mail headers\<close>

text \<open>The header block of a mail, read by lines: up to the first empty one.\<close>

definition header_lines :: "string \<Rightarrow> string list" where
  "header_lines s = takeWhile (\<lambda>l. l \<noteq> [] \<and> l \<noteq> [CHR 0x0D]) (Split s (CHR 0x0A))"

lemma header_lines_Cons:
  assumes "CHR 0x0A \<notin> set l" "l \<noteq> []" "l \<noteq> [CHR 0x0D]"
  shows "header_lines (l @ CHR 0x0A # s) = l # header_lines s"
  using assms by (simp add: header_lines_def Split_append)

lemma header_lines_end: "header_lines (CHR 0x0D # CHR 0x0A # s) = []"
  using Split_append [of "CHR 0x0A" "[CHR 0x0D]" s] by (simp add: header_lines_def)

lemma newline_free: "\<not> newline_in s \<Longrightarrow> CHR 0x0A \<notin> set s"
  by (auto simp: newline_in_def list_ex_iff)

text \<open>
  C28: no header injection. Whatever address and subject a mail has, the
  SMTP mailer either refuses it for a line break in them, or hands over a text whose header
  block is exactly the four lines the program wrote; the body cannot add one.
\<close>

theorem mail_headers_fixed:
  assumes "\<not> newline_in from"
  shows "mailer_Send net (SMTPMailer addr from) msg = Some HeaderInjection
   \<or> header_lines (smtp_body from msg)
     = [''From: '' @ from @ [CHR 0x0D], ''To: '' @ To msg @ [CHR 0x0D],
        ''Subject: '' @ Subject msg @ [CHR 0x0D],
        ''Content-Type: text/plain; charset=utf-8'' @ [CHR 0x0D]]"
proof (cases "newline_in (To msg) \<or> newline_in (Subject msg)")
  case True
  then show ?thesis by (simp add: mailer_Send_def)
next
  case False
  with assms have free: "CHR 0x0A \<notin> set from" "CHR 0x0A \<notin> set (To msg)"
    "CHR 0x0A \<notin> set (Subject msg)" by (simp_all add: newline_free)
  have body: "smtp_body from msg = (''From: '' @ from @ [CHR 0x0D]) @ CHR 0x0A #
      (''To: '' @ To msg @ [CHR 0x0D]) @ CHR 0x0A #
      (''Subject: '' @ Subject msg @ [CHR 0x0D]) @ CHR 0x0A #
      (''Content-Type: text/plain; charset=utf-8'' @ [CHR 0x0D]) @ CHR 0x0A #
      CHR 0x0D # CHR 0x0A # Body msg"
    by (simp add: smtp_body_def)
  have "header_lines (smtp_body from msg)
     = [''From: '' @ from @ [CHR 0x0D], ''To: '' @ To msg @ [CHR 0x0D],
        ''Subject: '' @ Subject msg @ [CHR 0x0D],
        ''Content-Type: text/plain; charset=utf-8'' @ [CHR 0x0D]]"
    unfolding body
    apply (subst header_lines_Cons, use free in simp, simp, simp)+
    apply (subst header_lines_end)
    apply (rule refl)
    done
  then show ?thesis ..
qed

theorem mail_headers_fixed_witness:
  "mailer_Send (\<lambda>_ _ _ _. True) (SMTPMailer ''h:25'' ''app@x'')
       \<lparr>To = ''a@x'' @ [CHR 0x0D, CHR 0x0A] @ ''Bcc: b@x'', Subject = ''s'', Body = ''''\<rparr>
     = Some HeaderInjection
   \<and> length (header_lines (smtp_body ''app@x'' \<lparr>To = ''a@x'', Subject = ''s'', Body = ''b''\<rparr>)) = 4"
proof -
  have "\<not> newline_in ''app@x''" by (simp add: newline_in_def)
  from mail_headers_fixed [OF this, of "\<lambda>_ _ _ _. True" "''h:25''"
      "\<lparr>To = ''a@x'', Subject = ''s'', Body = ''b''\<rparr>"]
  show ?thesis by (auto simp: mailer_Send_def newline_in_def)
qed

end
