(* ===== verification/Process_Theorems.thy ===== *)
theory Process_Theorems
  imports Http_Runs Upkeep_Theorems Edge_Theorems
begin

text \<open>
  Theorems on the process as a whole: how it starts, what holds for as long as it serves,
  and what its commands leave behind when they fail.
\<close>

section \<open>A process that serves\<close>

text \<open>
  The runs of a started server: requests, each with its own clocks, faults and randomness but
  with the configuration the process was started with, ticks of the reaper, and ticks of the
  limiter's.
\<close>

definition same_process :: "env \<Rightarrow> env \<Rightarrow> bool" where
  "same_process e0 e \<longleftrightarrow>
     auth_cfg e = auth_cfg e0 \<and> mail_cfg e = mail_cfg e0 \<and> the_mailer e = the_mailer e0"

inductive process_run :: "server \<Rightarrow> env \<Rightarrow> world \<Rightarrow> world \<Rightarrow> bool" for srv e0 where
  started: "process_run srv e0 w w"
| serves: "process_run srv e0 w w1 \<Longrightarrow> same_process e0 e \<Longrightarrow> serve srv e rq w1 = (r, w2) \<Longrightarrow>
    process_run srv e0 w w2"
| reaps: "process_run srv e0 w w1 \<Longrightarrow> same_process e0 e \<Longrightarrow> reap_tick e w1 = (r', w2) \<Longrightarrow>
    process_run srv e0 w w2"
| frees: "process_run srv e0 w w1 \<Longrightarrow>
    process_run srv e0 w (w1\<lparr>limits := map_option (reap now) (limits w1)\<rparr>)"

lemma process_run_http: "process_run srv e0 w w' \<Longrightarrow> http_run {} w w'"
proof (induction rule: process_run.induct)
  case (started w)
  show ?case by (rule http_run.start)
next
  case (serves w w1 e rq r w2)
  from http_run.request [OF serves.IH _ serves.hyps(3)] show ?case by blast
next
  case (reaps w w1 e r' w2)
  from http_run.sweep [OF reaps.IH reaps.hyps(3)] show ?case .
next
  case (frees w w1 now)
  from http_run.limiter_sweep [OF frees.IH] show ?case .
qed

lemma process_run_reap_loop:
  assumes "process_run srv e0 w w1" "\<forall>e \<in> set ticks. same_process e0 e"
    and "reap_loop ticks w1 = (r, w2)"
  shows "process_run srv e0 w w2"
  using assms
proof (induction ticks arbitrary: w1)
  case Nil
  then show ?case by (simp add: return_op_def)
next
  case (Cons e ticks)
  obtain x w3 where tick: "reap_tick e w1 = (x, w3)" by fastforce
  from Cons.prems tick have "process_run srv e0 w w3" by (auto intro: process_run.reaps)
  with Cons tick show ?case by (cases x) (auto simp: bind_op_def)
qed

lemma process_run_limiter_reaper:
  "process_run srv e0 w w1 \<Longrightarrow>
     process_run srv e0 w (w1\<lparr>limits := map_option (runReaper ticks) (limits w1)\<rparr>)"
proof (induction ticks arbitrary: w1)
  case Nil
  then show ?case by (simp add: option.map_ident)
next
  case (Cons now ticks)
  from Cons.IH [OF process_run.frees [OF Cons.prems, of now]] show ?case
    by (simp add: option.map_comp comp_def)
qed

lemma run_start_Inr:
  assumes "run_start x e w = (Inr (srv, e', listen), w1)"
  obtains s stale w0 where "Load (parsed_environment x) = Inr s"
    "e' = NewService e s (newMailer (Mail s))" "SyncPermissions e' w = (Inr stale, w0)"
    "(srv, limits w1, listen) = NewServer (Server s) (RateLimit s) (settings.AllowedOrigins s)
        (Debug (App s)) (service_text x)" "db w1 = db w0"
proof -
  from assms obtain s where s: "Load (parsed_environment x) = Inr s"
    by (auto simp: run_start_def with_pool_def split: sum.splits)
  obtain a b c where new: "NewServer (Server s) (RateLimit s) (settings.AllowedOrigins s)
        (Debug (App s)) (service_text x) = (a, b, c)" by (metis surj_pair)
  let ?e = "NewService e s (newMailer (Mail s))"
  from assms obtain stale w0 where sync: "SyncPermissions ?e w = (Inr stale, w0)"
    by (auto simp: run_start_def with_pool_def s Let_def split: sum.splits prod.splits)
  have "e' = ?e" "(srv, limits w1, listen) = (a, b, c)" "db w1 = db w0"
    using assms by (auto simp: run_start_def with_pool_def s Let_def sync new split: sum.splits)
  with that [OF s _ _ _ _] sync new show ?thesis by metis
qed

lemma lawful_sync:
  assumes "SyncPermissions e w = (Inr stale, w')"
  shows "lawful (db w) (db w')"
  using SyncPermissions_Inr [OF assms]
  by (simp add: law_defs audit_grows_def)

text \<open>
  C37: a process that starts has a sound configuration, and in production one without
  debug output, wildcard origins, unencrypted database connection or mailer that prints
  links; the permission table holds everything the code enforces; and from there on, for as
  long as it serves whatever requests with whatever failures, the keys of the tables stay
  unique, the audit log only grows, nobody becomes a superuser and the admin role keeps its
  last holder.
\<close>

theorem startup:
  assumes "run_start x e w = (Inr (srv, e', listen), w1)" "process_run srv e' w1 w2" "keys_ok (db w)"
  shows "\<exists>s. parsed_environment x = Inr s \<and> sound_config s
   \<and> (IsProduction s \<longrightarrow> production_safe s \<and> \<not> srv_debug srv \<and> ''*'' \<notin> set (AllowedOrigins srv)
        \<and> the_mailer e' \<noteq> LogMailer)
   \<and> auth_cfg e' = Auth s \<and> listenAddr listen = Addr (Server s)
   \<and> limits w1 = (if Enabled (RateLimit s) then Some (newLimiter (RateLimit s)) else None)
   \<and> AllPermissions \<subseteq> fst ` set (permissions (db w1)) \<and> users (db w1) = users (db w)
   \<and> keys_ok (db w2) \<and> (\<exists>new. audit_log (db w2) = new @ audit_log (db w))
   \<and> superusers (db w2) \<subseteq> superusers (db w) \<and> (admin_held (db w) \<longrightarrow> admin_held (db w2))"
proof (rule run_start_Inr [OF assms(1)])
  fix s stale w0
  assume load: "Load (parsed_environment x) = Inr s"
    and e': "e' = NewService e s (newMailer (Mail s))"
    and sync: "SyncPermissions e' w = (Inr stale, w0)"
    and new: "(srv, limits w1, listen) = NewServer (Server s) (RateLimit s)
        (settings.AllowedOrigins s) (Debug (App s)) (service_text x)"
    and w1: "db w1 = db w0"
  from load have conf: "parsed_environment x = Inr s" "sound_config s"
    "IsProduction s \<longrightarrow> production_safe s" by (simp_all add: load_accepts)
  have "lawful (db w) (db w2)"
    using law.rel_trans [OF lawful_sync [OF sync]]
      http_run_lawful [OF process_run_http [OF assms(2)]] w1 by metis
  moreover have "AllPermissions \<subseteq> fst ` set (permissions (db w1))" "users (db w1) = users (db w)"
    using SyncPermissions_Inr [OF sync] w1 by (simp_all add: fst_upsert_all set_Catalog)
  ultimately show ?thesis
    using conf new assms(3)
    by (auto simp: NewServer_def e' NewService_def lawful_def audit_grows_def production_safe_def
        newMailer_def NewSMTPMailer_def)
qed

definition demo_settings :: settings where
  "demo_settings =
    \<lparr>App = \<lparr>Environment = ''production'', Debug = False, LogLevel = ''info'', InstanceID = ''a''\<rparr>,
     Server = \<lparr>Host = '''', Port = 8080, ReadTimeout = 1, WriteTimeout = 1, IdleTimeout = 1,
       ShutdownTimeout = 1, TrustProxyHeaders = False\<rparr>,
     Postgres = \<lparr>PgHost = ''db'', PgPort = 5432, PgUser = ''app'', PgPassword = ''x'',
       PgDatabase = ''app'', SSLMode = ''require'', MaxConns = 10, MinConns = 2,
       MaxConnLifetime = 1, MaxConnIdleTime = 1\<rparr>,
     Auth = \<lparr>SessionTTL = 1, InvitationTTL = 1, PasswordResetTTL = 1, EmailVerifyTTL = 1,
       MinPasswordLength = 12, ArgonMemoryKiB = 65536, ArgonIterations = 3, ArgonParallelism = 4\<rparr>,
     Retention = 0, AllowedOrigins = [''https://a''],
     Mail = \<lparr>Backend = ''smtp'', From = ''a@b'', BaseURL = ''https://a'', SMTPHost = ''h'',
       SMTPPort = 25, SMTPUsername = '''', SMTPPassword = ''''\<rparr>,
     RateLimit = \<lparr>Enabled = True, Attempts = 10, Window = 1\<rparr>\<rparr>"

text \<open>Everything outside works.\<close>

definition demo_outside :: outside where
  "demo_outside = \<lparr>parsed_environment = Inr demo_settings, ParseConfig = (\<lambda>_. True),
     NewWithConfig = (\<lambda>_. True), Ping = True, sql_Open = (\<lambda>_. True), sql_Ping = True,
     SetDialect = True, goose = (\<lambda>_ w. (True, w)), cli_text = (\<lambda>_. ''error''),
     service_text = (\<lambda>_. ''error'')\<rparr>"

lemma demo_settings_load: "Load (Inr demo_settings) = Inr demo_settings"
  by (simp add: load_accepts demo_settings_def sound_config_def production_safe_def
      IsProduction_def HasPrefix_def)

lemma demo_start:
  "\<exists>srv e' listen w1. run_start demo_outside demo_env demo_world = (Inr (srv, e', listen), w1)"
proof -
  let ?e = "NewService demo_env demo_settings (newMailer (Mail demo_settings))"
  have "quiet ?e" using quiet_demo by (simp add: quiet_def NewService_def)
  then obtain stale w0 where "SyncPermissions ?e demo_world = (Inr stale, w0)"
    using SyncPermissions_quiet by blast
  moreover have "NewPool demo_outside cfg = Inr \<lparr>poolDSN = DSN cfg, poolMaxConns = MaxConns cfg,
      poolMinConns = MinConns cfg, poolMaxConnLifetime = MaxConnLifetime cfg,
      poolMaxConnIdleTime = MaxConnIdleTime cfg\<rparr>" for cfg
    by (simp add: NewPool_def demo_outside_def)
  moreover have "parsed_environment demo_outside = Inr demo_settings"
    by (simp add: demo_outside_def)
  ultimately show ?thesis
    by (simp add: run_start_def with_pool_def demo_settings_load Let_def NewServer_def)
qed

theorem startup_witness:
  "\<exists>srv e' listen w1. run_start demo_outside demo_env demo_world = (Inr (srv, e', listen), w1)
     \<and> \<not> srv_debug srv \<and> admin_held (db (snd (reap_tick e' w1)))"
proof -
  obtain srv e' listen w1 where start:
    "run_start demo_outside demo_env demo_world = (Inr (srv, e', listen), w1)"
    using demo_start by blast
  have "same_process e' e'" by (simp add: same_process_def)
  then have run: "process_run srv e' w1 (snd (reap_tick e' w1))"
    by (rule process_run.reaps [OF process_run.started _ surjective_pairing])
  have keys: "keys_ok (db demo_world)" by simp
  have prod: "parsed_environment demo_outside = Inr demo_settings" by (simp add: demo_outside_def)
  have live: "IsProduction demo_settings" by (simp add: IsProduction_def demo_settings_def)
  have "admin_held (db demo_world)" using lawful_demo by simp
  with startup [OF start run keys] prod live start show ?thesis by auto
qed

section \<open>Commands that fail\<close>

lemma atomic_opD: "atomic_op m \<Longrightarrow> m w = (Inl err, w') \<Longrightarrow> db w' = db w"
  by (auto simp: atomic_op_def)

lemma atomic_commands:
  "atomic_op (SetSuperuser e email flag)" "atomic_op (GrantRoleByKey e email roleKey)"
  "atomic_op (runPurge e retention)" "atomic_op (SyncPermissions e)"
proof -
  show "atomic_op (SetSuperuser e email flag)" "atomic_op (GrantRoleByKey e email roleKey)"
    unfolding SetSuperuser_def GrantRoleByKey_def
    by (intro atomic_read_bind atomic_intros obeys_intros)+
  show "atomic_op (runPurge e retention)" "atomic_op (SyncPermissions e)"
    unfolding runPurge_def SyncPermissions_def
    by (cases "retention \<le> 0") (simp_all add: atomic_InTx atomic_read reading.obeys_return)
qed

lemma failed_commands:
  "runSetSuperuser x e args grant w = (Inl err, w') \<Longrightarrow> db w' = db w"
  "runGrantRole x e args w = (Inl err, w') \<Longrightarrow> db w' = db w"
  "purge_command x e w = (Inl err, w') \<Longrightarrow> db w' = db w"
  "run_start x e w = (Inl err, w') \<Longrightarrow> db w' = db w"
  using atomic_commands [THEN atomic_opD]
  by (auto simp: runSetSuperuser_def runGrantRole_def purge_command_def run_start_def with_pool_def
      Let_def split: list.splits if_splits sum.splits prod.splits)



end
