(* ===== verification/Response_Theorems.thy ===== *)
theory Response_Theorems
  imports Http_Access
begin

text \<open>
  Theorems on what leaves the server: every request is answered, no operation's failure
  escapes the handlers, an internal error does not tell its text, and the security headers
  and the CORS headers are the ones the configuration allows.
\<close>

section \<open>Handlers always answer\<close>

definition responds :: "(response \<Rightarrow> bool) \<Rightarrow> response op \<Rightarrow> bool" where
  "responds P m \<longleftrightarrow> (\<forall>w. \<exists>r w'. m w = (Inr r, w') \<and> P r)"

text \<open>A response the handlers may write: known headers, and no detail of an internal error.\<close>

definition discreet :: "server \<Rightarrow> response \<Rightarrow> bool" where
  "discreet s r \<longleftrightarrow>
     fst ` set (headers r) \<subseteq> {''Content-Type'', ''WWW-Authenticate'', ''Retry-After''}
   \<and> (\<not> srv_debug s \<and> status r = 500 \<longrightarrow>
        payload r = NoBody \<or> payload r = PError ''internal server error'')"

named_theorems answer_intros

lemma responds_writes [answer_intros]:
  "code \<noteq> 500 \<Longrightarrow> responds (discreet s) (writeJSON code v)"
  "code \<noteq> 500 \<Longrightarrow> responds (discreet s) (writeError code msg)"
  "responds (discreet s) noContent" "responds (discreet s) panic" "responds (discreet s) badJSON"
  by (simp_all add: responds_def discreet_def writeJSON_def writeError_def noContent_def
      panic_def badJSON_def)

lemma responds_attempt [answer_intros]:
  assumes "\<And>x. responds P (k x)"
  shows "responds P (bind_op (attempt m) k)"
proof -
  have "\<exists>r w'. bind_op (attempt m) k w = (Inr r, w') \<and> P r" for w
    using assms by (cases "m w") (simp add: bind_op_def attempt_def responds_def)
  then show ?thesis by (simp add: responds_def)
qed

lemma responds_with_header:
  assumes "responds (discreet s) m" "fst h \<in> {''Content-Type'', ''WWW-Authenticate'', ''Retry-After''}"
  shows "responds (discreet s) (with_header h m)"
  unfolding responds_def
proof
  fix w
  obtain r w' where "m w = (Inr r, w')" "discreet s r"
    using assms(1) unfolding responds_def by metis
  with assms(2) show "\<exists>r w'. with_header h m w = (Inr r, w') \<and> discreet s r"
    by (simp add: with_header_def bind_op_def discreet_def)
qed

lemma error_response_500:
  "\<not> srv_debug s \<Longrightarrow> error_response s err = (500, msg) \<Longrightarrow> msg = ''internal server error''"
  by (auto simp: error_response_def split: error.splits)

lemma responds_handle [answer_intros]: "responds (discreet s) (handle s rq e c err)"
proof -
  obtain code msg where er: "error_response s err = (code, msg)" by fastforce
  then have "responds (discreet s) (writeError code msg)"
    using error_response_500 [of s err msg]
    by (auto simp: responds_def discreet_def writeError_def writeJSON_def)
  then have "responds (discreet s) (if err = ErrUnauthenticated
        then with_header (''WWW-Authenticate'', ''Bearer realm='' @ [CHR 0x22] @ ''api'' @ [CHR 0x22])
               (writeError code msg)
        else writeError code msg)" (is "responds _ ?m")
    by (simp add: responds_with_header)
  moreover have "\<exists>w1. auditDenial e rq c err w = (Inr (), w1)" for w
    by (auto simp: auditDenial_def bind_op_def attempt_def split: option.split prod.split)
  ultimately have "\<exists>r w'. handle s rq e c err w = (Inr r, w') \<and> discreet s r" for w
    unfolding handle_def er prod.case responds_def bind_op_def by (metis (no_types, lifting) old.prod.case old.sum.simps(6))
  then show ?thesis by (simp add: responds_def)
qed

lemma responds_run_or_handle [answer_intros]:
  "(\<And>a. responds (discreet s) (k a)) \<Longrightarrow> responds (discreet s) (run_or_handle s rq e c m k)"
  unfolding run_or_handle_def
  by (intro answer_intros) (simp split: sum.split add: responds_handle)

lemma responds_cases [answer_intros]:
  "(b \<Longrightarrow> responds P m1) \<Longrightarrow> (\<not> b \<Longrightarrow> responds P m2) \<Longrightarrow> responds P (if b then m1 else m2)"
  "(\<And>x y. z = (x, y) \<Longrightarrow> responds P (g x y)) \<Longrightarrow> responds P (case z of (x, y) \<Rightarrow> g x y)"
  "(opt = None \<Longrightarrow> responds P m3) \<Longrightarrow> (\<And>x. opt = Some x \<Longrightarrow> responds P (k3 x)) \<Longrightarrow>
     responds P (case opt of None \<Rightarrow> m3 | Some x \<Rightarrow> k3 x)"
  "(\<And>x. sm = Inl x \<Longrightarrow> responds P (k4 x)) \<Longrightarrow> (\<And>x. sm = Inr x \<Longrightarrow> responds P (k5 x)) \<Longrightarrow>
     responds P (case sm of Inl x \<Rightarrow> k4 x | Inr x \<Rightarrow> k5 x)"
  by (simp_all split: option.split sum.split prod.split)

lemma responds_contexts [answer_intros]:
  "(\<And>u. responds (discreet s) (k1 u)) \<Longrightarrow> responds (discreet s) (userFrom c k1)"
  "(\<And>x. responds (discreet s) (k2 x)) \<Longrightarrow> responds (discreet s) (sessionFrom c k2)"
  "(\<And>a. responds (discreet s) (k3 a)) \<Longrightarrow> responds (discreet s) (accessFrom c k3)"
  unfolding userFrom_def sessionFrom_def accessFrom_def by (intro answer_intros; simp)+

section \<open>The handlers and the middleware\<close>

lemma responds_plain_handlers [answer_intros]:
  "responds (discreet s) (handleRegister s rq b1 e c)"
  "responds (discreet s) (handleLogin s rq b2 e c)"
  "responds (discreet s) (handleLogout s rq e c)"
  "responds (discreet s) (handleMe e c)"
  "responds (discreet s) (handleChangePassword s rq b2 e c)"
  "responds (discreet s) (handleListSessions s rq e c)"
  "responds (discreet s) (handleRevokeSession s rq raw e c)"
  "responds (discreet s) (handleRequestPasswordReset s rq b3 e c)"
  "responds (discreet s) (handleResetPassword s rq b2 e c)"
  "responds (discreet s) (handleVerifyEmail s rq b3 e c)"
  "responds (discreet s) (handleResendVerification s rq e c)"
  "responds (discreet s) (handleAcceptInvitation s rq b1 e c)"
  "responds (discreet s) (handleReady e c)"
  "responds (discreet s) (handleListUsers s rq raw e c)"
  "responds (discreet s) (handleListInvitations s rq e c)"
  "responds (discreet s) (handleListRoles s rq e c)"
  "responds (discreet s) (handleListAPIKeys s rq e c)"
  "responds (discreet s) (handleListAuditLog s rq action before actor from_t to_t e c)"
  "responds (discreet s) (handleSetUserActive s rq raw b4 e c)"
  "responds (discreet s) (handleRevokeInvitation s rq raw e c)"
  "responds (discreet s) (handleDeleteRole s rq raw e c)"
  "responds (discreet s) (handleRevokeAPIKey s rq raw e c)"
  unfolding plain_handler_defs by (intro answer_intros; simp)+

lemma responds_granting_handlers [answer_intros]:
  "responds (discreet s) (handleCreateRole s rq b5 e c)"
  "responds (discreet s) (handleUpdateRole s rq raw b6 e c)"
  "responds (discreet s) (handleSetUserRoles s rq raw b7 e c)"
  "responds (discreet s) (handleCreateInvitation s rq b8 e c)"
  "responds (discreet s) (handleCreateAPIKey s rq b9 e c)"
  unfolding handleCreateRole_def handleUpdateRole_def handleSetUserRoles_def
    handleCreateInvitation_def handleCreateAPIKey_def
  by (intro answer_intros; simp)+

lemma responds_rateLimit:
  assumes "responds (discreet s) (next e c)"
  shows "responds (discreet s) (rateLimit s rq keys next e c)"
proof -
  have "responds (discreet s)
      (with_header (''Retry-After'', retry_after t) (handle s rq e c ErrRateLimited))" for t
    by (intro responds_with_header responds_handle) simp
  with assms show ?thesis
    by (simp add: responds_def rateLimit_def split: option.split prod.split)
qed

lemma responds_middleware [answer_intros]:
  assumes "\<And>e c. responds (discreet s) (next e c)"
  shows "responds (discreet s) (requireAuth s rq next e c)"
    "responds (discreet s) (sessionOnly next e c)"
    "responds (discreet s) (requireAccess s rq next e c)"
    "responds (discreet s) (requirePermission s rq q next e c)"
    "responds (discreet s) (withAuditMeta s rq next e c)"
    "responds (discreet s) (limit_ip s rq pre next e c)"
    "responds (discreet s) (limit_ip_email s rq pre next e c)"
  unfolding requireAuth_def sessionOnly_def requireAccess_def requirePermission_def
    withAuditMeta_def limit_ip_def limit_ip_email_def Let_def
  by (intro answer_intros responds_rateLimit assms; simp)+

lemma responds_dispatch: "responds (discreet s) (dispatch s rq e c)"
  unfolding dispatch_def account_def gated_def
  by (cases "rq_route rq"; simp only: route.case; intro answer_intros; simp)

text \<open>What CORS adds.\<close>

definition cors_allows :: "server \<Rightarrow> http_request \<Rightarrow> bool" where
  "cors_allows s rq \<longleftrightarrow>
     rq_header rq ''Origin'' \<noteq> '''' \<and> rq_header rq ''Origin'' \<in> set (AllowedOrigins s)"

lemma cors_run:
  assumes "m w = (Inr r, w')" "discreet s r"
  shows "\<exists>r1 w1. cors s rq m w = (Inr r1, w1)
    \<and> ((''Access-Control-Allow-Origin'', v) \<in> set (headers r1) \<longleftrightarrow>
         cors_allows s rq \<and> v = rq_header rq ''Origin'')
    \<and> (if cors_allows s rq \<and> rq_method rq = ''OPTIONS'' then status r1 = 204 \<and> w1 = w
       else status r1 = status r \<and> payload r1 = payload r \<and> w1 = w')"
proof -
  have plain: "(''Access-Control-Allow-Origin'', v) \<notin> set (headers r)"
  proof
    assume "(''Access-Control-Allow-Origin'', v) \<in> set (headers r)"
    then have "''Access-Control-Allow-Origin'' \<in> fst ` set (headers r)" by force
    with assms(2) show False by (auto simp: discreet_def)
  qed
  show ?thesis
  proof (cases "cors_allows s rq")
    case False
    then have "cors s rq m = m" by (auto simp: cors_def Let_def cors_allows_def)
    with False plain assms(1) show ?thesis by simp
  next
    case True
    then have listed: "rq_header rq ''Origin'' \<noteq> ''''" "AllowedOrigins s \<noteq> []"
      "rq_header rq ''Origin'' \<in> set (AllowedOrigins s)" by (auto simp: cors_allows_def)
    with True plain assms(1) show ?thesis
      by (simp add: cors_def Let_def bind_op_def)
  qed
qed

lemma serve_status:
  assumes "withAuditMeta s rq (dispatch s rq) e no_ctx w = (Inr r, w')"
    and "rq_method rq \<noteq> ''OPTIONS''"
  shows "\<exists>r1. serve s e rq w = (Inr r1, w') \<and> status r1 = status r"
proof -
  let ?m = "withAuditMeta s rq (dispatch s rq) e no_ctx"
  have "responds (discreet s) ?m" by (intro answer_intros responds_dispatch)
  with assms(1) have "discreet s r" unfolding responds_def by (metis Pair_inject sum.inject(2))
  from cors_run [where m = ?m and rq = rq, OF assms(1) this] assms(2) obtain r1
    where "cors s rq ?m w = (Inr r1, w')" "status r1 = status r" by auto
  then show ?thesis by (simp add: serve_def securityHeaders_def bind_op_def)
qed

text \<open>
  C35: every request gets a response, whichever statement fails on the way:
  it carries the security headers, an allowed-origin header only for the request's own origin
  and only if the configuration lists it, and in production the text of an internal error
  stays inside. A preflight of a listed origin is answered at once and changes nothing.
\<close>

theorem responses_guarded:
  "\<exists>r w'. serve s e rq w = (Inr r, w')
    \<and> take (length security_headers) (headers r) = security_headers
    \<and> ((''Access-Control-Allow-Origin'', v) \<in> set (headers r) \<longleftrightarrow>
         v = rq_header rq ''Origin'' \<and> v \<noteq> '''' \<and> v \<in> set (AllowedOrigins s))
    \<and> (\<not> srv_debug s \<and> status r = 500 \<longrightarrow>
         payload r = NoBody \<or> payload r = PError ''internal server error'')
    \<and> (cors_allows s rq \<and> rq_method rq = ''OPTIONS'' \<longrightarrow> status r = 204 \<and> w' = w)"
proof -
  let ?m = "withAuditMeta s rq (dispatch s rq) e no_ctx"
  have "responds (discreet s) ?m" by (intro answer_intros responds_dispatch)
  then obtain r w1 where m: "?m w = (Inr r, w1)" "discreet s r" unfolding responds_def by metis
  from cors_run [where m = ?m and rq = rq and v = v, OF m] obtain r1 w2 where c: "cors s rq ?m w = (Inr r1, w2)"
    "(''Access-Control-Allow-Origin'', v) \<in> set (headers r1) \<longleftrightarrow>
       cors_allows s rq \<and> v = rq_header rq ''Origin''"
    "if cors_allows s rq \<and> rq_method rq = ''OPTIONS'' then status r1 = 204 \<and> w2 = w
     else status r1 = status r \<and> payload r1 = payload r \<and> w2 = w1" by blast
  have sec: "(''Access-Control-Allow-Origin'', v) \<notin> set security_headers"
    by (simp add: security_headers_def)
  from c(1) have run: "serve s e rq w = (Inr (r1\<lparr>headers := security_headers @ headers r1\<rparr>), w2)"
    by (simp add: serve_def securityHeaders_def bind_op_def)
  show ?thesis
  proof (intro exI conjI)
    show "serve s e rq w = (Inr (r1\<lparr>headers := security_headers @ headers r1\<rparr>), w2)" by (rule run)
  qed (use c m(2) sec in \<open>auto simp: discreet_def cors_allows_def split: if_splits\<close>)
qed

theorem responses_guarded_witness:
  "\<exists>r. serve (demo_server\<lparr>AllowedOrigins := [''https://a'']\<rparr>) demo_env
       (bob_request\<lparr>rq_method := ''OPTIONS'', rq_header := (\<lambda>_. ''https://a'')\<rparr>) demo_world
     = (Inr r, demo_world) \<and> status r = 204
   \<and> (''Access-Control-Allow-Origin'', ''https://a'') \<in> set (headers r)"
  using responses_guarded [of "demo_server\<lparr>AllowedOrigins := [''https://a'']\<rparr>" demo_env
      "bob_request\<lparr>rq_method := ''OPTIONS'', rq_header := (\<lambda>_. ''https://a'')\<rparr>" demo_world
      "''https://a''"]
  by (simp add: cors_allows_def) blast

end
