(* ===== verification/Trail_Theorems.thy ===== *)
theory Trail_Theorems
  imports Authority
begin

text \<open>
  The audit trail is complete: an operation that changes who may do what either fails and
  leaves the database as it was, or succeeds and leaves exactly one new entry that names the
  caller and the action. The proof follows the code's structure: everything before the
  recording is silent, the recording comes last.
\<close>

section \<open>Silent steps\<close>

definition same_log :: "database \<Rightarrow> database \<Rightarrow> bool" where
  "same_log d d' \<longleftrightarrow> audit_log d' = audit_log d"

interpretation silence: db_relation same_log
  by unfold_locales (simp_all add: same_log_def)

lemma silent_sessions [obeys_intros]:
  "obeys same_log (RevokeUserSessions e uid)"
  "obeys same_log (RevokeSessionByID e uid sid)"
  "obeys same_log (repo_RevokeSession e digest)"
  unfolding RevokeUserSessions_def RevokeSessionByID_def repo_RevokeSession_def
  by (intro obeys_intros; simp add: same_log_def revoke_sessions_def Let_def)+

lemma silent_users [obeys_intros]:
  "obeys same_log (repo_SetUserActive e uid flag)"
  "obeys same_log (UpdateUserPassword e uid hash)"
  "obeys same_log (repo_SetSuperuser e email flag)"
  "obeys same_log (AddUserRole e uid rid)"
  unfolding repo_SetUserActive_def UpdateUserPassword_def repo_SetSuperuser_def AddUserRole_def
    scanUserOrNotFound_def
  by (intro obeys_intros; auto simp: same_log_def update_user_def add_user_role_def
      insert_user_role_def split: if_splits)+

lemma silent_roles [obeys_intros]:
  "obeys same_log (repo_CreateRole e key name perms)"
  "obeys same_log (repo_UpdateRole e rid name perms)"
  "obeys same_log (repo_DeleteRole e rid)"
  "obeys same_log (repo_SetUserRoles e uid rids)"
  unfolding repo_CreateRole_def repo_UpdateRole_def repo_DeleteRole_def repo_SetUserRoles_def
    replaceRolePermissions_def
  by (intro obeys_intros; auto simp: same_log_def insert_role_def insert_role_permission_def
      delete_role_def insert_user_role_def Let_def split: if_splits)+

lemma silent_links_keys [obeys_intros]:
  "obeys same_log (repo_RevokeInvitation e iid)"
  "obeys same_log (repo_CreateAPIKey e uid name tp digest perms t)"
  "obeys same_log (repo_RevokeAPIKey e kid)"
  unfolding repo_RevokeInvitation_def repo_CreateAPIKey_def repo_RevokeAPIKey_def
  by (intro obeys_intros; auto simp: same_log_def revoke_invitations_def insert_api_key_def
      insert_key_permission_def Let_def split: if_splits)+

section \<open>Operations that end in their entry\<close>

text \<open>A successful run leaves one entry of these actions by this actor on top.\<close>

definition records :: "uuid option \<Rightarrow> string set \<Rightarrow> 'a op \<Rightarrow> bool" where
  "records actor actions m \<longleftrightarrow> (\<forall>w a w'. m w = (Inr a, w') \<longrightarrow>
     (\<exists>row. audit_log (db w') = row # audit_log (db w)
        \<and> a_actor_user_id row = actor \<and> a_action row \<in> actions))"

named_theorems records_intros

lemma records_Record [records_intros]:
  "ActorUserID ev = actor \<Longrightarrow> Action ev \<in> actions \<Longrightarrow> records actor actions (Record e ev)"
  unfolding records_def
  by (auto simp: audit_entry_row_def dest!: Record_db)

lemma records_after [records_intros]:
  assumes "obeys same_log m" "\<And>a. records actor actions (k a)"
  shows "records actor actions (bind_op m k)"
  unfolding records_def
proof (intro allI impI)
  fix w a w' assume "bind_op m k w = (Inr a, w')"
  then obtain b w1 where "m w = (Inr b, w1)" and k: "k b w1 = (Inr a, w')"
    by (auto simp: bind_op_Inr_iff)
  with assms(1) have "audit_log (db w1) = audit_log (db w)"
    by (auto simp: same_log_def dest: obeysD)
  with assms(2) [of b] k show "\<exists>row. audit_log (db w') = row # audit_log (db w)
      \<and> a_actor_user_id row = actor \<and> a_action row \<in> actions"
    unfolding records_def by metis
qed

lemma records_before:
  assumes "records actor actions m" "\<And>a. obeys same_log (k a)"
  shows "records actor actions (bind_op m k)"
  unfolding records_def
proof (intro allI impI)
  fix w a w' assume "bind_op m k w = (Inr a, w')"
  then obtain b w1 where m: "m w = (Inr b, w1)" and k: "k b w1 = (Inr a, w')"
    by (auto simp: bind_op_Inr_iff)
  from obeysD [OF assms(2) k] have "audit_log (db w') = audit_log (db w1)"
    by (simp add: same_log_def)
  with assms(1) m show "\<exists>row. audit_log (db w') = row # audit_log (db w)
      \<and> a_actor_user_id row = actor \<and> a_action row \<in> actions"
    unfolding records_def by metis
qed

lemma records_then_return [records_intros]:
  "records actor actions m \<Longrightarrow> records actor actions (then_op m (return_op x))"
  by (intro records_before obeys_intros)

lemma records_InTx [records_intros]: "records actor actions m \<Longrightarrow> records actor actions (InTx e m)"
  unfolding records_def by (auto simp: InTx_Inr_iff) (metis tick_simps(1))

lemma records_cases [records_intros]:
  "records actor actions m \<Longrightarrow> records actor actions m' \<Longrightarrow> records actor actions (if b then m else m')"
  "records actor actions (fail_op err)"
  "(\<And>x y. records actor actions (g x y)) \<Longrightarrow> records actor actions (case z of (x, y) \<Rightarrow> g x y)"
  by (simp_all add: records_def split: prod.split)

lemma silent_guards [obeys_intros]:
  "obeys same_log (refuse_key_taken e key)" "obeys same_log (last_admin_check e before rs)"
  "obeys same_log (last_active_admin_check e target)"
  unfolding refuse_key_taken_def last_admin_check_def last_active_admin_check_def
  by (intro obeys_intros)+

lemma silent_Hash [obeys_intros]: "obeys same_log (Hash e h pw)"
  unfolding Hash_def by (intro obeys_intros)

text \<open>Where a refusal may also come from a failed transaction: nothing has changed.\<close>

definition audited :: "uuid option \<Rightarrow> string set \<Rightarrow> 'a op \<Rightarrow> bool" where
  "audited actor actions m \<longleftrightarrow> atomic_op m \<and> records actor actions m"

lemma audited_transaction: "records actor actions m \<Longrightarrow> audited actor actions (InTx e m)"
  by (simp add: audited_def records_InTx atomic_InTx)

lemma audited_after_read:
  "obeys (=) m \<Longrightarrow> (\<And>a. audited actor actions (k a)) \<Longrightarrow> audited actor actions (bind_op m k)"
  unfolding audited_def
  by (blast intro: atomic_read_bind records_after obeys_mono [of "(=)"] silence.rel_refl)

lemma audited_fail: "audited actor actions (fail_op err)"
  by (simp add: audited_def records_def atomic_op_def)

lemma audited_then_return:
  "audited actor actions m \<Longrightarrow> audited actor actions (bind_op m (\<lambda>x. return_op (f x)))"
  unfolding audited_def
  by (auto intro!: atomic_bind_infallible atomic_intros records_before obeys_intros)

text \<open>
  C36: no change of authority escapes the log: each of these operations
  either fails and leaves the whole database as it was, or succeeds and leaves exactly one
  new entry on top of the log, which names the caller (nobody, for the command line) and
  the action.
\<close>

theorem every_change_audited:
  "audited (Some (userID actor)) {ActionRoleCreated} (CreateRole e actor access key name perms)
   \<and> audited (Some (userID actor)) {ActionRoleUpdated} (UpdateRole e actor access rid name perms)
   \<and> audited (Some (userID actor)) {ActionRoleDeleted} (DeleteRole e actor access rid)
   \<and> audited (Some (userID actor)) {ActionUserRolesUpdated} (SetUserRoles e actor access target rids)
   \<and> audited (Some (userID actor))
       {if isActive then ActionUserReactivated else ActionUserDeactivated}
       (SetUserActive e actor target isActive)
   \<and> audited (Some (userID actor)) {ActionInvitationRevoked} (RevokeInvitation e actor iid)
   \<and> audited (Some (userID actor)) {ActionAPIKeyCreated} (CreateAPIKey e actor access name perms t)
   \<and> audited (Some (userID actor)) {ActionAPIKeyRevoked} (RevokeAPIKey e actor kid)
   \<and> audited (Some (userID actor)) {ActionSessionRevoked} (RevokeSession e actor sid)
   \<and> audited (Some i) {ActionPasswordChanged} (ChangePassword e i current new_password)
   \<and> audited (Some i) {ActionUserLoggedOut} (Logout e token i)
   \<and> audited None {if flag then ActionSuperuserGranted else ActionSuperuserRevoked}
       (SetSuperuser e email flag)
   \<and> audited None {ActionUserRolesUpdated} (GrantRoleByKey e email roleKey)"
proof -
  note steps = audited_after_read audited_transaction records_intros obeys_intros
  have "audited (Some (userID actor)) {ActionRoleCreated} (CreateRole e actor access key name perms)"
    unfolding CreateRole_def split_beta by (intro steps) (simp_all add: Event_def)
  moreover have "audited (Some (userID actor)) {ActionRoleUpdated}
      (UpdateRole e actor access rid name perms)"
    unfolding UpdateRole_def split_beta by (intro steps) (simp_all add: Event_def)
  moreover have "audited (Some (userID actor)) {ActionRoleDeleted} (DeleteRole e actor access rid)"
    unfolding DeleteRole_def by (intro steps) (simp_all add: Event_def)
  moreover have "audited (Some (userID actor)) {ActionUserRolesUpdated}
      (SetUserRoles e actor access target rids)"
    unfolding SetUserRoles_def by (intro steps) (simp_all add: Event_def)
  moreover have "audited (Some (userID actor))
       {if isActive then ActionUserReactivated else ActionUserDeactivated}
       (SetUserActive e actor target isActive)"
    by (cases isActive; cases "userID actor = target"; cases "IsSuperuser actor";
        simp add: SetUserActive_def bind_op_assoc audited_fail)
      (intro steps; simp add: Event_def)+
  moreover have "audited (Some (userID actor)) {ActionInvitationRevoked} (RevokeInvitation e actor iid)"
    unfolding RevokeInvitation_def by (intro steps) (simp_all add: Event_def)
  moreover have "audited (Some (userID actor)) {ActionAPIKeyCreated}
      (CreateAPIKey e actor access name perms t)"
    unfolding CreateAPIKey_def mint_api_key_def Let_def split_beta
    by (intro steps audited_then_return) (simp_all add: Event_def)
  moreover have "audited (Some (userID actor)) {ActionAPIKeyRevoked} (RevokeAPIKey e actor kid)"
    unfolding RevokeAPIKey_def by (intro steps) (simp_all add: Event_def)
  moreover have "audited (Some (userID actor)) {ActionSessionRevoked} (RevokeSession e actor sid)"
    unfolding RevokeSession_def by (intro steps) (simp_all add: Event_def)
  moreover have "audited (Some i) {ActionPasswordChanged} (ChangePassword e i current new_password)"
    unfolding ChangePassword_def by (intro steps) (simp_all add: Event_def)
  moreover have "audited (Some i) {ActionUserLoggedOut} (Logout e token i)"
    unfolding Logout_def by (intro steps) (simp_all add: Event_def)
  moreover have "audited None {if flag then ActionSuperuserGranted else ActionSuperuserRevoked}
       (SetSuperuser e email flag)"
    unfolding SetSuperuser_def by (intro steps) (simp_all add: Event_def)
  moreover have "audited None {ActionUserRolesUpdated} (GrantRoleByKey e email roleKey)"
    unfolding GrantRoleByKey_def by (intro steps) (simp_all add: Event_def)
  ultimately show ?thesis by blast
qed

end
