(* ===== verification/Race_Theorems.thy ===== *)
theory Race_Theorems
  imports Role_Theorems
begin

text \<open>
  Two assignments at once. Under READ COMMITTED, the isolation level of the code's
  transactions, a transaction's statements read what was committed before each of them, and
  writes of different rows do not wait for each other. So the checks of two assignments can
  both run before either writes. \<open>SetUserRoles\<close> is taken apart into its checks, which only
  read, and its writes; the schedule in question is checks, checks, writes, writes.
\<close>

section \<open>The two halves of an assignment\<close>

definition assign_checks ::
  "env \<Rightarrow> access \<Rightarrow> uuid \<Rightarrow> uuid list \<Rightarrow> (role list \<times> role list) op" where
  "assign_checks e access target rids =
     bind_op (repo_GetRolesByIDs e rids) (\<lambda>rs.
     then_op (lift_op (checkEscalation access (unionPermissions rs))) (
     bind_op (LoadUserRoles e target) (\<lambda>before.
     then_op (refuse_if (hasRole before RoleKeyAdmin \<and> \<not> ViaSuperuser access
         \<and> \<not> actorHoldsRole access RoleKeyAdmin) ErrForbidden) (
     then_op (last_admin_check e before rs)
       (return_op (before, rs))))))"

definition assign_writes :: "env \<Rightarrow> user \<Rightarrow> uuid \<Rightarrow> role list \<times> role list \<Rightarrow> unit op" where
  "assign_writes e actor target = (\<lambda>(before, rs).
     then_op (repo_SetUserRoles e target (rolesToIDs rs))
       (Record e (Event (Some (userID actor)) ActionUserRolesUpdated ''user''
         (uuid_String e target)
         [(''from'', JStrs (roleKeys before)), (''to'', JStrs (roleKeys rs))])))"

text \<open>Together, in one transaction, they are the code's function.\<close>

lemma SetUserRoles_halves:
  "SetUserRoles e actor access target rids
     = InTx e (bind_op (assign_checks e access target rids) (assign_writes e actor target))"
  by (simp add: SetUserRoles_def assign_checks_def assign_writes_def bind_op_assoc)

lemma assign_checks_reads: "obeys (=) (assign_checks e access target rids)"
  unfolding assign_checks_def last_admin_check_def by (intro obeys_intros)

lemma assign_checks_Inr:
  assumes "keys_ok (db w)" "assign_checks e access target rids w = (Inr (before, rs), w1)"
  shows "db w1 = db w" "roleID ` set rs = set rids"
proof -
  show "db w1 = db w" using obeysD [OF assign_checks_reads assms(2)] by simp
  from assms(2) obtain w0 where "repo_GetRolesByIDs e rids w = (Inr rs, w0)"
    by (auto simp: assign_checks_def bind_op_Inr_iff)
  from repo_GetRolesByIDs_Inr(2) [OF assms(1) this] show "roleID ` set rs = set rids" .
qed

lemma assign_writes_Inr:
  assumes "assign_writes e actor target (before, rs) w = (Inr x, w1)"
  obtains ev w0 where "db w1 = logged e ev w0 (assign_roles target (rolesToIDs rs) (db w))"
  using assms
  by (auto simp: assign_writes_def bind_op_Inr_iff assign_roles_def
      dest!: Record_logged repo_SetUserRoles_db)

lemma holds_admin_assigned:
  assumes "roleID ` set rs = set rids" "\<forall>r \<in> set (roles d). admin_row r \<longrightarrow> r_id r \<notin> set rids"
  shows "holds_admin (logged e ev w (assign_roles target (rolesToIDs rs) d)) u
    \<longleftrightarrow> u \<noteq> target \<and> holds_admin d u"
  using assms
  by (auto simp: holds_admin_def logged_def assign_roles_def rolesToIDs_def)

section \<open>The race\<close>

text \<open>One assignment: who asks, with which rights, for whom, which roles.\<close>

type_synonym assignment = "user \<times> access \<times> uuid \<times> uuid list"

definition both_assign :: "env \<Rightarrow> assignment \<Rightarrow> assignment \<Rightarrow> unit op" where
  "both_assign e = (\<lambda>(actor1, access1, target1, rids1) (actor2, access2, target2, rids2).
     bind_op (assign_checks e access1 target1 rids1) (\<lambda>x1.
     bind_op (assign_checks e access2 target2 rids2) (\<lambda>x2.
     then_op (assign_writes e actor1 target1 x1) (assign_writes e actor2 target2 x2))))"

text \<open>
  C40: the check on the last administrator does not survive concurrency. When
  two assignments take the role from the two only administrators and the schedule runs both
  checks before either write, both succeed and nobody holds the role; one after the other,
  in either order, they cannot both succeed.
\<close>

theorem last_admin_race:
  assumes "keys_ok (db w)" "\<forall>u. holds_admin (db w) u \<longleftrightarrow> u = u1 \<or> u = u2"
    and "\<forall>r \<in> set (roles (db w)). admin_row r \<longrightarrow> r_id r \<notin> set rids1 \<union> set rids2"
    and "both_assign e (actor1, access1, u1, rids1) (actor2, access2, u2, rids2) w = (Inr (), w')"
  shows "\<not> admin_held (db w')
   \<and> fst (then_op (SetUserRoles e1 actor1 access1 u1 rids1)
            (SetUserRoles e2 actor2 access2 u2 rids2) w) \<noteq> Inr ()
   \<and> fst (then_op (SetUserRoles e2 actor2 access2 u2 rids2)
            (SetUserRoles e1 actor1 access1 u1 rids1) w) \<noteq> Inr ()"
proof -
  from assms(4) obtain b1 rs1 b2 rs2 v1 v2 v3 where
    checks: "assign_checks e access1 u1 rids1 w = (Inr (b1, rs1), v1)"
      "assign_checks e access2 u2 rids2 v1 = (Inr (b2, rs2), v2)" and
    writes: "assign_writes e actor1 u1 (b1, rs1) v2 = (Inr (), v3)"
      "assign_writes e actor2 u2 (b2, rs2) v3 = (Inr (), w')"
    by (auto simp: both_assign_def bind_op_Inr_iff)
  note c1 = assign_checks_Inr [OF assms(1) checks(1)]
  have "keys_ok (db v1)" using assms(1) c1 by simp
  note c2 = assign_checks_Inr [OF this checks(2)]
  obtain ev1 x1 where d3: "db v3 = logged e ev1 x1 (assign_roles u1 (rolesToIDs rs1) (db w))"
    using assign_writes_Inr [OF writes(1)] c1 c2 by metis
  obtain ev2 x2 where d': "db w' = logged e ev2 x2 (assign_roles u2 (rolesToIDs rs2) (db v3))"
    using assign_writes_Inr [OF writes(2)] by metis
  have same: "roles (db v3) = roles (db w)" by (simp add: d3 logged_def assign_roles_def)
  have "\<not> holds_admin (db w') u" for u
    using assms(2,3) c1(2) c2(2) same
    by (auto simp: d' d3 holds_admin_assigned)
  then have gone: "\<not> admin_held (db w')" by (simp add: admin_held_iff)
  have serial: "fst (then_op (SetUserRoles e1 a ac t rids) (SetUserRoles e2 a' ac' t' rids') w) \<noteq> Inr ()"
    if "\<forall>u. holds_admin (db w) u \<longleftrightarrow> u = t \<or> u = t'"
      "\<forall>r \<in> set (roles (db w)). admin_row r \<longrightarrow> r_id r \<notin> set rids \<union> set rids'"
    for e1 e2 a ac t rids a' ac' t' rids'
  proof
    let ?both = "then_op (SetUserRoles e1 a ac t rids) (SetUserRoles e2 a' ac' t' rids')"
    assume "fst (?both w) = Inr ()"
    then obtain v' where "?both w = (Inr (), v')" by (cases "?both w") simp
    then obtain v where one: "SetUserRoles e1 a ac t rids w = (Inr (), v)"
      and two: "SetUserRoles e2 a' ac' t' rids' v = (Inr (), v')"
      by (auto simp: bind_op_Inr_iff)
    have law: "lawful (db w) (db v)" "lawful (db v) (db v')"
      using obeysD [OF lawful_SetUserRoles one] obeysD [OF lawful_SetUserRoles two] .
    then have keys: "keys_ok (db v)" using assms(1) by (simp add: lawful_def)
    from one obtain rs ev x where "roleID ` set rs = set rids"
        "db v = logged e1 ev x (assign_roles t (rolesToIDs rs) (db w))"
      by (metis SetUserRoles_Inr [OF assms(1)])
    moreover from two obtain rs' ev' x' where "roleID ` set rs' = set rids'"
        "db v' = logged e2 ev' x' (assign_roles t' (rolesToIDs rs') (db v))"
      by (metis SetUserRoles_Inr [OF keys])
    moreover have "roles (db v) = roles (db w)"
      using calculation(2) by (simp add: logged_def assign_roles_def)
    ultimately have "\<not> holds_admin (db v') u" for u
      using that by (auto simp: holds_admin_assigned)
    then have "\<not> admin_held (db v')" by (simp add: admin_held_iff)
    moreover have "admin_held (db v')"
      using law assms(1) keys that(1) by (auto simp: lawful_def admin_held_iff)
    ultimately show False by blast
  qed
  have "fst (then_op (SetUserRoles e1 actor1 access1 u1 rids1)
      (SetUserRoles e2 actor2 access2 u2 rids2) w) \<noteq> Inr ()"
    by (rule serial) (use assms(2,3) in auto)
  moreover have "fst (then_op (SetUserRoles e2 actor2 access2 u2 rids2)
      (SetUserRoles e1 actor1 access1 u1 rids1) w) \<noteq> Inr ()"
    by (rule serial) (use assms(2,3) in auto)
  ultimately show ?thesis using gone by blast
qed

text \<open>Ann and Bob are the administrators, and both step down at the same time.\<close>

definition two_admins :: world where
  "two_admins = demo_world\<lparr>db := demo_db\<lparr>user_roles := (uid 2, uid 11) # user_roles demo_db\<rparr>\<rparr>"

lemma distinct_singleton_iff: "distinct xs \<and> set xs = {x} \<longleftrightarrow> xs = [x]"
proof
  assume xs: "distinct xs \<and> set xs = {x}"
  then have "length xs = 1" using distinct_card [of xs] by simp
  then obtain y where "xs = [y]" by (auto simp: length_Suc_conv)
  with xs show "xs = [x]" by simp
qed simp

lemma later_uuid: "uuidv7 demo_env (Suc (Suc (Suc n))) \<noteq> uuidv7 demo_env n"
proof
  assume "uuidv7 demo_env (Suc (Suc (Suc n))) = uuidv7 demo_env n"
  then have "Suc (Suc (Suc n)) mod 1000 = n mod 1000"
    by (simp only: demo_env_simps, subst (asm) uid_eq) simp_all
  then have "1000 dvd Suc (Suc (Suc n)) - n" by (subst (asm) mod_eq_dvd_iff_nat) simp_all
  then show False by (auto dest: dvd_imp_le)
qed

lemma assign_checks_run:
  assumes "quiet e" "keys_ok (db w)" "set rids \<subseteq> r_id ` set (roles (db w))"
    and "(\<Union>r \<in> set rids. granted (db w) r) \<subseteq> Permissions access"
    and "actorHoldsRole access RoleKeyAdmin" "1 < length (holders (db w) RoleKeyAdmin)"
  shows "\<exists>b rs w1. assign_checks e access target rids w = (Inr (b, rs), w1)
    \<and> db w1 = db w \<and> distinct (rolesToIDs rs) \<and> set (rolesToIDs rs) = set rids"
proof -
  from repo_GetRolesByIDs_quiet [OF assms(1,2), of rids] assms(3)
  obtain rs w1 where get: "repo_GetRolesByIDs e rids w = (Inr rs, w1)" by auto
  note rs = repo_GetRolesByIDs_Inr [OF assms(2) get]
  have union: "unionPermissions rs \<subseteq> Permissions access"
    using union_full_roles [OF rs(4)] rs(2) assms(4) by simp
  let ?before = "map (full_role (db w)) (order_roles e (roles_held (db w) target))"
  have load: "LoadUserRoles e target w1 = (Inr ?before, tick w1)"
    using LoadUserRoles_quiet [OF assms(1), of w1 target] assms(2) rs(1) by simp
  obtain w2 where count: "last_admin_check e ?before rs (tick w1) = (Inr (), w2)" "db w2 = db w"
    using last_admin_check_quiet [OF assms(1), of ?before rs "tick w1"] rs(1) assms(6)
    by (cases "last_admin_check e ?before rs (tick w1)") (auto split: if_splits)
  have "assign_checks e access target rids w = (Inr (?before, rs), w2)"
    using assms(5) union
    by (simp add: assign_checks_def bind_op_def get load count checkEscalation_eq lift_op_def)
  with count(2) rs show ?thesis by (auto simp: rolesToIDs_def)
qed

lemma assign_writes_run:
  assumes "quiet e" "rolesToIDs rs = [rid]" "target \<in> u_id ` set (users (db w))"
    and "rid \<in> r_id ` set (roles (db w))" "userID actor \<in> u_id ` set (users (db w))"
    and "uuidv7 e (Suc (Suc (steps w))) \<notin> a_id ` set (audit_log (db w))"
  shows "\<exists>w1 row. assign_writes e actor target (b, rs) w = (Inr (), w1)
    \<and> db w1 = (assign_roles target [rid] (db w))\<lparr>audit_log := row # audit_log (db w)\<rparr>
    \<and> a_id row = uuidv7 e (Suc (Suc (steps w))) \<and> steps w1 = Suc (Suc (Suc (steps w)))"
proof -
  let ?w = "(tick w)\<lparr>db := (db w)\<lparr>user_roles := delete_where (\<lambda>(u, _). u = target) (user_roles (db w))\<rparr>\<rparr>"
  let ?v = "(tick ?w)\<lparr>db := assign_roles target [rid] (db w)\<rparr>"
  have "list_ex (\<lambda>x. u_id x = target) (users (db w))" "list_ex (\<lambda>r. r_id r = rid) (roles (db w))"
    using assms(3,4) by (auto simp: list_ex_iff)
  with assms(1,2) have "repo_SetUserRoles e target (rolesToIDs rs) w = (Inr (), ?v)"
    by (simp add: repo_SetUserRoles_def bind_op_def insert_user_role_def assign_roles_def
        delete_where_def)
  moreover have "\<exists>w1 row. Record e (Event (Some (userID actor)) ActionUserRolesUpdated ''user''
         (uuid_String e target)
         [(''from'', JStrs (roleKeys b)), (''to'', JStrs (roleKeys rs))]) ?v = (Inr (), w1)
    \<and> db w1 = (assign_roles target [rid] (db w))\<lparr>audit_log := row # audit_log (db w)\<rparr>
    \<and> a_id row = uuidv7 e (Suc (Suc (steps w))) \<and> steps w1 = Suc (Suc (Suc (steps w)))"
    using assms(1,5,6)
    by (simp add: Record_Inr_iff Event_def assign_roles_def audit_entry_row_def)
      (rule exI, rule conjI, rule refl, simp)
  ultimately show ?thesis by (auto simp: assign_writes_def bind_op_def)
qed

theorem last_admin_race_witness:
  "\<exists>w'. both_assign demo_env (ann, ann_admin, uid 1, [uid 13]) (bob, ann_admin, uid 2, [uid 13])
      two_admins = (Inr (), w') \<and> \<not> admin_held (db w') \<and> admin_held (db two_admins)"
proof -
  let ?d = "db two_admins"
  have d: "?d = demo_db\<lparr>user_roles := (uid 2, uid 11) # user_roles demo_db\<rparr>"
    by (simp only: two_admins_def) simp
  have keys: "keys_ok ?d" unfolding d by code_simp
  have facts: "set [uid 13] \<subseteq> r_id ` set (roles ?d)" "granted ?d (uid 13) = {''users.read''}"
    "set [uid 1, uid 2] \<subseteq> u_id ` set (users ?d)" "audit_log ?d = []"
    "\<forall>r \<in> set (roles ?d). admin_row r \<longrightarrow> r_id r \<noteq> uid 13"
    and admins: "\<forall>u. holds_admin ?d u \<longleftrightarrow> u = uid 1 \<or> u = uid 2"
    unfolding d
    by (auto simp: demo_defs granted_def admin_row_def holds_admin_def RoleKeyAdmin_def)
  have "{uid 1, uid 2} \<subseteq> set (holders ?d RoleKeyAdmin)" using admins by (simp add: set_holders)
  moreover have "card {uid 1, uid 2} = 2" by simp
  ultimately have two: "1 < length (holders ?d RoleKeyAdmin)"
    by (metis List.finite_set card_length card_mono le_trans one_less_numeral_iff order_less_le_trans semiring_norm(76))
  have perm: "(\<Union>r \<in> set [uid 13]. granted ?d r) \<subseteq> Permissions ann_admin" by (simp add: facts)
  obtain b1 rs1 w1 where c1: "assign_checks demo_env ann_admin (uid 1) [uid 13] two_admins = (Inr (b1, rs1), w1)"
      "db w1 = ?d" "rolesToIDs rs1 = [uid 13]"
    using assign_checks_run [OF quiet_demo keys facts(1) perm ann_is_admin(1) two, of "uid 1"]
    by (auto simp: distinct_singleton_iff)
  obtain b2 rs2 w2 where c2: "assign_checks demo_env ann_admin (uid 2) [uid 13] w1 = (Inr (b2, rs2), w2)"
      "db w2 = ?d" "rolesToIDs rs2 = [uid 13]"
    using assign_checks_run [OF quiet_demo, of w1 "[uid 13]" ann_admin "uid 2"] c1(2) keys facts(1)
      perm two by (auto simp: distinct_singleton_iff)
  have users: "uid 1 \<in> u_id ` set (users ?d)" "uid 2 \<in> u_id ` set (users ?d)"
    "uid 13 \<in> r_id ` set (roles ?d)" "userID ann = uid 1" "userID bob = uid 2"
    using facts(1,3) by (simp_all add: ann_def bob_def demo_user_def scanUser_def)
  obtain w3 row where d1: "assign_writes demo_env ann (uid 1) (b1, rs1) w2 = (Inr (), w3)"
      "db w3 = (assign_roles (uid 1) [uid 13] ?d)\<lparr>audit_log := [row]\<rparr>"
      "a_id row = uuidv7 demo_env (Suc (Suc (steps w2)))"
      "steps w3 = Suc (Suc (Suc (steps w2)))"
    using assign_writes_run [OF quiet_demo c1(3), of "uid 1" w2 ann b1] users c2(2) facts(4)
    by (auto simp del: demo_env_simps)
  have "uuidv7 demo_env (Suc (Suc (steps w3))) \<noteq> a_id row"
    unfolding d1(3,4) by (rule later_uuid)
  then obtain w4 where d2: "assign_writes demo_env bob (uid 2) (b2, rs2) w3 = (Inr (), w4)"
    using assign_writes_run [OF quiet_demo c2(3), of "uid 2" w3 bob b2] users d1(2)
    by (auto simp: assign_roles_def simp del: demo_env_simps)
  have run: "both_assign demo_env (ann, ann_admin, uid 1, [uid 13]) (bob, ann_admin, uid 2, [uid 13])
      two_admins = (Inr (), w4)"
    by (simp add: both_assign_def bind_op_def c1(1) c2(1) d1(1) d2)
  have "\<not> admin_held (db w4)"
    using last_admin_race [OF keys admins _ run] facts(5) by simp
  moreover have "admin_held ?d" using admins by (auto simp: admin_held_iff)
  ultimately show ?thesis using run by blast
qed

end
