(* ===== verification/Json.thy ===== *)
theory Json
  imports Prelude
begin

text \<open>
  What the program uses of \<open>encoding/json\<close>: the scanner, a machine with a stack of open
  arrays and objects and Go's limit on its height; the values it reads; the unquoting of
  string literals (escapes, surrogate pairs, invalid UTF-8); and the matching of an
  object's keys with the fields of a struct. A string literal is kept as written, between
  its quotes, since \<open>time.Time\<close> reads it so and everything else unquotes it.
\<close>

section \<open>Tokens\<close>

datatype json =
    JsonNull | JsonBool bool | JsonNumber string | JsonText string
  | JsonArray "json list" | JsonObject "(string \<times> json) list"

datatype token =
    LBrace | RBrace | LBrack | RBrack | Colon | Comma | Literal json

definition json_space :: "char \<Rightarrow> bool" where
  "json_space c \<longleftrightarrow> byte_of c \<in> {32, 9, 13, 10}"

definition is_hex :: "char \<Rightarrow> bool" where
  "is_hex c \<longleftrightarrow> (let b = byte_of c in
     (48 \<le> b \<and> b \<le> 57) \<or> (65 \<le> b \<and> b \<le> 70) \<or> (97 \<le> b \<and> b \<le> 102))"

text \<open>A string literal after its opening quote: its text up to the closing one, and the rest.\<close>

fun scan_string :: "string \<Rightarrow> (string \<times> string) option" where
  "scan_string [] = None"
| "scan_string (c # s) =
    (if byte_of c = 34 then Some ([], s)
     else if byte_of c < 32 then None
     else if byte_of c = 92 then
       (case s of
          [] \<Rightarrow> None
        | d # s' \<Rightarrow>
            if byte_of d = 117 then
              (if 4 \<le> length s' \<and> list_all is_hex (take 4 s')
               then map_option (\<lambda>(t, r). (c # d # take 4 s' @ t, r)) (scan_string (drop 4 s'))
               else None)
            else if byte_of d \<in> {98, 102, 110, 114, 116, 92, 47, 34}
            then map_option (\<lambda>(t, r). (c # d # t, r)) (scan_string s')
            else None)
     else map_option (\<lambda>(t, r). (c # t, r)) (scan_string s))"

definition is_digit :: "char \<Rightarrow> bool" where
  "is_digit c \<longleftrightarrow> 48 \<le> byte_of c \<and> byte_of c \<le> 57"

definition digits :: "string \<Rightarrow> string \<times> string" where
  "digits s = (takeWhile is_digit s, dropWhile is_digit s)"

text \<open>The integer part, the fraction and the exponent of a number.\<close>

definition scan_int :: "string \<Rightarrow> (string \<times> string) option" where
  "scan_int s =
    (case s of [] \<Rightarrow> None
     | c # s' \<Rightarrow>
         if byte_of c = 48 then Some ([c], s')
         else if is_digit c then Some (digits s)
         else None)"

definition scan_fraction :: "string \<Rightarrow> (string \<times> string) option" where
  "scan_fraction s =
    (case s of [] \<Rightarrow> Some ([], [])
     | c # s' \<Rightarrow>
         if byte_of c = 46
         then (case digits s' of (ds, r) \<Rightarrow> if ds = [] then None else Some (c # ds, r))
         else Some ([], s))"

definition scan_exponent :: "string \<Rightarrow> (string \<times> string) option" where
  "scan_exponent s =
    (case s of [] \<Rightarrow> Some ([], [])
     | c # s' \<Rightarrow>
         if byte_of c \<in> {69, 101} then
           (let sign = (case s' of d # _ \<Rightarrow> if byte_of d \<in> {43, 45} then [d] else [] | [] \<Rightarrow> []) in
            case digits (drop (length sign) s') of (ds, r) \<Rightarrow>
              if ds = [] then None else Some (c # sign @ ds, r))
         else Some ([], s))"

definition scan_number :: "string \<Rightarrow> (string \<times> string) option" where
  "scan_number s =
    (let sign = (case s of c # _ \<Rightarrow> if byte_of c = 45 then [c] else [] | [] \<Rightarrow> []) in
     case scan_int (drop (length sign) s) of None \<Rightarrow> None
     | Some (i, s1) \<Rightarrow>
    (case scan_fraction s1 of None \<Rightarrow> None
     | Some (f, s2) \<Rightarrow>
    (case scan_exponent s2 of None \<Rightarrow> None
     | Some (x, s3) \<Rightarrow> Some (sign @ i @ f @ x, s3))))"

definition scan_word :: "string \<Rightarrow> json \<Rightarrow> string \<Rightarrow> (token \<times> string) option" where
  "scan_word word v s =
    (if HasPrefix s word then Some (Literal v, drop (length word) s) else None)"

definition scan_token :: "string \<Rightarrow> (token \<times> string) option" where
  "scan_token s0 =
    (let s = dropWhile json_space s0 in
     case s of
       [] \<Rightarrow> None
     | c # s' \<Rightarrow>
         if c = CHR ''{'' then Some (LBrace, s')
         else if c = CHR ''}'' then Some (RBrace, s')
         else if c = CHR ''['' then Some (LBrack, s')
         else if c = CHR '']'' then Some (RBrack, s')
         else if c = CHR '':'' then Some (Colon, s')
         else if c = CHR '','' then Some (Comma, s')
         else if byte_of c = 34 then map_option (\<lambda>(t, r). (Literal (JsonText t), r)) (scan_string s')
         else if c = CHR ''t'' then scan_word ''true'' (JsonBool True) s
         else if c = CHR ''f'' then scan_word ''false'' (JsonBool False) s
         else if c = CHR ''n'' then scan_word ''null'' JsonNull s
         else map_option (\<lambda>(t, r). (Literal (JsonNumber t), r)) (scan_number s))"

lemma scan_string_shorter: "scan_string s = Some (t, r) \<Longrightarrow> length r < length s"
  by (induction s arbitrary: t rule: scan_string.induct)
    (fastforce split: if_splits list.splits)+

lemma dropWhile_eq_shorter: "dropWhile P s = c # r \<Longrightarrow> length r < length s"
  by (metis length_Cons length_dropWhile_le not_less_eq not_le)

lemma digits_shorter: "digits s = (ds, r) \<Longrightarrow> length r \<le> length s"
  by (auto simp: digits_def length_dropWhile_le)

lemma scan_int_shorter: "scan_int s = Some (t, r) \<Longrightarrow> length r < length s"
  by (auto simp: scan_int_def digits_def length_dropWhile_le le_imp_less_Suc
      split: list.splits if_splits)

lemma scan_fraction_shorter: "scan_fraction s = Some (t, r) \<Longrightarrow> length r \<le> length s"
  by (auto simp: scan_fraction_def split: list.splits if_splits prod.splits
      dest!: digits_shorter)

lemma scan_exponent_shorter: "scan_exponent s = Some (t, r) \<Longrightarrow> length r \<le> length s"
  by (auto simp: scan_exponent_def Let_def split: list.splits if_splits prod.splits
      dest!: digits_shorter)

lemma scan_number_shorter: "scan_number s = Some (t, r) \<Longrightarrow> length r < length s"
  by (fastforce simp: scan_number_def Let_def split: option.splits
      dest!: scan_int_shorter scan_fraction_shorter scan_exponent_shorter)

lemma scan_word_shorter: "scan_word (c # word) v s = Some (t, r) \<Longrightarrow> length r < length s"
  by (cases s) (auto simp: scan_word_def HasPrefix_def split: if_splits)

lemma scan_token_shorter:
  assumes "scan_token s = Some (t, r)" shows "length r < length s"
proof (cases "dropWhile json_space s")
  case (Cons c s')
  have "length r < length (c # s')"
    using assms Cons scan_string_shorter scan_number_shorter scan_word_shorter
    by (fastforce simp: scan_token_def Let_def less_Suc_eq split: if_splits)
  also have "\<dots> \<le> length s" by (metis Cons length_dropWhile_le)
  finally show ?thesis .
next
  case Nil
  with assms show ?thesis unfolding scan_token_def Let_def by simp
qed

section \<open>Values\<close>

text \<open>What is open around the value being read, innermost first, with what it holds so far.\<close>

datatype frame = InArray "json list" | InObject "(string \<times> json) list" string

datatype expect = WantValue | WantFirst | WantKey | WantFirstKey | WantColon | Have json

definition maxNestingDepth :: nat where "maxNestingDepth = 10000"

text \<open>One token in a state of the scanner; None is a syntax error.\<close>

fun scan_step :: "expect \<Rightarrow> frame list \<Rightarrow> token \<Rightarrow> (expect \<times> frame list) option" where
  "scan_step WantColon st Colon = Some (WantValue, st)"
| "scan_step WantColon st _ = None"
| "scan_step WantKey (InObject kvs _ # st) (Literal (JsonText k)) =
     Some (WantColon, InObject kvs k # st)"
| "scan_step WantKey st _ = None"
| "scan_step WantFirstKey (InObject kvs _ # st) (Literal (JsonText k)) =
     Some (WantColon, InObject kvs k # st)"
| "scan_step WantFirstKey (InObject _ _ # st) RBrace = Some (Have (JsonObject []), st)"
| "scan_step WantFirstKey st _ = None"
| "scan_step (Have v) (InArray vs # st) Comma = Some (WantValue, InArray (v # vs) # st)"
| "scan_step (Have v) (InArray vs # st) RBrack = Some (Have (JsonArray (rev (v # vs))), st)"
| "scan_step (Have v) (InObject kvs k # st) Comma =
     Some (WantKey, InObject ((k, v) # kvs) '''' # st)"
| "scan_step (Have v) (InObject kvs k # st) RBrace =
     Some (Have (JsonObject (rev ((k, v) # kvs))), st)"
| "scan_step (Have v) st _ = None"
| "scan_step WantFirst (InArray _ # st) RBrack = Some (Have (JsonArray []), st)"
| "scan_step _ st (Literal v) = Some (Have v, st)"
| "scan_step _ st LBrace =
     (if length st < maxNestingDepth then Some (WantFirstKey, InObject [] '''' # st) else None)"
| "scan_step _ st LBrack =
     (if length st < maxNestingDepth then Some (WantFirst, InArray [] # st) else None)"
| "scan_step _ st _ = None"

function scan_value :: "expect \<Rightarrow> frame list \<Rightarrow> string \<Rightarrow> (json \<times> string) option" where
  "scan_value x st s =
    (case (x, st) of
       (Have v, []) \<Rightarrow> Some (v, s)
     | _ \<Rightarrow>
       (case scan_token s of None \<Rightarrow> None
        | Some (t, r) \<Rightarrow>
       (case scan_step x st t of None \<Rightarrow> None
        | Some (x', st') \<Rightarrow> scan_value x' st' r)))"
  by pat_completeness auto
termination
  by (relation "measure (\<lambda>(x, st, s). length s)") (auto dest!: scan_token_shorter)

declare scan_value.simps [simp del]

text \<open>The next value of the input and what follows it.\<close>

definition read_value :: "string \<Rightarrow> (json \<times> string) option" where
  "read_value s = scan_value WantValue [] s"

section \<open>String literals\<close>

text \<open>The UTF-8 bytes of a code point, and how many bytes of valid UTF-8 a text starts with.\<close>

definition utf8_bytes :: "nat \<Rightarrow> string" where
  "utf8_bytes r = map char_of
    (if r < 0x80 then [r]
     else if r < 0x800 then [0xC0 + r div 64, 0x80 + r mod 64]
     else if r < 0x10000 then [0xE0 + r div 4096, 0x80 + r div 64 mod 64, 0x80 + r mod 64]
     else [0xF0 + r div 262144, 0x80 + r div 4096 mod 64, 0x80 + r div 64 mod 64,
           0x80 + r mod 64])"

definition utf8_len :: "string \<Rightarrow> nat" where
  "utf8_len s =
    (let bs = map byte_of s;
         between = (\<lambda>i lo hi. i < length bs \<and> lo \<le> bs ! i \<and> bs ! i \<le> hi);
         cont = (\<lambda>i. between i 0x80 0xBF) in
     if between 0 0 0x7F then 1
     else if between 0 0xC2 0xDF \<and> cont 1 then 2
     else if cont 2 \<and> (between 0 0xE0 0xE0 \<and> between 1 0xA0 0xBF
         \<or> between 0 0xE1 0xEC \<and> cont 1 \<or> between 0 0xED 0xED \<and> between 1 0x80 0x9F
         \<or> between 0 0xEE 0xEF \<and> cont 1) then 3
     else if cont 2 \<and> cont 3 \<and> (between 0 0xF0 0xF0 \<and> between 1 0x90 0xBF
         \<or> between 0 0xF1 0xF3 \<and> cont 1 \<or> between 0 0xF4 0xF4 \<and> between 1 0x80 0x8F) then 4
     else 0)"

definition hex_value :: "char \<Rightarrow> nat" where
  "hex_value c = (let b = byte_of c in
     if b \<le> 57 then b - 48 else if b \<le> 70 then b - 55 else b - 87)"

definition hex4 :: "string \<Rightarrow> nat" where
  "hex4 s = fold (\<lambda>c n. 16 * n + hex_value c) (take 4 s) 0"

text \<open>The second half of a surrogate pair, when the text goes on with one.\<close>

definition low_surrogate :: "string \<Rightarrow> nat option" where
  "low_surrogate s =
    (if 6 \<le> length s \<and> map byte_of (take 2 s) = [92, 117] \<and> list_all is_hex (take 4 (drop 2 s))
        \<and> 0xDC00 \<le> hex4 (drop 2 s) \<and> hex4 (drop 2 s) < 0xE000
     then Some (hex4 (drop 2 s)) else None)"

definition unescape :: "char \<Rightarrow> char" where
  "unescape d = (let b = byte_of d in
     if b = 98 then CHR 0x08 else if b = 102 then CHR 0x0C else if b = 110 then CHR 0x0A
     else if b = 114 then CHR 0x0D else if b = 116 then CHR 0x09 else d)"

abbreviation RuneError :: nat where "RuneError \<equiv> 0xFFFD"

function unquote :: "string \<Rightarrow> string" where
  "unquote [] = []"
| "unquote (c # s) =
    (if byte_of c = 92 then
       (case s of
          [] \<Rightarrow> []
        | d # s' \<Rightarrow>
            if byte_of d = 117 then
              (let r = hex4 s'; rest = drop 4 s' in
               if 0xD800 \<le> r \<and> r < 0xE000 then
                 (case low_surrogate rest of
                    Some r2 \<Rightarrow>
                      if r < 0xDC00
                      then utf8_bytes (0x10000 + (r - 0xD800) * 1024 + (r2 - 0xDC00))
                             @ unquote (drop 6 rest)
                      else utf8_bytes RuneError @ unquote rest
                  | None \<Rightarrow> utf8_bytes RuneError @ unquote rest)
               else utf8_bytes r @ unquote rest)
            else unescape d # unquote s')
     else
       (let n = utf8_len (c # s) in
        if n = 0 then utf8_bytes RuneError @ unquote s
        else c # take (n - 1) s @ unquote (drop (n - 1) s)))"
  by pat_completeness auto
termination by (relation "measure length") auto

declare unquote.simps [simp del]

text \<open>A literal of ASCII characters without an escape stands for itself.\<close>

lemma unquote_plain: "list_all (\<lambda>c. byte_of c < 128 \<and> byte_of c \<noteq> 92) s \<Longrightarrow> unquote s = s"
  by (induction s) (auto simp: unquote.simps utf8_len_def Let_def)

section \<open>Struct fields\<close>

text \<open>
  Go matches a key with a field first exactly and then up to case folding. The only letters
  outside ASCII that fold to ASCII ones are the long s and the Kelvin sign.
\<close>

fun fold_key :: "string \<Rightarrow> string" where
  "fold_key [] = []"
| "fold_key (c # s) =
    (if map byte_of (take 2 (c # s)) = [0xC5, 0xBF] then CHR ''s'' # fold_key (drop 1 s)
     else if map byte_of (take 3 (c # s)) = [0xE2, 0x84, 0xAA] then CHR ''k'' # fold_key (drop 2 s)
     else ascii_lower c # fold_key s)"

declare fold_key.simps [simp del]

type_synonym 'r fields = "(string \<times> ('r \<Rightarrow> json \<Rightarrow> 'r option)) list"

definition find_field :: "'r fields \<Rightarrow> string \<Rightarrow> ('r \<Rightarrow> json \<Rightarrow> 'r option) option" where
  "find_field fs key =
    (case find (\<lambda>f. fst f = key) fs of
       Some f \<Rightarrow> Some (snd f)
     | None \<Rightarrow> map_option snd (find (\<lambda>f. fold_key (fst f) = fold_key key) fs))"

text \<open>
  The members of an object stored in order, so that a later one wins. Go carries on after an
  error and returns it at the end; a caller that drops the struct sees None here.
\<close>

fun store_members :: "bool \<Rightarrow> 'r fields \<Rightarrow> (string \<times> json) list \<Rightarrow> 'r \<Rightarrow> 'r option" where
  "store_members strict fs [] r = Some r"
| "store_members strict fs ((raw, v) # kvs) r =
    (case find_field fs (unquote raw) of
       Some store \<Rightarrow> Option.bind (store r v) (store_members strict fs kvs)
     | None \<Rightarrow> if strict then None else store_members strict fs kvs r)"

text \<open>\<open>strict\<close> is \<open>DisallowUnknownFields\<close>. A null leaves the struct as it is.\<close>

definition store_struct :: "bool \<Rightarrow> 'r fields \<Rightarrow> json \<Rightarrow> 'r \<Rightarrow> 'r option" where
  "store_struct strict fs v r =
    (case v of JsonObject kvs \<Rightarrow> store_members strict fs kvs r | JsonNull \<Rightarrow> Some r | _ \<Rightarrow> None)"

text \<open>A field with its value before, which a null does not change.\<close>

definition field ::
  "('r \<Rightarrow> 'a) \<Rightarrow> (('a \<Rightarrow> 'a) \<Rightarrow> 'r \<Rightarrow> 'r) \<Rightarrow> ('a \<Rightarrow> json \<Rightarrow> 'a option) \<Rightarrow> 'r \<Rightarrow> json \<Rightarrow> 'r option" where
  "field get upd read r v = map_option (\<lambda>x. upd (\<lambda>_. x) r) (read (get r) v)"

definition read_text :: "string \<Rightarrow> json \<Rightarrow> string option" where
  "read_text old v =
    (case v of JsonText raw \<Rightarrow> Some (unquote raw) | JsonNull \<Rightarrow> Some old | _ \<Rightarrow> None)"

definition read_bool :: "bool \<Rightarrow> json \<Rightarrow> bool option" where
  "read_bool old v = (case v of JsonBool b \<Rightarrow> Some b | JsonNull \<Rightarrow> Some old | _ \<Rightarrow> None)"

text \<open>A type with \<open>UnmarshalText\<close>.\<close>

definition read_by :: "(string \<Rightarrow> 'a option) \<Rightarrow> 'a \<Rightarrow> json \<Rightarrow> 'a option" where
  "read_by parse old v =
    (case v of JsonText raw \<Rightarrow> parse (unquote raw) | JsonNull \<Rightarrow> Some old | _ \<Rightarrow> None)"

text \<open>A pointer to a time, whose \<open>UnmarshalJSON\<close> takes the literal as written.\<close>

definition read_time :: "(string \<Rightarrow> time option) \<Rightarrow> time option \<Rightarrow> json \<Rightarrow> time option option" where
  "read_time parse old v =
    (case v of JsonText raw \<Rightarrow> map_option Some (parse raw) | JsonNull \<Rightarrow> Some None | _ \<Rightarrow> None)"

text \<open>
  A slice: its length and the memory behind it, which a second value for the same field is
  read into, element over element.
\<close>

type_synonym 'a slice = "nat \<times> 'a list"

fun read_elements :: "('a \<Rightarrow> json \<Rightarrow> 'a option) \<Rightarrow> 'a \<Rightarrow> json list \<Rightarrow> 'a list \<Rightarrow> 'a list option" where
  "read_elements read zero [] mem = Some mem"
| "read_elements read zero (v # vs) mem =
    Option.bind (read (case mem of [] \<Rightarrow> zero | x # _ \<Rightarrow> x) v)
      (\<lambda>x. map_option ((#) x) (read_elements read zero vs (tl mem)))"

definition read_slice ::
  "('a \<Rightarrow> json \<Rightarrow> 'a option) \<Rightarrow> 'a \<Rightarrow> 'a slice \<Rightarrow> json \<Rightarrow> 'a slice option" where
  "read_slice read zero old v =
    (case v of
       JsonArray vs \<Rightarrow>
         if vs = [] then Some (0, [])
         else map_option (Pair (length vs)) (read_elements read zero vs (snd old))
     | JsonNull \<Rightarrow> Some (0, [])
     | _ \<Rightarrow> None)"

definition slice_list :: "'a slice \<Rightarrow> 'a list" where
  "slice_list sl = take (fst sl) (snd sl)"

end
