(* ===== verification/Wire.thy ===== *)
theory Wire
  imports Handlers Json
begin

text \<open>
  From the bytes of a request to the routed and decoded request the handlers take:
  \<open>decodeJSON\<close> of \<open>response.go\<close>, \<open>peekEmail\<close> of \<open>ratelimit.go\<close>, and the request structs of
  the handlers with their JSON names. chi has matched the route; what it yields is the
  \<open>route\<close> with its URL parameters, whose body is filled in here.
\<close>

section \<open>Bodies\<close>

text \<open>What the client sends, and whether reading it ends in EOF or in an error.\<close>

record body =
  body_bytes :: string
  body_complete :: bool

definition maxBodyBytes :: nat where "maxBodyBytes = 1048576"

text \<open>
  \<open>Decode\<close> into the struct, then a second \<open>Decode\<close> that must find the end of the body. The
  reader fails when the limit is passed, and that is not the end.
\<close>

definition decodeJSON :: "'r fields \<Rightarrow> 'r \<Rightarrow> body \<Rightarrow> 'r option" where
  "decodeJSON fs zero b =
    (case read_value (take maxBodyBytes (body_bytes b)) of
       None \<Rightarrow> None
     | Some (v, rest) \<Rightarrow>
         (case store_struct True fs v zero of
            None \<Rightarrow> None
          | Some r \<Rightarrow>
              if list_all json_space rest \<and> length (body_bytes b) \<le> maxBodyBytes \<and> body_complete b
              then Some r else None))"

text \<open>\<open>json.Unmarshal\<close> takes one value and no rest.\<close>

definition Unmarshal :: "'r fields \<Rightarrow> 'r \<Rightarrow> string \<Rightarrow> 'r option" where
  "Unmarshal fs zero s =
    (case read_value s of None \<Rightarrow> None
     | Some (v, rest) \<Rightarrow>
         if list_all json_space rest then store_struct False fs v zero else None)"

text \<open>\<open>io.ReadAll\<close> of a \<open>LimitReader\<close>: an error of the body shows below the limit only.\<close>

definition read_limited :: "body \<Rightarrow> string option" where
  "read_limited b =
    (if body_complete b \<or> maxBodyBytes \<le> length (body_bytes b)
     then Some (take maxBodyBytes (body_bytes b)) else None)"

text \<open>
  \<open>peekEmail\<close> up to its normalization: the email, if the body unmarshals, and the body put
  back; when reading fails nothing is put back and only the error is left.
\<close>

definition email_fields :: "string fields" where
  "email_fields = [(''email'', field (\<lambda>s. s) (\<lambda>f. f) read_text)]"

definition peek_body :: "body \<Rightarrow> string option \<times> body" where
  "peek_body b =
    (case read_limited b of
       None \<Rightarrow> (None, \<lparr>body_bytes = '''', body_complete = False\<rparr>)
     | Some raw \<Rightarrow> (Unmarshal email_fields '''' raw, \<lparr>body_bytes = raw, body_complete = True\<rparr>))"

section \<open>The request structs\<close>

record registerRequest =
  reg_Email :: string
  reg_Password :: string
  reg_FirstName :: string
  reg_LastName :: string

definition register_fields :: "registerRequest fields" where
  "register_fields =
    [(''email'', field reg_Email reg_Email_update read_text),
     (''password'', field reg_Password reg_Password_update read_text),
     (''first_name'', field reg_FirstName reg_FirstName_update read_text),
     (''last_name'', field reg_LastName reg_LastName_update read_text)]"

definition zero_register :: registerRequest where
  "zero_register = \<lparr>reg_Email = '''', reg_Password = '''', reg_FirstName = '''', reg_LastName = ''''\<rparr>"

record loginRequest =
  login_Email :: string
  login_Password :: string

definition login_fields :: "loginRequest fields" where
  "login_fields =
    [(''email'', field login_Email login_Email_update read_text),
     (''password'', field login_Password login_Password_update read_text)]"

definition zero_login :: loginRequest where
  "zero_login = \<lparr>login_Email = '''', login_Password = ''''\<rparr>"

record changePasswordRequest =
  CurrentPassword :: string
  NewPassword :: string

definition changePassword_fields :: "changePasswordRequest fields" where
  "changePassword_fields =
    [(''current_password'', field CurrentPassword CurrentPassword_update read_text),
     (''new_password'', field NewPassword NewPassword_update read_text)]"

definition setUserActive_fields :: "bool fields" where
  "setUserActive_fields = [(''is_active'', field (\<lambda>b. b) (\<lambda>f. f) read_bool)]"

record createInvitationRequest =
  inv_Email :: string
  inv_RoleID :: uuid

definition createInvitation_fields :: "env \<Rightarrow> createInvitationRequest fields" where
  "createInvitation_fields e =
    [(''email'', field inv_Email inv_Email_update read_text),
     (''role_id'', field inv_RoleID inv_RoleID_update (read_by (uuid_Parse e)))]"

record acceptInvitationRequest =
  acc_Token :: string
  acc_Password :: string
  acc_FirstName :: string
  acc_LastName :: string

definition acceptInvitation_fields :: "acceptInvitationRequest fields" where
  "acceptInvitation_fields =
    [(''token'', field acc_Token acc_Token_update read_text),
     (''password'', field acc_Password acc_Password_update read_text),
     (''first_name'', field acc_FirstName acc_FirstName_update read_text),
     (''last_name'', field acc_LastName acc_LastName_update read_text)]"

record resetPasswordRequest =
  reset_Token :: string
  reset_NewPassword :: string

definition resetPassword_fields :: "resetPasswordRequest fields" where
  "resetPassword_fields =
    [(''token'', field reset_Token reset_Token_update read_text),
     (''new_password'', field reset_NewPassword reset_NewPassword_update read_text)]"

definition verifyEmail_fields :: "string fields" where
  "verifyEmail_fields = [(''token'', field (\<lambda>s. s) (\<lambda>f. f) read_text)]"

record roleRequest =
  role_Key :: string
  role_Name :: string
  role_Permissions :: "permission slice"

definition role_fields :: "roleRequest fields" where
  "role_fields =
    [(''key'', field role_Key role_Key_update read_text),
     (''name'', field role_Name role_Name_update read_text),
     (''permissions'', field role_Permissions role_Permissions_update (read_slice read_text ''''))]"

record updateRoleRequest =
  upd_Name :: string
  upd_Permissions :: "permission slice"

definition updateRole_fields :: "updateRoleRequest fields" where
  "updateRole_fields =
    [(''name'', field upd_Name upd_Name_update read_text),
     (''permissions'', field upd_Permissions upd_Permissions_update (read_slice read_text ''''))]"

definition setUserRoles_fields :: "env \<Rightarrow> uuid slice fields" where
  "setUserRoles_fields e =
    [(''role_ids'', field (\<lambda>x. x) (\<lambda>f. f) (read_slice (read_by (uuid_Parse e)) uuid_Nil))]"

record createAPIKeyRequest =
  key_Name :: string
  key_Permissions :: "permission slice"
  key_ExpiresAt :: "time option"

definition createAPIKey_fields :: "env \<Rightarrow> createAPIKeyRequest fields" where
  "createAPIKey_fields e =
    [(''name'', field key_Name key_Name_update read_text),
     (''permissions'', field key_Permissions key_Permissions_update (read_slice read_text '''')),
     (''expires_at'', field key_ExpiresAt key_ExpiresAt_update (read_time (time_Parse e)))]"

section \<open>Requests\<close>

text \<open>The decoding at the start of each handler that has a body.\<close>

definition with_body :: "env \<Rightarrow> body \<Rightarrow> route \<Rightarrow> route" where
  "with_body e b rt =
    (case rt of
       PostRegister _ \<Rightarrow> PostRegister (map_option
         (\<lambda>r. (reg_Email r, reg_Password r, reg_FirstName r, reg_LastName r))
         (decodeJSON register_fields zero_register b))
     | PostLogin _ \<Rightarrow> PostLogin (map_option (\<lambda>r. (login_Email r, login_Password r))
         (decodeJSON login_fields zero_login b))
     | PostReset _ \<Rightarrow> PostReset (decodeJSON email_fields '''' b)
     | PostResetConfirm _ \<Rightarrow> PostResetConfirm (map_option (\<lambda>r. (reset_Token r, reset_NewPassword r))
         (decodeJSON resetPassword_fields \<lparr>reset_Token = '''', reset_NewPassword = ''''\<rparr> b))
     | PostVerify _ \<Rightarrow> PostVerify (decodeJSON verifyEmail_fields '''' b)
     | PostAccept _ \<Rightarrow> PostAccept (map_option
         (\<lambda>r. (acc_Token r, acc_Password r, acc_FirstName r, acc_LastName r))
         (decodeJSON acceptInvitation_fields
           \<lparr>acc_Token = '''', acc_Password = '''', acc_FirstName = '''', acc_LastName = ''''\<rparr> b))
     | PostPassword _ \<Rightarrow> PostPassword (map_option (\<lambda>r. (CurrentPassword r, NewPassword r))
         (decodeJSON changePassword_fields \<lparr>CurrentPassword = '''', NewPassword = ''''\<rparr> b))
     | PutUserRoles uid _ \<Rightarrow> PutUserRoles uid (map_option slice_list
         (decodeJSON (setUserRoles_fields e) (0, []) b))
     | PatchUser uid _ \<Rightarrow> PatchUser uid (decodeJSON setUserActive_fields False b)
     | PostInvitation _ \<Rightarrow> PostInvitation (map_option (\<lambda>r. (inv_Email r, inv_RoleID r))
         (decodeJSON (createInvitation_fields e) \<lparr>inv_Email = '''', inv_RoleID = uuid_Nil\<rparr> b))
     | PostRole _ \<Rightarrow> PostRole (map_option
         (\<lambda>r. (role_Key r, role_Name r, slice_list (role_Permissions r)))
         (decodeJSON role_fields
           \<lparr>role_Key = '''', role_Name = '''', role_Permissions = (0, [])\<rparr> b))
     | PutRole rid _ \<Rightarrow> PutRole rid (map_option
         (\<lambda>r. (upd_Name r, slice_list (upd_Permissions r)))
         (decodeJSON updateRole_fields \<lparr>upd_Name = '''', upd_Permissions = (0, [])\<rparr> b))
     | PostAPIKey _ \<Rightarrow> PostAPIKey (map_option
         (\<lambda>r. (key_Name r, slice_list (key_Permissions r), key_ExpiresAt r))
         (decodeJSON (createAPIKey_fields e)
           \<lparr>key_Name = '''', key_Permissions = (0, []), key_ExpiresAt = None\<rparr> b))
     | _ \<Rightarrow> rt)"

record wire_request =
  wire_request :: http_request      \<comment> \<open>method, path, headers, address and the matched route\<close>
  wire_body :: body

text \<open>The routes with \<open>byIPAndEmail\<close>, whose limiter reads the body before the handler does.\<close>

definition peeks :: "route \<Rightarrow> bool" where
  "peeks rt \<longleftrightarrow> (case rt of PostRegister _ \<Rightarrow> True | PostLogin _ \<Rightarrow> True | PostReset _ \<Rightarrow> True
     | _ \<Rightarrow> False)"

definition receive :: "bool \<Rightarrow> env \<Rightarrow> wire_request \<Rightarrow> http_request" where
  "receive limited e wr =
    (let rq = wire_request wr;
         (email, b) = (if limited \<and> peeks (rq_route rq) then peek_body (wire_body wr)
                       else (None, wire_body wr)) in
     rq\<lparr>rq_email := email, rq_route := with_body e b (rq_route rq)\<rparr>)"

definition serve_wire :: "server \<Rightarrow> env \<Rightarrow> wire_request \<Rightarrow> response op" where
  "serve_wire s e wr = (\<lambda>w. serve s e (receive (limits w \<noteq> None) e wr) w)"

section \<open>The access log\<close>

text \<open>
  \<open>requestLogger\<close> with its \<open>statusRecorder\<close>: one line per request that gets past CORS, with
  the status that the handler wrote. Its duration, two readings of the clock, is left out.
\<close>

record log_line =
  log_method :: string
  log_path :: string
  log_status :: nat
  log_request_id :: string

definition requestLogger :: "http_request \<Rightarrow> response op \<Rightarrow> (response \<times> log_line) op" where
  "requestLogger rq next = bind_op next (\<lambda>r. return_op (r,
     \<lparr>log_method = rq_method rq, log_path = rq_path rq, log_status = status r,
      log_request_id = rq_id rq\<rparr>))"

end
