(* ===== verification/Wire_Theorems.thy ===== *)
theory Wire_Theorems
  imports Wire Login_Theorems Response_Theorems
begin

text \<open>
  Theorems on the bytes of a request: what a decoded body must have been, what reading it
  ahead for the limiter does to it, and that the limiter counts an attempt under the very
  email the handler acts on, however the body spells it.
\<close>

section \<open>Reading ahead\<close>

lemma find_field_SomeD:
  "find_field fs key = Some store \<Longrightarrow> \<exists>name. (name, store) \<in> set fs \<and> fold_key name = fold_key key"
  by (fastforce simp: find_field_def dest: find_SomeD split: option.splits)

lemma fold_key_names:
  "fold_key ''email'' = ''email''" "fold_key ''password'' = ''password''"
  "fold_key ''first_name'' = ''first_name''" "fold_key ''last_name'' = ''last_name''"
  by code_simp+

declare fold_key_names [simp]

lemma find_email_field:
  "find_field email_fields key =
     (if fold_key key = ''email'' then Some (field (\<lambda>s. s) (\<lambda>f. f) read_text) else None)"
  by (auto simp: find_field_def email_fields_def)

text \<open>
  The structs with an email: reading one and reading only the email follow each other
  member by member.
\<close>

locale email_request =
  fixes fs :: "'r fields" and zero :: 'r and get :: "'r \<Rightarrow> string"
  assumes get_zero: "get zero = ''''"
    and stores: "(name, store) \<in> set fs \<Longrightarrow> store r v = Some r' \<Longrightarrow>
      (if fold_key name = ''email'' then read_text (get r) v = Some (get r') else get r' = get r)"
begin

lemma members:
  "store_members True fs kvs r = Some r' \<Longrightarrow>
     store_members False email_fields kvs (get r) = Some (get r')"
proof (induction kvs arbitrary: r)
  case (Cons m kvs)
  obtain raw v where m: "m = (raw, v)" by fastforce
  from Cons.prems m obtain store r1 where s: "find_field fs (unquote raw) = Some store"
    "store r v = Some r1" "store_members True fs kvs r1 = Some r'"
    by (auto split: option.splits simp: bind_eq_Some_conv)
  from find_field_SomeD [OF s(1)] obtain name where
    "(name, store) \<in> set fs" "fold_key name = fold_key (unquote raw)" by blast
  with stores [OF this(1) s(2)] Cons.IH [OF s(3)] m show ?case
    by (simp add: find_email_field field_def split: if_splits)
qed simp

lemma peeked_email:
  assumes "decodeJSON fs zero (snd (peek_body b)) = Some r"
  shows "fst (peek_body b) = Some (get r)"
proof (cases "read_limited b")
  case None
  with assms show ?thesis
    by (auto simp: peek_body_def decodeJSON_def split: option.splits if_splits)
next
  case (Some raw)
  then have short: "take maxBodyBytes raw = raw"
    by (auto simp: read_limited_def split: if_splits)
  from assms Some short obtain v rest where
    v: "read_value raw = Some (v, rest)" "list_all json_space rest"
    and r: "store_struct True fs v zero = Some r"
    by (auto simp: peek_body_def decodeJSON_def split: option.splits if_splits)
  from r have "store_struct False email_fields v '''' = Some (get r)"
    using members [of _ zero r] get_zero
    by (auto simp: store_struct_def split: json.splits)
  with v Some show ?thesis by (simp add: peek_body_def Unmarshal_def)
qed

end

interpretation login: email_request login_fields zero_login login_Email
  by unfold_locales
    (auto simp: zero_login_def login_fields_def field_def)

interpretation register: email_request register_fields zero_register reg_Email
  by unfold_locales
    (auto simp: zero_register_def register_fields_def field_def)

interpretation reset: email_request email_fields "''''" "\<lambda>s. s"
  by unfold_locales (auto simp: email_fields_def field_def)

text \<open>The route and the email an attempt is counted by.\<close>

definition attempt_on :: "route \<Rightarrow> (string \<times> string) option" where
  "attempt_on rt =
    (case rt of
       PostRegister (Some (email, _)) \<Rightarrow> Some (''register'', email)
     | PostLogin (Some (email, _)) \<Rightarrow> Some (''login'', email)
     | PostReset (Some email) \<Rightarrow> Some (''reset'', email)
     | _ \<Rightarrow> None)"

lemma attempt_on_peeks: "attempt_on rt = Some x \<Longrightarrow> peeks rt"
  by (auto simp: attempt_on_def peeks_def split: route.splits)

lemma peeks_with_body: "peeks (with_body e b rt) = peeks rt"
  by (cases rt) (simp_all add: peeks_def with_body_def)

lemma received_email:
  assumes "attempt_on (rq_route (receive True e wr)) = Some (pre, email)"
  shows "rq_email (receive True e wr) = Some email"
proof -
  let ?rt = "rq_route (wire_request wr)"
  have "peeks (rq_route (receive True e wr))" using assms by (rule attempt_on_peeks)
  then have p: "peeks ?rt"
    by (simp add: receive_def Let_def peeks_with_body split: prod.splits)
  obtain peeked b where b: "peek_body (wire_body wr) = (peeked, b)" by fastforce
  with p have rec: "rq_email (receive True e wr) = peeked"
    "rq_route (receive True e wr) = with_body e b ?rt"
    by (simp_all add: receive_def Let_def)
  have "peeked = Some email"
    using p assms b login.peeked_email [of "wire_body wr"] register.peeked_email [of "wire_body wr"]
      reset.peeked_email [of "wire_body wr"]
    unfolding rec by (cases ?rt) (auto simp: with_body_def attempt_on_def peeks_def split: option.splits)
  with rec show ?thesis by simp
qed

lemma peekEmail_receive:
  assumes "attempt_on (rq_route (receive True e wr)) = Some (pre, email)"
  shows "peekEmail e (receive True e wr) = login_email e email"
  using received_email [OF assms] by (simp add: peekEmail_def login_email_def)

section \<open>Bodies\<close>

lemma decodeJSON_Some:
  assumes "decodeJSON fs zero b = Some r"
  obtains v rest where "body_complete b" "length (body_bytes b) \<le> maxBodyBytes"
    "read_value (body_bytes b) = Some (v, rest)" "list_all json_space rest"
    "store_struct True fs v zero = Some r"
  using assms by (auto simp: decodeJSON_def split: option.splits if_splits)

lemma strict_members:
  "store_members True fs kvs r = Some r' \<Longrightarrow> (raw, v) \<in> set kvs \<Longrightarrow>
     find_field fs (unquote raw) \<noteq> None"
  by (induction kvs arbitrary: r) (auto simp: bind_eq_Some_conv split: option.splits)

text \<open>Reading ahead gives the handler the same body, or the first part of one over the limit.\<close>

lemma peek_body_decode:
  "decodeJSON fs zero (snd (peek_body b)) =
     (if length (body_bytes b) < maxBodyBytes \<or> b = \<lparr>body_bytes = body_bytes b, body_complete = True\<rparr>
           \<and> length (body_bytes b) = maxBodyBytes
      then decodeJSON fs zero b
      else decodeJSON fs zero
        \<lparr>body_bytes = take maxBodyBytes (body_bytes b), body_complete = True\<rparr>)"
  by (cases b) (auto simp: peek_body_def read_limited_def decodeJSON_def split: option.split)


text \<open>A login with an escape, a capital in a key, a duplicate and a trailing line break.\<close>

definition quotes :: "string \<Rightarrow> string" where
  "quotes = map (\<lambda>c. if c = CHR 0x27 then CHR 0x22 else c)"

definition demo_login_body :: body where
  "demo_login_body = \<lparr>body_bytes =
     quotes (''{ '' @ [CHR 0x27] @ ''email'' @ [CHR 0x27] @ '':'' @ [CHR 0x27] @ ''x'' @ [CHR 0x27] @ '', ''
       @ [CHR 0x27] @ ''EMAIL'' @ [CHR 0x27] @ '':'' @ [CHR 0x27] @ [CHR 0x5C] @ ''u0042ob@x '' @ [CHR 0x27]
       @ '','' @ [CHR 0x27] @ ''password'' @ [CHR 0x27] @ '':'' @ [CHR 0x27] @ ''p'' @ [CHR 0x27] @ ''}'')
     @ [CHR 0x0A], body_complete = True\<rparr>"

lemma demo_login_value: "read_value (body_bytes demo_login_body) = Some (JsonObject
    [(''email'', JsonText ''x''), (''EMAIL'', JsonText (CHR 0x5C # ''u0042ob@x '')),
     (''password'', JsonText ''p'')], [CHR 0x0A])"
  by (simp add: demo_login_body_def quotes_def read_value_def scan_value.simps scan_token_def
      byte_of_def json_space_def maxNestingDepth_def is_hex_def Let_def)

lemma unquote_demo:
  "unquote (CHR 0x5C # ''u0042ob@x '') = ''Bob@x ''" "unquote ''x'' = ''x''"
  "unquote ''p'' = ''p''" "unquote ''email'' = ''email''" "unquote ''EMAIL'' = ''EMAIL''"
  "unquote ''password'' = ''password''"
  by (simp_all add: unquote.simps(2) [of "CHR 0x5C"] unquote_plain byte_of_def Let_def hex4_def
      hex_value_def utf8_bytes_def char_of_eq_iff)

lemma fold_key_EMAIL: "fold_key ''EMAIL'' = ''email''"
  by code_simp

lemma demo_login_body_simps:
  "length (body_bytes demo_login_body) \<le> maxBodyBytes" "body_complete demo_login_body"
  by (simp_all add: demo_login_body_def quotes_def maxBodyBytes_def)

lemma demo_login_decodes:
  "decodeJSON login_fields zero_login demo_login_body
     = Some \<lparr>login_Email = ''Bob@x '', login_Password = ''p''\<rparr>"
proof -
  have "store_struct True login_fields (JsonObject
      [(''email'', JsonText ''x''), (''EMAIL'', JsonText (CHR 0x5C # ''u0042ob@x '')),
       (''password'', JsonText ''p'')]) zero_login
    = Some \<lparr>login_Email = ''Bob@x '', login_Password = ''p''\<rparr>"
    by (simp add: store_struct_def login_fields_def find_field_def field_def read_text_def
        zero_login_def unquote_demo fold_key_EMAIL)
  then show ?thesis
    by (simp add: decodeJSON_def demo_login_body_simps demo_login_value json_space_def byte_of_def)
qed


section \<open>Attempts and the limiter\<close>

lemma check_keys_full:
  assumes "buckets l key = Some b" "limit_attempts l \<le> bucket_count b" "now \<le> bucket_expiresAt b"
    and "key \<noteq> ''''" "ip \<noteq> key"
  shows "\<exists>wait l'. check_keys now now2 [ip, key] l = (Some wait, l')"
proof -
  have full: "\<exists>wait l'. check_keys now now2 [key] l1 = (Some wait, l')"
    if "buckets l1 key = buckets l key" "limit_attempts l1 = limit_attempts l" for l1
    using assms that by (auto simp: allow_def)
  obtain ok wait l1 where a: "allow now now2 ip l = ((ok, wait), l1)"
    by (metis prod.exhaust)
  have "buckets l1 key = buckets l key" "limit_attempts l1 = limit_attempts l"
    using assms(5) allow_other [of key ip now now2 l] allow_cfg(1) [of now now2 ip l] a by auto
  note next_key = full [OF this] full [OF refl refl]
  show ?thesis
  proof (cases "ip = '''' \<or> ok")
    case True
    then show ?thesis
      unfolding check_keys.simps(2) [of now now2 ip] a using next_key by auto
  next
    case False
    then show ?thesis by (simp add: a)
  qed
qed

lemma rateLimit_429:
  assumes "limits w = Some l" "check_keys (go_now e) (rq_clock2 rq) keys l = (Some wait, l')"
  shows "\<exists>r w'. rateLimit s rq keys next e c w = (Inr r, w') \<and> status r = 429
     \<and> changes_only {TAudit} (db w) (db w')"
  using handle_run [of s rq e c ErrRateLimited "w\<lparr>limits := Some l'\<rparr>"] assms
  by (auto simp: rateLimit_def with_header_def bind_op_def error_response_def)

lemma attempt_limited:
  assumes "attempt_on (rq_route rq) = Some (pre, email)"
  shows "\<exists>h. dispatch s rq = limit_ip_email s rq pre h"
  using assms by (auto simp: attempt_on_def dispatch_def split: route.splits option.splits)

text \<open>
  C12: the limiter counts a login, a registration or a reset request under
  the very address the service looks the account up by, lowered and trimmed, however the
  body spells it (escapes, capitals in a key, a duplicate member, white space): once the
  counter of that address is full the answer is 429, from whatever IP, and the database
  changes in nothing but the audit log.
\<close>

theorem attempts_counted:
  assumes "attempt_on (rq_route (receive True e wr)) = Some (pre, email)"
    and "limits w = Some l" "buckets l (pre @ ''|email|'' @ login_email e email) = Some b"
    and "limit_attempts l \<le> bucket_count b" "go_now e \<le> bucket_expiresAt b"
    and "login_email e email \<noteq> ''''" "rq_method (wire_request wr) \<noteq> ''OPTIONS''"
  shows "\<exists>r w'. serve_wire s e wr w = (Inr r, w') \<and> status r = 429
     \<and> changes_only {TAudit} (db w) (db w')"
proof -
  let ?rq = "receive True e wr" and ?m = "\<lparr>RequestID = rq_id (receive True e wr),
    metaIPAddress = clientIP s e (receive True e wr),
    metaUserAgent = rq_header (receive True e wr) ''User-Agent'', APIKeyID = None\<rparr>"
  let ?e = "e\<lparr>req_meta := ?m\<rparr>" and ?ip = "pre @ ''|ip|'' @ clientIP s (e\<lparr>req_meta := ?m\<rparr>) ?rq"
  let ?key = "pre @ ''|email|'' @ login_email e email"
  obtain h where h: "dispatch s ?rq = limit_ip_email s ?rq pre h"
    using attempt_limited [OF assms(1)] by blast
  have "peekEmail ?e ?rq = login_email e email"
    using received_email [OF assms(1)] by (simp add: peekEmail_def login_email_def)
  then have keys: "byIPAndEmail pre (clientIP s ?e ?rq) (peekEmail ?e ?rq) = [?ip, ?key]"
    using assms(6) by (simp add: byIPAndEmail_def byIP_def)
  have "go_now ?e \<le> bucket_expiresAt b" "?key \<noteq> ''''" "?ip \<noteq> ?key" using assms(5) by simp_all
  from check_keys_full [OF assms(3,4) this] obtain wait l' where
    "check_keys (go_now ?e) (rq_clock2 ?rq) [?ip, ?key] l = (Some wait, l')" by blast
  from rateLimit_429 [OF assms(2) this] obtain r w' where
    run: "withAuditMeta s ?rq (dispatch s ?rq) e no_ctx w = (Inr r, w')" "status r = 429"
    and frame: "changes_only {TAudit} (db w) (db w')"
    unfolding withAuditMeta_def h limit_ip_email_def keys by blast
  have "rq_method ?rq = rq_method (wire_request wr)"
    by (simp add: receive_def Let_def split: prod.split)
  with serve_status [OF run(1)] assms(7) obtain r1 where
    "serve s e ?rq w = (Inr r1, w')" "status r1 = status r" by auto
  with run(2) frame assms(2) show ?thesis by (simp add: serve_wire_def)
qed

text \<open>Bob's counter is full, and the body spells his address in capitals with a blank after it.\<close>

definition demo_limiter :: limiter where
  "demo_limiter = \<lparr>buckets = [''login|email|bob@x'' \<mapsto> \<lparr>bucket_count = 2, bucket_expiresAt = 50\<rparr>],
     limit_attempts = 2, limit_window = 60\<rparr>"

definition demo_login_request :: wire_request where
  "demo_login_request =
    \<lparr>wire_request = demo_request '''' (PostLogin None), wire_body = demo_login_body\<rparr>"

lemma demo_login_attempt:
  "attempt_on (rq_route (receive True demo_env demo_login_request)) = Some (''login'', ''Bob@x '')"
proof -
  have "peek_body demo_login_body
      = (Unmarshal email_fields '''' (body_bytes demo_login_body), demo_login_body)"
    using demo_login_body_simps by (simp add: peek_body_def read_limited_def)
  then show ?thesis
    by (simp add: receive_def Let_def demo_login_request_def demo_request_def peeks_def
        with_body_def demo_login_decodes attempt_on_def)
qed

lemma demo_login_address: "login_email demo_env ''Bob@x '' = ''bob@x''"
  by code_simp

theorem attempts_counted_witness:
  "\<exists>r w'. serve_wire demo_server demo_env demo_login_request
       (demo_world\<lparr>limits := Some demo_limiter\<rparr>) = (Inr r, w')
     \<and> status r = 429 \<and> changes_only {TAudit} demo_db (db w')"
  using attempts_counted [OF demo_login_attempt, of "demo_world\<lparr>limits := Some demo_limiter\<rparr>"
      demo_limiter "\<lparr>bucket_count = 2, bucket_expiresAt = 50\<rparr>" demo_server]
  by (simp add: demo_limiter_def demo_login_address demo_login_request_def demo_request_def)

section \<open>Two corners\<close>

text \<open>An empty object and null decode into the zero values: no field is required.\<close>

lemma empty_body_is_zero:
  assumes "text = ''{}'' \<or> text = ''null''"
  shows "decodeJSON fs zero \<lparr>body_bytes = text, body_complete = True\<rparr> = Some zero"
  using assms
  by (auto simp: decodeJSON_def maxBodyBytes_def read_value_def scan_value.simps scan_token_def
      json_space_def byte_of_def maxNestingDepth_def scan_word_def HasPrefix_def store_struct_def
      Let_def)

lemma empty_body_routes:
  assumes "text = ''{}'' \<or> text = ''null''"
  shows "with_body e \<lparr>body_bytes = text, body_complete = True\<rparr> (PatchUser tid b1)
      = PatchUser tid (Some False)"
    "with_body e \<lparr>body_bytes = text, body_complete = True\<rparr> (PutUserRoles tid b2)
      = PutUserRoles tid (Some [])"
  by (simp_all add: with_body_def empty_body_is_zero [OF assms] slice_list_def)

text \<open>A body over the limit passes after a peek, when its first part is a whole value.\<close>

lemma oversize_after_peek:
  fixes b :: body
  defines "b \<equiv> \<lparr>body_bytes = ''null'' @ replicate maxBodyBytes (CHR '' ''), body_complete = True\<rparr>"
  shows "decodeJSON fs zero b = None" "decodeJSON fs zero (snd (peek_body b)) = Some zero"
proof -
  have null: "read_value (''null'' @ rest) = Some (JsonNull, rest)" for rest
    by (simp add: read_value_def scan_value.simps scan_token_def json_space_def byte_of_def
        scan_word_def HasPrefix_def)
  have cut: "take maxBodyBytes (''null'' @ replicate maxBodyBytes (CHR '' ''))
      = ''null'' @ replicate (maxBodyBytes - 4) (CHR '' '')"
    by (simp add: maxBodyBytes_def take_Cons')
  have long: "\<not> length (body_bytes b) \<le> maxBodyBytes" by (simp add: b_def)
  show "decodeJSON fs zero b = None"
    using long by (simp add: decodeJSON_def split: option.split)
  have "decodeJSON fs zero (snd (peek_body b)) =
      decodeJSON fs zero \<lparr>body_bytes = take maxBodyBytes (body_bytes b), body_complete = True\<rparr>"
    using long by (subst peek_body_decode) simp
  also have "\<dots> = Some zero"
    unfolding b_def body.simps cut decodeJSON_def null [of "replicate (maxBodyBytes - 4) (CHR '' '')"]
    by (simp add: null [simplified] store_struct_def json_space_def byte_of_def maxBodyBytes_def list_all_iff)
  finally show "decodeJSON fs zero (snd (peek_body b)) = Some zero" .
qed

text \<open>Every request but a preflight of a listed origin leaves its line, with the status it was sent.\<close>

lemma request_logged:
  assumes "\<not> (cors_allows s rq \<and> rq_method rq = ''OPTIONS'')"
  shows "\<exists>r w' line. serve s e rq w = (Inr r, w')
    \<and> (\<exists>r0. requestLogger rq (withAuditMeta s rq (dispatch s rq) e no_ctx) w = (Inr (r0, line), w'))
    \<and> log_status line = status r"
proof -
  let ?m = "withAuditMeta s rq (dispatch s rq) e no_ctx"
  have "responds (discreet s) ?m" by (intro answer_intros responds_dispatch)
  then obtain r w1 where m: "?m w = (Inr r, w1)" "discreet s r" unfolding responds_def by metis
  from cors_run [where m = ?m and rq = rq, OF m] assms obtain r1
    where "cors s rq ?m w = (Inr r1, w1)" "status r1 = status r" by auto
  with m(1) show ?thesis
    by (simp add: serve_def securityHeaders_def requestLogger_def bind_op_def)
qed

end
