(* ===== verification/Route_Policy.thy ===== *)
theory Route_Policy
  imports Response_Theorems Key_Theorems
begin

text \<open>
  The authorization policy of the whole route table: what each route asks of its caller, as a
  table of its own, and that the middleware in front of the routes enforces exactly that.
\<close>

section \<open>The policy\<close>

datatype guard = Public | HumanSession | Needs permission

definition route_guard :: "route \<Rightarrow> guard" where
  "route_guard rt =
    (case rt of
       PostLogout \<Rightarrow> HumanSession | GetMe \<Rightarrow> HumanSession | PostPassword _ \<Rightarrow> HumanSession
     | GetSessions \<Rightarrow> HumanSession | DeleteSession _ \<Rightarrow> HumanSession | PostResend \<Rightarrow> HumanSession
     | GetUsers _ \<Rightarrow> Needs PermUsersRead
     | PutUserRoles _ _ \<Rightarrow> Needs PermUsersUpdate | PatchUser _ _ \<Rightarrow> Needs PermUsersUpdate
     | GetInvitations \<Rightarrow> Needs PermInvitationsRead
     | PostInvitation _ \<Rightarrow> Needs PermInvitationsCreate
     | DeleteInvitation _ \<Rightarrow> Needs PermInvitationsDelete
     | GetRoles \<Rightarrow> Needs PermRolesRead | PostRole _ \<Rightarrow> Needs PermRolesCreate
     | PutRole _ _ \<Rightarrow> Needs PermRolesUpdate | DeleteRoleByID _ \<Rightarrow> Needs PermRolesDelete
     | GetAudit _ _ _ _ _ \<Rightarrow> Needs PermAuditRead
     | GetAPIKeys \<Rightarrow> Needs PermAPIKeysRead | PostAPIKey _ \<Rightarrow> Needs PermAPIKeysCreate
     | DeleteAPIKey _ \<Rightarrow> Needs PermAPIKeysDelete
     | _ \<Rightarrow> Public)"

text \<open>The permissions the bearer token of a request carries at this moment, if it is good.\<close>

definition credential :: "env \<Rightarrow> http_request \<Rightarrow> world \<Rightarrow> permission_set option" where
  "credential e rq w =
    (let token = bearerToken e rq in
     if token = '''' then None
     else if HasPrefix token APIKeyTokenPrefix
     then (case AuthenticateAPIKey e token w of
             (Inr (k, _), _) \<Rightarrow> Some (keyPermissions k) | _ \<Rightarrow> None)
     else (case Authenticate e token w of
             (Inr (u, _), w1) \<Rightarrow>
               (case Authorize e u w1 of (Inr a, _) \<Rightarrow> Some (Permissions a) | _ \<Rightarrow> None)
           | _ \<Rightarrow> None))"

definition human_session :: "env \<Rightarrow> http_request \<Rightarrow> world \<Rightarrow> bool" where
  "human_session e rq w =
    (let token = bearerToken e rq in
     token \<noteq> '''' \<and> \<not> HasPrefix token APIKeyTokenPrefix
     \<and> (case Authenticate e token w of (Inr _, _) \<Rightarrow> True | _ \<Rightarrow> False))"

definition admitted :: "env \<Rightarrow> http_request \<Rightarrow> world \<Rightarrow> bool" where
  "admitted e rq w =
    (case route_guard (rq_route rq) of
       Public \<Rightarrow> True
     | HumanSession \<Rightarrow> human_session e rq w
     | Needs p \<Rightarrow> (case credential e rq w of None \<Rightarrow> False | Some ps \<Rightarrow> p \<in> ps))"

section \<open>The gates\<close>

lemma gated_closed:
  assumes "\<not> (case credential e rq w of None \<Rightarrow> False | Some ps \<Rightarrow> p \<in> ps)"
  shows "refused (gated s rq p h e no_ctx) w"
proof -
  let ?t = "bearerToken e rq"
  consider "?t = ''''" | "?t \<noteq> ''''" "HasPrefix ?t APIKeyTokenPrefix"
    | "?t \<noteq> ''''" "\<not> HasPrefix ?t APIKeyTokenPrefix" by blast
  then show ?thesis
  proof cases
    case 1
    then show ?thesis by (simp add: gated_def requireAuth_def refused_handle)
  next
    case 2
    then show ?thesis unfolding gated_def requireAuth_def Let_def
    proof (simp, intro refused_run_or_handle, intro obeys_intros, simp_all, clarify)
      fix k u w1 assume "AuthenticateAPIKey e ?t w = (Inr (k, u), w1)"
      with 2 assms have "p \<notin> keyPermissions k" by (simp add: credential_def Let_def)
      then show "refused (requireAccess s rq (requirePermission s rq p h)
          (e\<lparr>req_meta := \<lparr>RequestID = rq_id rq, metaIPAddress = clientIP s e rq,
             metaUserAgent = rq_header rq ''User-Agent'', APIKeyID = Some (keyID k)\<rparr>\<rparr>)
          (no_ctx\<lparr>ctx_user := Some u, ctx_session := Some zero_session, ctx_key := Some k\<rparr>)) w1"
        by (simp add: requireAccess_def requirePermission_def accessFrom_def Can_def Has_def
            refused_handle)
    qed
  next
    case 3
    then show ?thesis unfolding gated_def requireAuth_def Let_def
    proof (simp, intro refused_run_or_handle, intro obeys_intros, simp_all, clarify)
      fix u sess w1 assume auth: "Authenticate e ?t w = (Inr (u, sess), w1)"
      have "refused (requirePermission s rq p h e c) w2"
        if "Authorize e u w1 = (Inr a, w2)" "ctx_access c = Some a" for a w2 c
        using assms 3 auth that
        by (simp add: credential_def Let_def requirePermission_def accessFrom_def Can_def Has_def
            refused_handle)
      then show "refused (requireAccess s rq (requirePermission s rq p h) e
          (no_ctx\<lparr>ctx_user := Some u, ctx_session := Some sess\<rparr>)) w1"
        by (simp add: requireAccess_def no_ctx_def userFrom_def)
          (intro refused_run_or_handle, intro obeys_intros, simp)
    qed
  qed
qed

lemma account_closed:
  assumes "\<not> human_session e rq w"
  shows "refused (account s rq h e no_ctx) w"
proof -
  let ?t = "bearerToken e rq"
  consider "?t = ''''" | "?t \<noteq> ''''" "HasPrefix ?t APIKeyTokenPrefix"
    | "?t \<noteq> ''''" "\<not> HasPrefix ?t APIKeyTokenPrefix" by blast
  then show ?thesis
  proof cases
    case 1
    then show ?thesis by (simp add: account_def requireAuth_def refused_handle)
  next
    case 2
    then show ?thesis by (rule account_refuses_keys)
  next
    case 3
    with assms have "fst (Authenticate e ?t w) \<noteq> Inr x" for x
      by (auto simp: human_session_def Let_def split: prod.splits)
    with 3 show ?thesis unfolding account_def requireAuth_def Let_def
      by (simp, intro refused_run_or_handle, intro obeys_intros) auto
  qed
qed

lemma dispatch_guard:
  "route_guard (rq_route rq) = Needs p \<Longrightarrow> \<exists>h. dispatch s rq = gated s rq p h"
  "route_guard (rq_route rq) = HumanSession \<Longrightarrow> \<exists>h. dispatch s rq = account s rq h"
  by (cases "rq_route rq"; auto simp: route_guard_def dispatch_def)+

text \<open>The metadata that \<open>withAuditMeta\<close> puts on the context plays no part.\<close>

lemma meta_authorize: "Authorize (e\<lparr>req_meta := m\<rparr>) u = Authorize e u"
  unfolding Authorize_def LoadUserRoles_def select_roles_def order_roles_def meta_statements
  by simp

lemma meta_policy:
  "credential (e\<lparr>req_meta := m\<rparr>) rq w = credential e rq w"
  "human_session (e\<lparr>req_meta := m\<rparr>) rq w = human_session e rq w"
  unfolding credential_def human_session_def meta_authenticate meta_auth_statements meta_authorize
  by (rule refl)+

lemma gate_opens_to_key:
  assumes "AuthenticateAPIKey e (bearerToken e rq) w = (Inr (k, u), w1)"
    and "bearerToken e rq \<noteq> ''''" "HasPrefix (bearerToken e rq) APIKeyTokenPrefix"
    and "p \<in> keyPermissions k"
  shows "gated s rq p h e no_ctx w
    = h (e\<lparr>req_meta := \<lparr>RequestID = rq_id rq, metaIPAddress = clientIP s e rq,
          metaUserAgent = rq_header rq ''User-Agent'', APIKeyID = Some (keyID k)\<rparr>\<rparr>)
        (no_ctx\<lparr>ctx_user := Some u, ctx_session := Some zero_session, ctx_key := Some k,
          ctx_access := Some \<lparr>Roles = [], Permissions = keyPermissions k, ViaSuperuser = False,
            ViaAPIKey = True\<rparr>\<rparr>) w1"
  using assms
  by (simp add: gated_def requireAuth_def run_or_handle_def bind_op_def attempt_def
      requireAccess_def requirePermission_def accessFrom_def Can_def Has_def)

lemma gate_opens:
  assumes "credential e rq w = Some ps" "p \<in> ps"
  shows "\<exists>e1 c1 w1 a. (\<forall>h. gated s rq p h e no_ctx w = h e1 c1 w1)
      \<and> ctx_user c1 \<noteq> None \<and> ctx_session c1 \<noteq> None
      \<and> ctx_access c1 = Some a \<and> Permissions a = ps"
proof -
  let ?t = "bearerToken e rq"
  note gate_defs = gated_def requireAuth_def run_or_handle_def bind_op_def attempt_def
    requireAccess_def requirePermission_def accessFrom_def Can_def Has_def userFrom_def
  from assms(1) have "?t \<noteq> ''''" by (auto simp: credential_def)
  show ?thesis
  proof (cases "HasPrefix ?t APIKeyTokenPrefix")
    case True
    with assms(1) \<open>?t \<noteq> ''''\<close> obtain k u w1 where
      auth: "AuthenticateAPIKey e ?t w = (Inr (k, u), w1)" "ps = keyPermissions k"
      by (auto simp: credential_def Let_def split: prod.splits sum.splits)
    let ?e = "e\<lparr>req_meta := \<lparr>RequestID = rq_id rq, metaIPAddress = clientIP s e rq,
        metaUserAgent = rq_header rq ''User-Agent'', APIKeyID = Some (keyID k)\<rparr>\<rparr>"
    let ?a = "\<lparr>Roles = [], Permissions = keyPermissions k, ViaSuperuser = False, ViaAPIKey = True\<rparr>"
    let ?c = "no_ctx\<lparr>ctx_user := Some u, ctx_session := Some zero_session, ctx_key := Some k,
        ctx_access := Some ?a\<rparr>"
    have "gated s rq p h e no_ctx w = h ?e ?c w1" for h
      using gate_opens_to_key [OF auth(1)] True \<open>?t \<noteq> ''''\<close> assms(2) auth(2) by simp
    moreover have "ctx_user ?c \<noteq> None" "ctx_session ?c \<noteq> None" "ctx_access ?c = Some ?a" by simp_all
    moreover have "Permissions ?a = ps" using auth(2) by simp
    ultimately show ?thesis by blast
  next
    case False
    with assms(1) \<open>?t \<noteq> ''''\<close> obtain u sess w1 a w2 where
      auth: "Authenticate e ?t w = (Inr (u, sess), w1)" "Authorize e u w1 = (Inr a, w2)"
        "ps = Permissions a"
      by (auto simp: credential_def Let_def split: prod.splits sum.splits)
    let ?c = "no_ctx\<lparr>ctx_user := Some u, ctx_session := Some sess, ctx_access := Some a\<rparr>"
    have "gated s rq p h e no_ctx w = h e ?c w2" for h
      using False \<open>?t \<noteq> ''''\<close> assms(2) auth by (simp add: gate_defs no_ctx_def)
    moreover have "ctx_user ?c \<noteq> None" "ctx_session ?c \<noteq> None" "ctx_access ?c = Some a" by simp_all
    ultimately show ?thesis using auth(3) by blast
  qed
qed

section \<open>Theorems\<close>


lemma bearer_header: "rq_header rq = rq_header rq' \<Longrightarrow> bearerToken e rq = bearerToken e rq'"
  by (simp add: bearerToken_def)

lemma demo_header:
  "rq_header (demo_request ''mtt_key_1'' rt) = rq_header key_request"
  by (simp add: demo_request_def key_request_def)

lemma demo_key_authenticates:
  obtains k u w1 where "AuthenticateAPIKey demo_env ''mtt_key_1'' demo_world = (Inr (k, u), w1)"
    "keyPermissions k = {''users.read''}"
proof -
  let ?k = "hd (api_keys demo_db)" and ?x = "demo_user 1 ''ann@x''"
  have "?k \<in> set (api_keys demo_db)" "live_key demo_env (HashToken demo_env ''mtt_key_1'') demo_db ?k"
    "?x \<in> set (users demo_db)" "u_id ?x = k_user_id ?k"
    by (simp_all add: demo_defs live_key_def HashToken_def)
  then obtain w1 where run: "AuthenticateAPIKey demo_env ''mtt_key_1'' demo_world
      = (Inr (key_of ?k (set (perms_of_key demo_db (k_id ?k))), scanUser ?x), w1)"
    using AuthenticateAPIKey_success [of demo_env demo_world "''mtt_key_1''" ?k ?x] by auto
  have "keyPermissions (key_of ?k (set (perms_of_key demo_db (k_id ?k)))) = {''users.read''}"
    by (simp add: key_of_def perms_of_key_def demo_defs)
  with run show ?thesis by (rule that)
qed


section \<open>The key of a superuser\<close>

text \<open>Bob is a superuser and has a key that may only update users; Ann is the only administrator.\<close>

definition bob_key :: api_key_row where
  "bob_key = \<lparr>k_id = uid 62, k_user_id = uid 2, k_name = ''ci'', k_token_hash = ''mtt_key_1'',
     k_token_prefix = ''mtt_key_1'', k_expires_at = None, k_last_used_at = Some 10,
     k_revoked_at = None, k_created_at = 0\<rparr>"

definition superuser_world :: world where
  "superuser_world = demo_world\<lparr>db := demo_db\<lparr>
     users := [demo_user 1 ''ann@x'', (demo_user 2 ''bob@x'')\<lparr>u_is_superuser := True\<rparr>],
     api_keys := [bob_key], api_key_permissions := [(uid 62, ''users.update'')]\<rparr>\<rparr>"

lemma superuser_world_simps [simp]:
  "users (db superuser_world)
     = [demo_user 1 ''ann@x'', (demo_user 2 ''bob@x'')\<lparr>u_is_superuser := True\<rparr>]"
  "api_keys (db superuser_world) = [bob_key]"
  "api_key_permissions (db superuser_world) = [(uid 62, ''users.update'')]"
  "user_roles (db superuser_world) = user_roles demo_db"
  "roles (db superuser_world) = roles demo_db" "sessions (db superuser_world) = sessions demo_db"
  "role_permissions (db superuser_world) = role_permissions demo_db"
  "audit_log (db superuser_world) = []"
  by (simp_all add: superuser_world_def demo_db_def)

lemma superuser_key:
  obtains w1 where "AuthenticateAPIKey demo_env ''mtt_key_1'' superuser_world
      = (Inr (key_of bob_key {''users.update''},
          scanUser ((demo_user 2 ''bob@x'')\<lparr>u_is_superuser := True\<rparr>)), w1)"
    "db w1 = db superuser_world"
proof -
  let ?x = "(demo_user 2 ''bob@x'')\<lparr>u_is_superuser := True\<rparr>"
  have perms: "set (perms_of_key (db superuser_world) (uid 62)) = {''users.update''}"
    by (simp add: perms_of_key_def)
  have live: "live_key demo_env ''mtt_key_1'' (db superuser_world) bob_key"
    by (simp add: live_key_def bob_key_def demo_user_def)
  have "auth_key demo_env ''mtt_key_1'' (db superuser_world) = (Some bob_key, db superuser_world)"
    using live by (simp add: auth_key_def touch_due_def bob_key_def sessionTouchInterval_def)
  then have "AuthenticateAPIKey demo_env ''mtt_key_1'' superuser_world
      = (Inr (key_of bob_key {''users.update''}, scanUser ?x), tick (tick (tick superuser_world)))"
    by (simp add: AuthenticateAPIKey_def repo_AuthenticateAPIKey_def op_simps HashToken_def
        loadAPIKeyPermissions_def GetUserByID_def scanUserOrNotFound_def bob_key_def perms
        key_of_def demo_user_def tick_def)
  then show ?thesis by (rule that) (simp add: tick_def)
qed

lemma demo_meta: "quiet (demo_env\<lparr>req_meta := m\<rparr>)"
  using quiet_demo by (simp add: quiet_def)

lemma superuser_deactivates:
  assumes "db w1 = db superuser_world" "IsSuperuser actor" "userID actor = uid 2"
  shows "\<exists>u w'. SetUserActive (demo_env\<lparr>req_meta := m\<rparr>) actor (uid 1) False w1 = (Inr u, w')"
  using assms
  by (simp add: SetUserActive_def InTx_quiet demo_meta bind_op_def)
    (simp add: repo_SetUserActive_def RevokeUserSessions_def revoke_sessions_def op_simps demo_meta
      update_user_def scanUserOrNotFound_def Event_def demo_user_def)

definition bob_super :: user where
  "bob_super = scanUser ((demo_user 2 ''bob@x'')\<lparr>u_is_superuser := True\<rparr>)"

text \<open>A request with the key to a route that needs \<open>users.update\<close> reaches the handler.\<close>

lemma served_by_key:
  assumes "rq_header rq = rq_header key_request" "rq_method rq \<noteq> ''OPTIONS''"
    and "dispatch demo_server rq = gated demo_server rq ''users.update'' h"
  obtains m c w1 where "db w1 = db superuser_world" "ctx_user c = Some bob_super"
    "ctx_access c = Some \<lparr>Roles = [], Permissions = {''users.update''}, ViaSuperuser = False,
       ViaAPIKey = True\<rparr>"
    "\<And>r w'. h (demo_env\<lparr>req_meta := m\<rparr>) c w1 = (Inr r, w') \<Longrightarrow>
       \<exists>r1. serve demo_server demo_env rq superuser_world = (Inr r1, w') \<and> status r1 = status r"
proof -
  let ?e = "demo_env\<lparr>req_meta := \<lparr>RequestID = rq_id rq, metaIPAddress = clientIP demo_server demo_env rq,
    metaUserAgent = rq_header rq ''User-Agent'', APIKeyID = None\<rparr>\<rparr>"
  have token: "bearerToken ?e rq = ''mtt_key_1''"
    using key_bearer bearer_header [OF assms(1)] by (metis meta_auth_statements(3))
  obtain w1 where w1: "AuthenticateAPIKey demo_env ''mtt_key_1'' superuser_world
      = (Inr (key_of bob_key {''users.update''}, bob_super), w1)" "db w1 = db superuser_world"
    unfolding bob_super_def by (rule superuser_key)
  let ?k = "key_of bob_key {''users.update''}"
  let ?m = "\<lparr>RequestID = rq_id rq, metaIPAddress = clientIP demo_server ?e rq,
    metaUserAgent = rq_header rq ''User-Agent'', APIKeyID = Some (keyID ?k)\<rparr>"
  let ?c = "no_ctx\<lparr>ctx_user := Some bob_super, ctx_session := Some zero_session, ctx_key := Some ?k,
    ctx_access := Some \<lparr>Roles = [], Permissions = keyPermissions ?k, ViaSuperuser = False,
      ViaAPIKey = True\<rparr>\<rparr>"
  have auth: "AuthenticateAPIKey ?e (bearerToken ?e rq) superuser_world = (Inr (?k, bob_super), w1)"
    by (simp only: token meta_authenticate w1(1))
  have "gated demo_server rq ''users.update'' h ?e no_ctx superuser_world
      = h (?e\<lparr>req_meta := ?m\<rparr>) ?c w1"
    by (rule gate_opens_to_key [OF auth])
      (simp_all add: token HasPrefix_def APIKeyTokenPrefix_def key_of_def)
  moreover have "?e\<lparr>req_meta := ?m\<rparr> = demo_env\<lparr>req_meta := ?m\<rparr>" by simp
  ultimately have reach: "withAuditMeta demo_server rq (dispatch demo_server rq) demo_env no_ctx
      superuser_world = h (demo_env\<lparr>req_meta := ?m\<rparr>) ?c w1"
    by (simp only: withAuditMeta_def assms(3))
  show ?thesis
  proof (rule that [OF w1(2)])
    fix r w' assume "h (demo_env\<lparr>req_meta := ?m\<rparr>) ?c w1 = (Inr r, w')"
    with reach serve_status [OF _ assms(2)] show "\<exists>r1. serve demo_server demo_env rq superuser_world
        = (Inr r1, w') \<and> status r1 = status r" by metis
  qed (simp_all add: key_of_def)
qed

lemma superuser_world_admins:
  "holds_admin (db superuser_world) u \<longleftrightarrow> u = uid 1"
  "active_admin (db superuser_world) u \<longleftrightarrow> u = uid 1"
  by (auto simp: holds_admin_def active_admin_def admin_row_def demo_db_def demo_role_def
      demo_user_def RoleKeyAdmin_def)

lemma superuser_world_keys_ok: "keys_ok (db superuser_world)"
  by (simp add: keys_ok_def superuser_world_def bob_key_def demo_defs)

lemma superuser_key_deactivates:
  "\<exists>r w'. serve demo_server demo_env
        (demo_request ''mtt_key_1'' (PatchUser ''ann'' (Some False))) superuser_world = (Inr r, w')
      \<and> status r = 200 \<and> (\<forall>u. \<not> active_admin (db w') u)"
proof -
  let ?rq = "demo_request ''mtt_key_1'' (PatchUser ''ann'' (Some False))"
  have ann: "uuid_Parse demo_env ''ann'' = Some (uid 1)" by (simp add: demo_env_def)
  have bob: "userID bob_super = uid 2" "IsSuperuser bob_super"
    by (simp_all add: bob_super_def demo_user_def)
  have meth: "rq_method (demo_request t rt) \<noteq> ''OPTIONS''" for t rt by (simp add: demo_request_def)
  have "dispatch demo_server ?rq = gated demo_server ?rq ''users.update''
      (handleSetUserActive demo_server ?rq ''ann'' (Some False))"
    by (simp add: dispatch_def demo_request_def PermUsersUpdate_def)
  from served_by_key [OF demo_header meth this] obtain m c w1 where
    w1: "db w1 = db superuser_world" and c: "ctx_user c = Some bob_super" and
    served: "\<And>r w'. handleSetUserActive demo_server ?rq ''ann'' (Some False)
        (demo_env\<lparr>req_meta := m\<rparr>) c w1 = (Inr r, w') \<Longrightarrow>
      \<exists>r1. serve demo_server demo_env ?rq superuser_world = (Inr r1, w') \<and> status r1 = status r"
    by metis
  obtain u w' where run:
    "SetUserActive (demo_env\<lparr>req_meta := m\<rparr>) bob_super (uid 1) False w1 = (Inr u, w')"
    using superuser_deactivates [OF w1 bob(2,1)] by blast
  then have "handleSetUserActive demo_server ?rq ''ann'' (Some False) (demo_env\<lparr>req_meta := m\<rparr>) c w1
      = (Inr \<lparr>status = 200, headers = [(''Content-Type'', ''application/json'')], payload = PUser u\<rparr>, w')"
    by (simp add: handleSetUserActive_def ann userFrom_def c run_or_handle_def bind_op_def
        attempt_def writeJSON_def)
  from served [OF this] obtain r1 where
    "serve demo_server demo_env ?rq superuser_world = (Inr r1, w')" "status r1 = 200" by auto
  moreover have "\<not> active_admin (db w') v" for v
  proof (rule deactivation_Inr [OF _ run])
    show "keys_ok (db w1)" by (simp add: w1 superuser_world_keys_ok)
    fix ev w2
    assume d': "db w' = logged (demo_env\<lparr>req_meta := m\<rparr>) ev w2
        (deactivate (demo_env\<lparr>req_meta := m\<rparr>) (uid 1) (db w1))"
    have "holds_admin (db w') v \<Longrightarrow> v = uid 1"
      using superuser_world_admins(1) [of v] by (simp add: d' logged_def holds_admin_def w1)
    moreover have "x \<in> set (users (db w')) \<Longrightarrow> u_id x = uid 1 \<Longrightarrow> \<not> u_is_active x" for x
      using deactivate_inactive by (simp add: d' logged_def)
    ultimately show ?thesis by (auto simp: active_admin_def)
  qed
  ultimately show ?thesis by blast
qed

lemma superuser_key_assigns:
  "\<exists>r w'. serve demo_server demo_env
        (demo_request ''mtt_key_1'' (PutUserRoles ''ann'' (Some []))) superuser_world = (Inr r, w')
      \<and> status r = 403"
proof -
  let ?rq = "demo_request ''mtt_key_1'' (PutUserRoles ''ann'' (Some []))"
  have ann: "uuid_Parse demo_env ''ann'' = Some (uid 1)" by (simp add: demo_env_def)
  have meth: "rq_method (demo_request t rt) \<noteq> ''OPTIONS''" for t rt by (simp add: demo_request_def)
  have "dispatch demo_server ?rq = gated demo_server ?rq ''users.update''
      (handleSetUserRoles demo_server ?rq ''ann'' (Some []))"
    by (simp add: dispatch_def demo_request_def PermUsersUpdate_def)
  from served_by_key [OF demo_header meth this] obtain m c w1 where
    w1: "db w1 = db superuser_world" and c: "ctx_user c = Some bob_super"
      "ctx_access c = Some \<lparr>Roles = [], Permissions = {''users.update''}, ViaSuperuser = False,
         ViaAPIKey = True\<rparr>" and
    served: "\<And>r w'. handleSetUserRoles demo_server ?rq ''ann'' (Some [])
        (demo_env\<lparr>req_meta := m\<rparr>) c w1 = (Inr r, w') \<Longrightarrow>
      \<exists>r1. serve demo_server demo_env ?rq superuser_world = (Inr r1, w') \<and> status r1 = status r"
    by metis
  have "fresh_audit (demo_env\<lparr>req_meta := m\<rparr>) (db w1)" by (simp add: fresh_audit_def w1)
  then have "fst (SetUserRoles (demo_env\<lparr>req_meta := m\<rparr>) bob_super
      \<lparr>Roles = [], Permissions = {''users.update''}, ViaSuperuser = False, ViaAPIKey = True\<rparr>
      (uid 1) [] w1) = Inl ErrForbidden"
    using superuser_world_keys_ok
    by (subst SetUserRoles_quiet [OF demo_meta])
      (simp_all add: w1 superuser_world_admins bob_super_def demo_user_def actorHoldsRole_def
        hasRole_def)
  then obtain w2 where run: "SetUserRoles (demo_env\<lparr>req_meta := m\<rparr>) bob_super
      \<lparr>Roles = [], Permissions = {''users.update''}, ViaSuperuser = False, ViaAPIKey = True\<rparr>
      (uid 1) [] w1 = (Inl ErrForbidden, w2)" by (metis prod.collapse)
  obtain r w3 where "handle demo_server ?rq (demo_env\<lparr>req_meta := m\<rparr>) c ErrForbidden w2 = (Inr r, w3)"
    "status r = 403"
    using handle_run [of demo_server ?rq "demo_env\<lparr>req_meta := m\<rparr>" c ErrForbidden w2]
    by (auto simp: error_response_def)
  moreover from this have "handleSetUserRoles demo_server ?rq ''ann'' (Some [])
      (demo_env\<lparr>req_meta := m\<rparr>) c w1 = (Inr r, w3)"
    by (simp add: handleSetUserRoles_def ann userFrom_def accessFrom_def c run_or_handle_def
        bind_op_def attempt_def run)
  ultimately show ?thesis using served by metis
qed


end
