(* ===== verification/Spec2Isabelle.thy ===== *)
theory Spec2Isabelle
  imports Http_Runs Login_Theorems Link_Theorems Process_Theorems
    Key_Theorems Response_Theorems Trail_Theorems Race_Theorems Wire_Theorems
    Route_Policy
begin

text \<open>
  A verification library for the go-template service: a single-tenant HTTP API in Go with
  accounts, sessions, roles and permissions, invitations, API keys and an append-only audit
  log on PostgreSQL.

  The program and the model. A request enters \<open>internal/server\<close>: middleware finds out who
  asks (\<open>requireAuth\<close>), with which permissions (\<open>requireAccess\<close>), and whether the route's
  permission is among them (\<open>requirePermission\<close>); a handler decodes it and calls the service
  in \<open>internal/identity\<close>, which checks the rules that move authority and runs SQL statements
  through its repository, in a transaction that also writes the audit entry. The model keeps
  this layering. A Go function that talks to the outside is an operation \<open>'a op\<close>: it takes a
  \<open>world\<close> (the database, the outbox, the limiter, and counters of statements, random reads
  and mails) and returns either an \<open>error\<close> or a value, with the world after it. A statement is
  a function of the tables that may violate a constraint. The environment \<open>env\<close> holds what
  the source takes from elsewhere: the clocks of the process and of the database, which
  statement loses its connection (\<open>fault\<close>), the UUIDs and random bytes drawn, SHA-256, argon2,
  the parsers of addresses, UUIDs and times, what Postgres accepts as text, and the
  configuration. Nothing is assumed of them except where a theorem says so.

  The theories, in the order they build on each other.

  \<open>Prelude\<close>, \<open>Settings\<close>, \<open>Models\<close>, \<open>Mail\<close>, \<open>Rate_Limit\<close>: strings and table updates shared by all;
  \<open>settings.go\<close> with \<open>Load\<close> and \<open>validate\<close>, and \<open>logger.go\<close>; the structs of \<open>models.go\<close>, the
  errors of \<open>errors.go\<close> and the rows of the schema, with \<open>keys_ok\<close> for its unique keys;
  \<open>internal/mail\<close>; the limiter of \<open>ratelimit.go\<close>.

  \<open>Database\<close>, \<open>Laws\<close>: statements, \<open>InTx\<close> of \<open>postgres.go\<close>, and the machinery of the frame and
  invariant proofs: \<open>obeys R m\<close> says that \<open>m\<close> relates the database before and after by \<open>R\<close>,
  proved along the code's structure by the rules \<open>obeys_intros\<close>, once for every reflexive
  and transitive \<open>R\<close> (the locale \<open>db_relation\<close>, interpreted for the laws \<open>lawful\<close>, for
  \<open>keeps\<close>, which confines a permission to a set of users, for the frames \<open>changes_only\<close> and
  others).

  \<open>Permissions\<close>, \<open>Fan_In\<close>, \<open>Tokens\<close>, \<open>Audit_Trail\<close>, \<open>Roles_Repo\<close>, \<open>Users_Repo\<close>, \<open>Links_Repo\<close>,
  \<open>API_Keys_Repo\<close>: \<open>permissions.go\<close>; the loop that folds the rows of a LEFT JOIN into objects
  (a locale, interpreted for roles and API keys) and its equality with the plain meaning;
  \<open>token.go\<close> with base64 written out; \<open>audit.go\<close> with the trigger of the migration; and the
  statements of the repository files, each with the constraints it can violate.

  \<open>Password\<close>, \<open>Accounts\<close>, \<open>Authority\<close>, \<open>Grants\<close>: \<open>password.go\<close> with the PHC parser written out;
  \<open>service.go\<close>, \<open>password_reset.go\<close>, \<open>email_verification.go\<close>; \<open>roles_service.go\<close>,
  \<open>apikeys_service.go\<close> and the rest of \<open>service.go\<close>. \<open>guarded_grant\<close> is the contract of the
  six calls that hand out permissions, interpreted for each.

  \<open>Server\<close>, \<open>Handlers\<close>, \<open>Json\<close>, \<open>Wire\<close>, \<open>Commands\<close>: the errors, middleware and headers; every
  handler and the route table (\<open>dispatch\<close>, \<open>serve\<close>); what the program uses of
  \<open>encoding/json\<close>, written out; \<open>decodeJSON\<close>, \<open>peekEmail\<close> and the request structs, which turn
  the bytes of a body into the request \<open>serve\<close> takes (\<open>receive\<close>, \<open>serve_wire\<close>); \<open>main.go\<close>: the
  subcommands with their exit codes, the start of the server (with \<open>NewPool\<close>, \<open>Migrate\<close> and
  \<open>server.New\<close>), how it ends, and the reaper.

  The theorems. \<open>Http_Laws\<close>, \<open>Http_Access\<close>, \<open>Http_Runs\<close>: what any sequence of requests,
  sweeps and failures preserves, and that nothing passes a gate it should not pass.
  \<open>Session_Theorems\<close>, \<open>Login_Theorems\<close>, \<open>User_Theorems\<close>, \<open>Role_Theorems\<close>, \<open>Link_Theorems\<close>,
  \<open>Key_Theorems\<close>: what each operation does on every branch, and which rights it ends or
  gives. \<open>Route_Policy\<close>: what every route asks of its caller, as a table, and that the middleware
  enforces it. \<open>Wire_Theorems\<close>: what a decoded body was, and that the limiter reads the same email out
  of it as the handler (the locale \<open>email_request\<close>, interpreted for the three structs with
  one). \<open>Page_Theorems\<close>: paging through a listing (the locale \<open>keyset_listing\<close>, interpreted
  for the directory and for the log). \<open>Upkeep_Theorems\<close>, \<open>Edge_Theorems\<close>: tokens, the catalog,
  the retention, the sweeps, the limiter and mail headers. \<open>Trail_Theorems\<close>: every change of
  authority is in the log. \<open>Response_Theorems\<close>: every request is answered. \<open>Process_Theorems\<close>:
  the process from its configuration to its end. \<open>Race_Theorems\<close>: two assignments at once.
  \<open>Quiet_Runs\<close> computes operations when no
  statement fails; \<open>Demo\<close> is the installation on which the witnesses run.

  Bounds and fuel. Only the paging client has fuel, one more than the rows of the table;
  \<open>follow_from\<close> shows that it is enough. All loops of the code are structural
  recursions; the JSON scanner and \<open>unquote\<close> consume the text they read.
  Integers of the code that matter at their width (the argon2 parameters) are words;
  counters and times are \<open>int\<close>.

  Not modelled. Concurrency between requests, in general: a transaction is one step, so the
  theorems are about serial executions; \<open>Race_Theorems\<close> takes \<open>SetUserRoles\<close> apart and shows
  what READ COMMITTED allows beyond them. The listening
  socket, chi's matching of paths (a request arrives routed, with its URL parameters and query
  values), the encoding of responses, log lines (but \<open>requestLogger\<close>), goose and the migration
  files (their result is the schema in \<open>Models\<close>), the timeouts of contexts, and the panic of
  argon2 for zero iterations, which \<open>validate\<close> lets through: the model takes argon2 to be total.
  The mutex of the limiter makes each of its calls one step.
\<close>

end
